(* ===== verification/Prelude.thy ===== *)
theory Prelude
  imports Main "HOL-Library.Word" "HOL-Library.Signed_Division"
begin

text \<open>
  Shared vocabulary of the development: the Go base types, Go's error values, the results of
  fallible calls, the decimal rendering of integers, and the list operations that the SQL
  statements of the repositories are read as.
\<close>

section \<open>Go base types\<close>

text \<open>
  A Go string is a byte sequence, so \<^typ>\<open>string\<close> (a list of 8-bit characters) is exact and
  \<open>length\<close> is Go's \<open>len\<close>. Instants and durations are integers counting nanoseconds.
\<close>

type_synonym int64 = "64 word"
type_synonym gotime = int

text \<open>\<open>time.Millisecond\<close>, \<open>time.Second\<close>, \<open>time.Minute\<close>, and \<open>t.Unix()\<close>.\<close>

definition millisecond :: gotime where
  "millisecond = 1000000"

definition second :: gotime where
  "second = 1000000000"

definition minute :: gotime where
  "minute = 60 * second"

definition Unix :: "gotime \<Rightarrow> int" where
  "Unix t = t div second"

lemmas time_units = millisecond_def second_def minute_def

named_theorems sql_simps \<open>equations of the list operations behind the SQL statements\<close>
named_theorems result_simps \<open>case analysis of fallible results\<close>

section \<open>Errors\<close>

text \<open>
  The sentinel errors that the program compares by identity (\<open>errors.Is\<close>), and \<open>Err\<close> for
  every \<open>errors.New\<close> or driver error that is only ever shown.
\<close>

datatype err =
    ErrInvalidCredentials | ErrUserExists | ErrUserNotFound | ErrInvalidToken
  | ErrTokenExpired | ErrInvalidTokenType
  | ErrRoomNotFound | ErrUserBanned
  | ErrInvalidEmail | ErrInvalidUsername | ErrInvalidPassword | ErrTooShort | ErrTooLong
  | ErrNoRows
  | Err string

text \<open>\<open>err.Error()\<close>.\<close>

fun Error :: "err \<Rightarrow> string" where
  "Error ErrInvalidCredentials = ''invalid credentials''"
| "Error ErrUserExists = ''user already exists''"
| "Error ErrUserNotFound = ''user not found''"
| "Error ErrInvalidToken = ''invalid token''"
| "Error ErrTokenExpired = ''token expired''"
| "Error ErrInvalidTokenType = ''invalid token type''"
| "Error ErrRoomNotFound = ''room not found''"
| "Error ErrUserBanned = ''user is banned from this room''"
| "Error ErrInvalidEmail = ''invalid email format''"
| "Error ErrInvalidUsername = ''invalid username format''"
| "Error ErrInvalidPassword = ''invalid password''"
| "Error ErrTooShort = ''value too short''"
| "Error ErrTooLong = ''value too long''"
| "Error ErrNoRows = ''no rows in result set''"
| "Error (Err s) = s"

text \<open>A fallible call returns the error on the left, its value on the right.\<close>

type_synonym 'a result = "err + 'a"

fun is_ok :: "'a result \<Rightarrow> bool" where
  "is_ok (Inl e) = False"
| "is_ok (Inr v) = True"

lemma is_ok_iff [result_simps]: "is_ok r \<longleftrightarrow> (\<exists>v. r = Inr v)"
  by (cases r) auto

lemma sum_case_InrD:
  "(case r of Inl e \<Rightarrow> Inl e | Inr v \<Rightarrow> f v) = Inr w \<Longrightarrow> \<exists>v. r = Inr v \<and> f v = Inr w"
  by (cases r) auto

section \<open>Decimal rendering\<close>

fun dec_digits :: "nat \<Rightarrow> string" where
  "dec_digits n =
     (if n < 10 then [char_of (48 + n)] else dec_digits (n div 10) @ [char_of (48 + n mod 10)])"

declare dec_digits.simps [simp del]

text \<open>\<open>strconv.FormatInt(i, 10)\<close>.\<close>

definition FormatInt10 :: "int \<Rightarrow> string" where
  "FormatInt10 i = (if i < 0 then CHR ''-'' # dec_digits (nat (- i)) else dec_digits (nat i))"

text \<open>The value denoted by a digit string, the inverse of \<open>dec_digits\<close>.\<close>

fun dec_value :: "nat \<Rightarrow> string \<Rightarrow> nat" where
  "dec_value acc [] = acc"
| "dec_value acc (c # cs) = dec_value (10 * acc + (of_char c - 48)) cs"

lemma dec_value_append: "dec_value a (xs @ ys) = dec_value (dec_value a xs) ys"
  by (induction xs arbitrary: a) auto

lemma of_char_digit: "d < 10 \<Longrightarrow> of_char (char_of (48 + d) :: char) = (48 + d :: nat)"
  by (simp add: take_bit_eq_mod)

lemma dec_value_digits [simp]: "dec_value 0 (dec_digits n) = n"
proof (induction n rule: dec_digits.induct)
  case (1 n)
  show ?case
  proof (cases "n < 10")
    case True
    then show ?thesis
      by (subst dec_digits.simps) (simp add: of_char_digit)
  next
    case False
    have "dec_value 0 (dec_digits n) = 10 * (n div 10) + n mod 10"
      using False 1
      by (subst dec_digits.simps) (simp add: dec_value_append of_char_digit)
    then show ?thesis by simp
  qed
qed

lemma dec_digits_inj: "dec_digits m = dec_digits n \<Longrightarrow> m = n"
  by (metis dec_value_digits)

lemma dec_digits_range: "c \<in> set (dec_digits n) \<Longrightarrow> (of_char c :: nat) \<in> {48..57}"
proof (induction n rule: dec_digits.induct)
  case (1 n)
  show ?case
  proof (cases "n < 10")
    case True
    then show ?thesis using 1(2) by (simp add: dec_digits.simps [of n] of_char_digit)
  next
    case False
    have "c \<in> set (dec_digits (n div 10)) \<or> c = char_of (48 + n mod 10)"
      using 1(2) False by (auto simp: dec_digits.simps [of n])
    then show ?thesis using 1(1) False by (auto simp: of_char_digit)
  qed
qed

lemma dec_digits_not_Nil: "dec_digits n \<noteq> []"
  by (subst dec_digits.simps) simp

lemma FormatInt10_inj: "FormatInt10 i = FormatInt10 j \<longleftrightarrow> i = j"
proof
  assume eq: "FormatInt10 i = FormatInt10 j"
  have minus: "dec_digits m \<noteq> CHR ''-'' # xs" for m xs
    using dec_digits_range [of "CHR ''-''" m] by auto
  show "i = j"
    using eq minus minus [symmetric] dec_digits_inj
    by (fastforce simp: FormatInt10_def split: if_splits)
qed simp

section \<open>Tables\<close>

text \<open>
  A table is the list of its rows. \<open>UPDATE t SET f WHERE p\<close>, \<open>SELECT * FROM t WHERE p\<close>,
  \<open>QueryRow\<close> (the first row, \<open>ErrNoRows\<close> if there is none), \<open>SELECT COUNT(*)\<close> and
  \<open>SELECT EXISTS\<close> are the list operations below.
\<close>

definition sql_update :: "('a \<Rightarrow> bool) \<Rightarrow> ('a \<Rightarrow> 'a) \<Rightarrow> 'a list \<Rightarrow> 'a list" where
  "sql_update p f t = map (\<lambda>r. if p r then f r else r) t"

definition sql_select :: "('a \<Rightarrow> bool) \<Rightarrow> 'a list \<Rightarrow> 'a list" where
  "sql_select p t = filter p t"

definition sql_row :: "('a \<Rightarrow> bool) \<Rightarrow> 'a list \<Rightarrow> 'a option" where
  "sql_row p t = find p t"

definition sql_count :: "('a \<Rightarrow> bool) \<Rightarrow> 'a list \<Rightarrow> nat" where
  "sql_count p t = length (filter p t)"

definition sql_exists :: "('a \<Rightarrow> bool) \<Rightarrow> 'a list \<Rightarrow> bool" where
  "sql_exists p t = list_ex p t"

lemma sql_exists_iff [sql_simps]: "sql_exists p t \<longleftrightarrow> (\<exists>r \<in> set t. p r)"
  by (simp add: sql_exists_def list_ex_iff)

lemma sql_row_SomeD: "sql_row p t = Some r \<Longrightarrow> r \<in> set t \<and> p r"
  by (auto simp: sql_row_def find_Some_iff)

lemma sql_row_None_iff [sql_simps]: "sql_row p t = None \<longleftrightarrow> (\<forall>r \<in> set t. \<not> p r)"
  by (auto simp: sql_row_def find_None_iff)

lemma sql_row_append_miss:
  "\<forall>r \<in> set t. \<not> p r \<Longrightarrow> sql_row p (t @ u) = sql_row p u"
  unfolding sql_row_def by (induction t) auto

lemma sql_row_append_hit: "sql_row p t = Some r \<Longrightarrow> sql_row p (t @ u) = Some r"
  unfolding sql_row_def by (induction t) (auto split: if_splits)

lemma sql_row_update_keep:
  assumes "\<And>r. p (f r) = p r"
  shows "sql_row p (sql_update q f t) = map_option (\<lambda>r. if q r then f r else r) (sql_row p t)"
  using assms unfolding sql_row_def sql_update_def by (induction t) auto

lemma sql_update_length [simp]: "length (sql_update p f t) = length t"
  by (simp add: sql_update_def)

lemma set_sql_update [sql_simps]:
  "set (sql_update p f t) = (\<lambda>r. if p r then f r else r) ` set t"
  by (simp add: sql_update_def)

lemma sql_update_id: "(\<And>r. r \<in> set t \<Longrightarrow> \<not> p r) \<Longrightarrow> sql_update p f t = t"
  unfolding sql_update_def by (induction t) auto

lemma sql_count_append [sql_simps]: "sql_count p (t @ u) = sql_count p t + sql_count p u"
  by (simp add: sql_count_def)

lemma map_key_update:
  "(\<And>r. k (f r) = k r) \<Longrightarrow> map k (sql_update p f t) = map k t"
  by (simp add: sql_update_def)

end
