(* ===== verification/Snowflake.thy ===== *)
theory Snowflake
  imports Prelude
begin

text \<open>
  The message-id generator of \<open>pkg/snowflake/snowflake.go\<close>. A generator packs a millisecond
  timestamp, a node number and a per-millisecond sequence number into one \<open>int64\<close>. The first
  part models \<open>Generate\<close> as a function of the clock readings it consumes; the second part
  splits it at the points where it releases its mutex and models any number of goroutines.
\<close>

unbundle bit_operations_syntax

section \<open>Constants and state\<close>

definition epoch :: int64 where
  "epoch = 1609459200000"

abbreviation nodeIDBits :: nat where "nodeIDBits \<equiv> 10"
abbreviation sequenceBits :: nat where "sequenceBits \<equiv> 12"
abbreviation timestampShift :: nat where "timestampShift \<equiv> nodeIDBits + sequenceBits"
abbreviation nodeIDShift :: nat where "nodeIDShift \<equiv> sequenceBits"

definition sequenceMask :: int64 where
  "sequenceMask = (- 1) XOR (push_bit sequenceBits (- 1))"

definition maxNodeID :: int64 where
  "maxNodeID = (- 1) XOR (push_bit nodeIDBits (- 1))"

record generator =
  nodeID :: int64
  sequence :: int64
  lastTime :: int64

text \<open>\<open>New\<close> panics on a node number out of range; the panic is \<^const>\<open>None\<close>.\<close>

definition New :: "int64 \<Rightarrow> generator option" where
  "New n = (if sint n < 0 \<or> sint n > sint maxNodeID then None
            else Some \<lparr>nodeID = n, sequence = 0, lastTime = 0\<rparr>)"

definition SetNodeID :: "int64 \<Rightarrow> generator \<Rightarrow> unit result \<times> generator" where
  "SetNodeID n g =
     (if sint n < 0 \<or> sint n > sint maxNodeID
      then (Inl (Err ''node ID must be between 0 and 1023''), g)
      else (Inr (), g\<lparr>nodeID := n\<rparr>))"

section \<open>Generate, as a function of the clock readings\<close>

text \<open>\<open>time.Now().UnixNano() / 1000000\<close>: Go's division truncates.\<close>

definition millis :: "int64 \<Rightarrow> int64" where
  "millis ns = word_of_int (sint ns sdiv 1000000)"

text \<open>The loop that waits while the clock is behind the last timestamp.\<close>

fun waitClock :: "generator \<Rightarrow> int64 \<Rightarrow> int64 list \<Rightarrow> (int64 \<times> int64 list) option" where
  "waitClock g now rs =
     (if sint now < sint (lastTime g)
      then (case rs of [] \<Rightarrow> None | r # rs' \<Rightarrow> waitClock g (millis r) rs')
      else Some (now, rs))"

declare waitClock.simps [simp del]

text \<open>The loop that waits for the next millisecond once the sequence has wrapped.\<close>

fun waitNextMillisLocked :: "generator \<Rightarrow> int64 list \<Rightarrow> (int64 \<times> int64 list) option" where
  "waitNextMillisLocked g [] = None"
| "waitNextMillisLocked g (r # rs) =
     (if sint (millis r) > sint (lastTime g) then Some (millis r, rs)
      else waitNextMillisLocked g rs)"

definition make_id :: "generator \<Rightarrow> int64 \<Rightarrow> int64" where
  "make_id g now =
     (push_bit timestampShift (now - epoch)) OR (push_bit nodeIDShift (nodeID g)) OR sequence g"

text \<open>
  \<open>Generate\<close> consumes the clock readings \<open>rs\<close> and returns the id, the generator and the
  readings left over; \<^const>\<open>None\<close> means that it is still waiting when the readings end.
\<close>

definition Generate ::
  "generator \<Rightarrow> int64 list \<Rightarrow> (int64 \<times> generator \<times> int64 list) option" where
  "Generate g rs =
     (case rs of [] \<Rightarrow> None
      | r # rs1 \<Rightarrow>
        (case waitClock g (millis r) rs1 of None \<Rightarrow> None
         | Some (now, rs2) \<Rightarrow>
           if now = lastTime g then
             (let g1 = g\<lparr>sequence := (sequence g + 1) AND sequenceMask\<rparr> in
              if sequence g1 = 0 then
                (case waitNextMillisLocked g1 rs2 of None \<Rightarrow> None
                 | Some (now', rs3) \<Rightarrow> Some (make_id g1 now', g1\<lparr>lastTime := now'\<rparr>, rs3))
              else Some (make_id g1 now, g1\<lparr>lastTime := now\<rparr>, rs2))
           else
             (let g1 = g\<lparr>sequence := 0\<rparr> in
              Some (make_id g1 now, g1\<lparr>lastTime := now\<rparr>, rs2))))"

definition String_id :: "generator \<Rightarrow> int64 list \<Rightarrow> (string \<times> generator \<times> int64 list) option" where
  "String_id g rs = (case Generate g rs of None \<Rightarrow> None
                  | Some (i, g', rs') \<Rightarrow> Some (FormatInt10 (sint i), g', rs'))"

text \<open>\<open>n\<close> calls one after the other.\<close>

fun generate_many ::
  "nat \<Rightarrow> generator \<Rightarrow> int64 list \<Rightarrow> (int64 list \<times> generator \<times> int64 list) option" where
  "generate_many 0 g rs = Some ([], g, rs)"
| "generate_many (Suc n) g rs =
     (case Generate g rs of None \<Rightarrow> None
      | Some (i, g', rs') \<Rightarrow>
        (case generate_many n g' rs' of None \<Rightarrow> None
         | Some (is, g'', rs'') \<Rightarrow> Some (i # is, g'', rs'')))"

section \<open>The layout of an id\<close>

lemma sequenceMask_eq: "sequenceMask = mask 12"
  by (simp add: sequenceMask_def mask_eq_exp_minus_1 push_bit_eq_mult)

lemma maxNodeID_eq: "maxNodeID = 1023"
  by (simp add: maxNodeID_def push_bit_eq_mult)

lemma sequenceMask_num: "sequenceMask = 4095"
  by (simp add: sequenceMask_eq mask_eq_exp_minus_1)

text \<open>The generator invariant and the clock range in which 41 bits hold the timestamp.\<close>

definition gen_ok :: "generator \<Rightarrow> bool" where
  "gen_ok g \<longleftrightarrow> 0 \<le> sint (nodeID g) \<and> sint (nodeID g) < 1024 \<and>
     0 \<le> sint (sequence g) \<and> sint (sequence g) < 4096"

definition in_epoch :: "int64 \<Rightarrow> bool" where
  "in_epoch now \<longleftrightarrow> sint epoch \<le> sint now \<and> sint now < sint epoch + 2 ^ 41"

lemma sint_epoch: "sint epoch = 1609459200000"
  by (simp add: epoch_def)

lemma nat_or_add:
  fixes a b c :: nat
  assumes "b < 1024" "c < 4096"
  shows "(push_bit 22 a) OR (push_bit 12 b) OR c = a * 2 ^ 22 + b * 2 ^ 12 + c"
proof -
  have c: "take_bit 12 c = c" using assms by (simp add: take_bit_nat_eq_self)
  have b: "take_bit 10 b = b" using assms by (simp add: take_bit_nat_eq_self)
  have cb: "bit c i \<Longrightarrow> i < 12" for i by (metis bit_take_bit_iff c)
  have bb: "bit b i \<Longrightarrow> i < 10" for i by (metis bit_take_bit_iff b)
  have 1: "(push_bit 12 b) AND c = 0"
    by (rule bit_eqI) (auto simp: bit_simps dest: cb)
  have 2: "push_bit 22 a AND ((push_bit 12 b) OR c) = 0"
  proof (rule bit_eqI)
    fix n show "bit (push_bit 22 a AND ((push_bit 12 b) OR c)) n = bit (0::nat) n"
      using cb [of n] bb [of "n - 12"] by (auto simp: bit_simps)
  qed
  have "(push_bit 22 a) OR (push_bit 12 b) OR c = push_bit 22 a + (push_bit 12 b + c)"
    using 1 2 by (simp add: disjunctive_add_eq_or or.assoc)
  then show ?thesis by (simp add: push_bit_eq_mult)
qed

lemma sint_of_uint:
  "sint (w::int64) = (if uint w < 2 ^ 63 then uint w else uint w - 2 ^ 64)"
proof -
  have eq: "sint w = (uint w + 2 ^ 63) mod 2 ^ 64 - 2 ^ 63"
    by (simp add: sint_uint signed_take_bit_eq_take_bit_shift take_bit_eq_mod)
  have b: "uint w < 2 ^ 64" "0 \<le> uint w" using uint_bounded [of w] by auto
  show ?thesis
  proof (cases "uint w < 2 ^ 63")
    case True
    then have "(uint w + 2 ^ 63) mod 2 ^ 64 = uint w + 2 ^ 63"
      using b by (intro mod_pos_pos_trivial) auto
    then show ?thesis using eq True by simp
  next
    case False
    have "(uint w + 2 ^ 63) mod 2 ^ 64 = (uint w - 2 ^ 63 + 1 * 2 ^ 64) mod 2 ^ 64"
      by (rule arg_cong [where f = "\<lambda>x. x mod 2 ^ 64"]) simp
    also have "\<dots> = (uint w - 2 ^ 63) mod 2 ^ 64" by (rule mod_mult_self1)
    also have "\<dots> = uint w - 2 ^ 63"
      using b False by (intro mod_pos_pos_trivial) auto
    finally show ?thesis using eq False by simp
  qed
qed

lemma sint_nonneg_uint: "0 \<le> sint (w::int64) \<Longrightarrow> sint w = uint w"
  using uint_bounded [of w] by (auto simp: sint_of_uint split: if_splits)

lemma uint_small_sint: "uint (w::int64) < 2 ^ 63 \<Longrightarrow> sint w = uint w"
  by (simp add: sint_of_uint)

lemma uint_epoch: "uint epoch = 1609459200000" by (simp add: epoch_def)

lemma uint_since_epoch:
  assumes "in_epoch now" shows "uint (now - epoch) = sint now - sint epoch"
proof -
  have s: "sint now = uint now" using assms by (intro sint_nonneg_uint) (simp add: in_epoch_def sint_epoch)
  have "uint (now - epoch) = (uint now - uint epoch) mod 2 ^ 64"
    by (simp add: uint_word_ariths)
  also have "\<dots> = uint now - uint epoch"
    using assms s by (intro mod_pos_pos_trivial) (auto simp: in_epoch_def sint_epoch uint_epoch)
  finally show ?thesis using s by (simp add: sint_epoch uint_epoch)
qed

text \<open>The arithmetic reading of an id: the three bit fields do not overlap.\<close>

definition id_fields :: "int \<Rightarrow> int \<Rightarrow> int \<Rightarrow> int" where
  "id_fields t n s = t * 2 ^ 22 + n * 2 ^ 12 + s"

lemma sint_make_id:
  assumes "gen_ok g" "in_epoch now"
  shows "sint (make_id g now) = id_fields (sint now - sint epoch) (sint (nodeID g)) (sint (sequence g))"
proof -
  let ?t = "unat (now - epoch)" and ?n = "unat (nodeID g)" and ?s = "unat (sequence g)"
  have g: "sint (nodeID g) = uint (nodeID g)" "sint (sequence g) = uint (sequence g)"
    using assms(1) unfolding gen_ok_def by (blast intro: sint_nonneg_uint)+
  have "int ?n < 1024" "int ?s < 4096"
    using assms(1) g unfolding gen_ok_def by simp_all
  then have n: "?n < 1024" and s: "?s < 4096" by linarith+
  have t: "int ?t = sint now - sint epoch"
    using uint_since_epoch [OF assms(2)] by simp
  have "int ?t < 2199023255552" using t assms(2) by (simp add: in_epoch_def)
  then have tb: "?t < 2199023255552" by linarith
  have "unat (make_id g now) = (take_bit 64 (push_bit 22 ?t)) OR (take_bit 64 (push_bit 12 ?n)) OR ?s"
    by (simp add: make_id_def unsigned_or_eq unsigned_push_bit_eq)
  also have "take_bit 64 (push_bit 22 ?t) = push_bit 22 ?t"
    using tb by (intro take_bit_nat_eq_self) (simp add: push_bit_eq_mult)
  also have "take_bit 64 (push_bit 12 ?n) = push_bit 12 ?n"
    using n by (intro take_bit_nat_eq_self) (simp add: push_bit_eq_mult)
  finally have u: "unat (make_id g now) = ?t * 2 ^ 22 + ?n * 2 ^ 12 + ?s"
    using nat_or_add [OF n s] by simp
  then have "unat (make_id g now) < 9223372036854775808" using tb n s by simp
  then have "int (unat (make_id g now)) < 9223372036854775808" by linarith
  then have "sint (make_id g now) = int (unat (make_id g now))"
    by (simp add: uint_small_sint)
  also have "\<dots> = id_fields (int ?t) (int ?n) (int ?s)"
    by (simp only: u id_fields_def of_nat_add of_nat_mult of_nat_power of_nat_numeral)
  finally show ?thesis using t g by simp
qed

section \<open>One call\<close>

lemma waitClock_SomeD:
  "waitClock g now rs = Some (now', rs') \<Longrightarrow>
   sint (lastTime g) \<le> sint now' \<and> now' \<in> insert now (millis ` set rs) \<and> set rs' \<subseteq> set rs"
proof (induction g now rs rule: waitClock.induct)
  case (1 g now rs)
  then show ?case
    by (subst (asm) (2) waitClock.simps) (auto split: if_splits list.splits)
qed

lemma waitNext_SomeD:
  "waitNextMillisLocked g rs = Some (now', rs') \<Longrightarrow>
   sint (lastTime g) < sint now' \<and> now' \<in> millis ` set rs \<and> set rs' \<subseteq> set rs"
  by (induction g rs rule: waitNextMillisLocked.induct) (auto split: if_splits)

lemma next_sequence:
  assumes "gen_ok g"
  shows "sint ((sequence g + 1) AND sequenceMask) = (sint (sequence g) + 1) mod 4096"
proof -
  have s: "sint (sequence g) = uint (sequence g)"
    using assms unfolding gen_ok_def by (blast intro: sint_nonneg_uint)
  have "uint ((sequence g + 1) AND sequenceMask) = take_bit 12 (uint (sequence g + 1))"
    by (simp add: sequenceMask_eq take_bit_eq_mask [symmetric] unsigned_take_bit_eq)
  also have "\<dots> = (uint (sequence g) + 1) mod 4096"
    by (simp add: uint_word_ariths take_bit_eq_mod mod_mod_cancel)
  finally have u: "uint ((sequence g + 1) AND sequenceMask) = (uint (sequence g) + 1) mod 4096" .
  then have "uint ((sequence g + 1) AND sequenceMask) < 2 ^ 63"
    using pos_mod_bound [of 4096 "uint (sequence g) + 1"] by simp
  then show ?thesis using u s by (simp add: uint_small_sint)
qed

text \<open>The position of a generator in its stream of (millisecond, sequence) pairs.\<close>

definition stamp :: "generator \<Rightarrow> int" where
  "stamp g = sint (lastTime g) * 4096 + sint (sequence g)"

definition clock_ok :: "int64 list \<Rightarrow> bool" where
  "clock_ok rs \<longleftrightarrow> list_all (\<lambda>r. in_epoch (millis r)) rs"

lemma clock_ok_memD: "clock_ok rs \<Longrightarrow> now \<in> millis ` set rs \<Longrightarrow> in_epoch now"
  by (auto simp: clock_ok_def list_all_iff)

text \<open>What one call does: an id made from the new state, which is further on.\<close>

definition advances :: "generator \<Rightarrow> int64 \<Rightarrow> generator \<Rightarrow> bool" where
  "advances g i g' \<longleftrightarrow> gen_ok g' \<and> nodeID g' = nodeID g \<and> in_epoch (lastTime g') \<and>
     i = make_id g' (lastTime g') \<and> stamp g < stamp g'"

lemma advances_fresh:
  assumes "gen_ok g" "in_epoch now" "sint (lastTime g) < sint now" "0 \<le> sint s" "sint s < 4096"
  shows "advances g (make_id (g\<lparr>sequence := s\<rparr>) now) (g\<lparr>sequence := s, lastTime := now\<rparr>)"
  using assms by (simp add: advances_def gen_ok_def stamp_def make_id_def)

lemma advances_same:
  assumes "gen_ok g" "in_epoch (lastTime g)" "(sequence g + 1) AND sequenceMask \<noteq> 0"
  shows "advances g (make_id (g\<lparr>sequence := (sequence g + 1) AND sequenceMask\<rparr>) (lastTime g))
           (g\<lparr>sequence := (sequence g + 1) AND sequenceMask\<rparr>)"
proof -
  have n: "sint ((sequence g + 1) AND sequenceMask) = (sint (sequence g) + 1) mod 4096"
    by (rule next_sequence [OF assms(1)])
  have "sint (sequence g) + 1 \<noteq> 4096"
  proof
    assume "sint (sequence g) + 1 = 4096"
    then have "sint ((sequence g + 1) AND sequenceMask) = 0" using n by simp
    then show False using assms(3) by (metis sint_0 signed_word_eqI)
  qed
  then have "(sint (sequence g) + 1) mod 4096 = sint (sequence g) + 1"
    using assms(1) unfolding gen_ok_def by (intro mod_pos_pos_trivial) auto
  then show ?thesis
    using assms(1,2) n by (simp add: advances_def gen_ok_def stamp_def make_id_def)
qed

lemma Generate_advances:
  assumes "gen_ok g" "clock_ok rs" "Generate g rs = Some (i, g', rs')"
  shows "advances g i g' \<and> set rs' \<subseteq> set rs"
proof -
  obtain r rs1 now rs2 where rs: "rs = r # rs1" and w: "waitClock g (millis r) rs1 = Some (now, rs2)"
    using assms(3) by (auto simp: Generate_def split: list.splits option.splits)
  from waitClock_SomeD [OF w] rs have now: "sint (lastTime g) \<le> sint now" "now \<in> millis ` set rs"
    and sub: "set rs2 \<subseteq> set rs" by auto
  have ep: "in_epoch now" using clock_ok_memD [OF assms(2) now(2)] .
  let ?s = "(sequence g + 1) AND sequenceMask"
  show ?thesis
  proof (cases "now = lastTime g")
    case False
    then have "sint (lastTime g) < sint now"
      using now(1) by (metis order_le_less signed_word_eqI)
    then have "advances g (make_id (g\<lparr>sequence := 0\<rparr>) now) (g\<lparr>sequence := 0, lastTime := now\<rparr>)"
      by (intro advances_fresh assms(1) ep) auto
    then show ?thesis using assms(3) rs w False sub by (auto simp: Generate_def Let_def)
  next
    case True
    show ?thesis
    proof (cases "?s = 0")
      case False
      then have "advances g (make_id (g\<lparr>sequence := ?s\<rparr>) now) (g\<lparr>sequence := ?s, lastTime := now\<rparr>)"
        using advances_same [OF assms(1) _ False] ep True by simp
      then show ?thesis using assms(3) rs w False True sub by (auto simp: Generate_def Let_def)
    next
      case s0: True
      then obtain now' where w': "waitNextMillisLocked (g\<lparr>sequence := 0\<rparr>) rs2 = Some (now', rs')"
        and i: "i = make_id (g\<lparr>sequence := 0\<rparr>) now'" "g' = g\<lparr>sequence := 0, lastTime := now'\<rparr>"
        using assms(3) rs w True by (auto simp: Generate_def Let_def split: option.splits)
      from waitNext_SomeD [OF w'] have n': "sint (lastTime g) < sint now'" "now' \<in> millis ` set rs2"
        and sub': "set rs' \<subseteq> set rs2" by auto
      then have "in_epoch now'" using clock_ok_memD [OF assms(2)] sub by auto
      then have "advances g (make_id (g\<lparr>sequence := 0\<rparr>) now') (g\<lparr>sequence := 0, lastTime := now'\<rparr>)"
        using n'(1) by (intro advances_fresh assms(1)) auto
      then show ?thesis using i sub sub' by auto
    qed
  qed
qed


section \<open>Many calls\<close>

lemma id_fields_mono:
  assumes "t * 4096 + s < t' * 4096 + s'" "0 \<le> s" "s < 4096" "0 \<le> s'" "s' < 4096" "0 \<le> n" "n < 1024"
  shows "id_fields t n s < id_fields t' n s'"
proof (cases "t = t'")
  case True
  then show ?thesis using assms by (simp add: id_fields_def)
next
  case False
  with assms have "t + 1 \<le> t'" by linarith
  then show ?thesis using assms by (simp add: id_fields_def)
qed

lemma stamp_less_id_less:
  assumes "gen_ok g" "gen_ok h" "nodeID g = nodeID h" "in_epoch (lastTime g)" "in_epoch (lastTime h)"
    "stamp g < stamp h"
  shows "sint (make_id g (lastTime g)) < sint (make_id h (lastTime h))"
  using assms id_fields_mono [of "sint (lastTime g) - sint epoch" "sint (sequence g)"
      "sint (lastTime h) - sint epoch" "sint (sequence h)" "sint (nodeID h)"]
  by (simp add: sint_make_id gen_ok_def stamp_def)

text \<open>Every id of a run is made from a state further on than the one the run started in.\<close>

lemma generate_many_sorted_aux:
  assumes "gen_ok g" "clock_ok rs" "generate_many n g rs = Some (is, g', rs')"
  shows "sorted_wrt (\<lambda>i j. sint i < sint j) is \<and>
    (\<forall>i \<in> set is. \<exists>h. gen_ok h \<and> nodeID h = nodeID g \<and> in_epoch (lastTime h) \<and>
        i = make_id h (lastTime h) \<and> stamp g < stamp h)"
  using assms
proof (induction n arbitrary: g rs "is")
  case 0
  then show ?case by simp
next
  case (Suc n)
  obtain i g1 rs1 js where G: "Generate g rs = Some (i, g1, rs1)" and js: "is = i # js"
    and M: "generate_many n g1 rs1 = Some (js, g', rs')"
    using Suc.prems(3) by (auto split: option.splits)
  from Generate_advances [OF Suc.prems(1,2) G] have adv: "advances g i g1" and sub: "set rs1 \<subseteq> set rs"
    by auto
  have "clock_ok rs1" using Suc.prems(2) sub by (auto simp: clock_ok_def list_all_iff)
  with adv Suc.IH [OF _ _ M] have IH: "sorted_wrt (\<lambda>i j. sint i < sint j) js"
    "\<forall>j \<in> set js. \<exists>h. gen_ok h \<and> nodeID h = nodeID g1 \<and> in_epoch (lastTime h) \<and>
        j = make_id h (lastTime h) \<and> stamp g1 < stamp h"
    by (auto simp: advances_def)
  have "\<forall>j \<in> set js. sint i < sint j"
    using IH(2) adv stamp_less_id_less unfolding advances_def by metis
  moreover have "\<forall>j \<in> set js. \<exists>h. gen_ok h \<and> nodeID h = nodeID g \<and> in_epoch (lastTime h) \<and>
        j = make_id h (lastTime h) \<and> stamp g < stamp h"
    using IH(2) adv unfolding advances_def by (metis order.strict_trans)
  ultimately show ?case using IH(1) adv js unfolding advances_def by auto
qed

text \<open>
  C26. The ids of calls that come one after another never repeat and never go back: whatever the clock does (it
  may stand still or jump backwards), the ids that one generator hands out to such calls are strictly
  increasing, as long as the clock stays within the 41 bits that the layout gives it. Calls that overlap are the
  subject of \<open>Snowflake_Concurrent\<close>: there the mutex is released while a call waits, and an id can be repeated.
\<close>

theorem generate_many_increasing:
  assumes "gen_ok g" "clock_ok rs" "generate_many n g rs = Some (is, g', rs')"
  shows "sorted_wrt (\<lambda>i j. sint i < sint j) is"
  using generate_many_sorted_aux [OF assms] by blast

section \<open>Two nodes\<close>

text \<open>The three fields can be read back from an id.\<close>

lemma id_fields_decode:
  assumes "0 \<le> s" "s < 4096" "0 \<le> n" "n < 1024"
  shows "id_fields t n s mod 4096 = s"
    and "id_fields t n s div 4096 mod 1024 = n"
    and "id_fields t n s div 4194304 = t"
proof -
  have e: "id_fields t n s = s + (n + t * 1024) * 4096" by (simp add: id_fields_def)
  show "id_fields t n s mod 4096 = s"
    unfolding e mod_mult_self1 using assms by (simp add: mod_pos_pos_trivial)
  have "id_fields t n s div 4096 = (n + t * 1024) + s div 4096"
    unfolding e by (rule div_mult_self1) simp
  then have d: "id_fields t n s div 4096 = n + t * 1024"
    using assms by (simp add: div_pos_pos_trivial)
  show "id_fields t n s div 4096 mod 1024 = n"
    unfolding d mod_mult_self1 using assms by (simp add: mod_pos_pos_trivial)
  have "id_fields t n s div 4194304 = id_fields t n s div 4096 div 1024"
    by (simp flip: zdiv_zmult2_eq)
  also have "\<dots> = t + n div 1024"
    unfolding d by (rule div_mult_self1) simp
  finally show "id_fields t n s div 4194304 = t"
    using assms by (simp add: div_pos_pos_trivial)
qed

lemma make_id_decode:
  assumes "gen_ok g" "in_epoch now"
  shows "sint (make_id g now) mod 4096 = sint (sequence g)"
    and "sint (make_id g now) div 4096 mod 1024 = sint (nodeID g)"
    and "sint (make_id g now) div 4194304 + sint epoch = sint now"
  using assms id_fields_decode [of "sint (sequence g)" "sint (nodeID g)" "sint now - sint epoch"]
  by (simp_all add: sint_make_id gen_ok_def)

text \<open>
  C39. Ids carry their origin: the timestamp, the node number and the sequence number are read back
  exactly from the bit fields, so two generators that run under different node numbers (two pods)
  never produce the same id, whatever their clocks and sequences are.
\<close>

theorem make_id_roundtrip:
  assumes "gen_ok g" "in_epoch now"
  shows "sint (make_id g now) mod 4096 = sint (sequence g) \<and>
    sint (make_id g now) div 4096 mod 1024 = sint (nodeID g) \<and>
    sint (make_id g now) div 4194304 + sint epoch = sint now \<and>
    (\<forall>h now'. gen_ok h \<longrightarrow> in_epoch now' \<longrightarrow> nodeID g \<noteq> nodeID h \<longrightarrow>
       make_id g now \<noteq> make_id h now')"
  using make_id_decode [OF assms] make_id_decode(2) by (metis signed_word_eqI)

section \<open>Waiting ends\<close>

lemma waitNext_returns:
  "r \<in> set rs \<Longrightarrow> sint (lastTime g) < sint (millis r) \<Longrightarrow> waitNextMillisLocked g rs \<noteq> None"
  by (induction rs) auto

lemma waitClock_returns:
  "r \<in> set rs \<Longrightarrow> sint (lastTime g) < sint (millis r) \<Longrightarrow>
   \<exists>now' rs'. waitClock g now rs = Some (now', rs') \<and> (sint (lastTime g) < sint now' \<or> r \<in> set rs')"
proof (induction rs arbitrary: now)
  case Nil
  then show ?case by simp
next
  case (Cons x rs)
  show ?case
  proof (cases "sint now < sint (lastTime g)")
    case False
    then show ?thesis using Cons.prems by (simp add: waitClock.simps [of g now])
  next
    case behind: True
    show ?thesis
    proof (cases "x = r")
      case True
      then show ?thesis
        using behind Cons.prems(2) by (simp add: waitClock.simps [of g now] waitClock.simps [of g "millis r"])
    next
      case False
      then show ?thesis
        using behind Cons by (simp add: waitClock.simps [of g now])
    qed
  qed
qed

lemma Generate_returns_aux:
  assumes "r \<in> set rs" "sint (lastTime g) < sint (millis r)"
  shows "\<exists>i g' rs'. Generate g rs = Some (i, g', rs')"
proof -
  obtain r0 rs1 where rs: "rs = r0 # rs1" using assms(1) by (cases rs) auto
  have "\<exists>now rs2. waitClock g (millis r0) rs1 = Some (now, rs2) \<and>
      (sint (lastTime g) < sint now \<or> r \<in> set rs2)"
  proof (cases "r0 = r")
    case True
    then show ?thesis using assms(2) by (simp add: waitClock.simps)
  next
    case False
    then show ?thesis using waitClock_returns assms rs by auto
  qed
  then obtain now rs2 where w: "waitClock g (millis r0) rs1 = Some (now, rs2)"
    and n: "sint (lastTime g) < sint now \<or> r \<in> set rs2" by blast
  show ?thesis
  proof (cases "now = lastTime g")
    case False
    then show ?thesis using rs w by (simp add: Generate_def Let_def)
  next
    case True
    then have "r \<in> set rs2" using n by simp
    then have "waitNextMillisLocked (g\<lparr>sequence := 0\<rparr>) rs2 \<noteq> None"
      using assms(2) by (intro waitNext_returns) auto
    then show ?thesis using rs w True by (auto simp: Generate_def Let_def)
  qed
qed

text \<open>
  C40. \<open>Generate\<close> returns: as soon as the clock shows, in any of its readings, a millisecond later
  than the last one used, both waiting loops end and an id comes out.
\<close>

theorem Generate_returns:
  assumes "r \<in> set rs" "sint (lastTime g) < sint (millis r)"
  shows "\<exists>i g' rs'. Generate g rs = Some (i, g', rs')"
  using assms by (rule Generate_returns_aux)

section \<open>Concrete runs\<close>

text \<open>Nanosecond readings of 2024-01-01 and the millisecond after it.\<close>

abbreviation t0 :: int64 where "t0 \<equiv> 1704067200000000000"
abbreviation t1 :: int64 where "t1 \<equiv> 1704067200001000000"

abbreviation node1 :: generator where
  "node1 \<equiv> \<lparr>nodeID = 1, sequence = 0, lastTime = 0\<rparr>"

lemma millis_t0 [simp]: "millis t0 = 1704067200000" and millis_t1 [simp]: "millis t1 = 1704067200001"
  by (simp_all add: millis_def)

lemma clock_ok_example: "clock_ok [t0, t0, t1, t0, t1]"
  by (simp add: clock_ok_def in_epoch_def sint_epoch)

lemma New_1: "New 1 = Some node1"
  by (simp add: New_def maxNodeID_eq)

theorem generate_many_increasing_witness:
  "\<exists>i j k g' rs'. generate_many 3 node1 [t0, t0, t1, t0, t1] = Some ([i, j, k], g', rs') \<and>
     sint i < sint j \<and> sint j < sint k"
proof -
  have ok: "gen_ok node1" by (simp add: gen_ok_def)
  have run: "\<exists>i j k g' rs'. generate_many 3 node1 [t0, t0, t1, t0, t1] = Some ([i, j, k], g', rs')"
    by (simp add: numeral_3_eq_3 Generate_def waitClock.simps Let_def sequenceMask_num)
  then obtain i j k g' rs' where
    r: "generate_many 3 node1 [t0, t0, t1, t0, t1] = Some ([i, j, k], g', rs')" by blast
  from generate_many_increasing [OF ok clock_ok_example r] r show ?thesis by auto
qed

theorem make_id_roundtrip_witness:
  "make_id node1 1704067200000 \<noteq> make_id \<lparr>nodeID = 2, sequence = 0, lastTime = 0\<rparr> 1704067200000 \<and>
   sint (make_id node1 1704067200000) div 4096 mod 1024 = 1"
proof -
  have ok: "gen_ok node1" "gen_ok \<lparr>nodeID = 2, sequence = 0, lastTime = 0\<rparr>" by (simp_all add: gen_ok_def)
  have ep: "in_epoch 1704067200000" by (simp add: in_epoch_def sint_epoch)
  from make_id_roundtrip [OF ok(1) ep] ok(2) ep show ?thesis by simp
qed

theorem Generate_returns_witness:
  "\<exists>i g' rs'. Generate \<lparr>nodeID = 1, sequence = 4095, lastTime = 1704067200000\<rparr> [t0, t0, t1] = Some (i, g', rs')"
  by (rule Generate_returns [of t1]) simp_all

end
