(* ===== verification/Snowflake_Concurrent.thy ===== *)
theory Snowflake_Concurrent
  imports Snowflake
begin

text \<open>
  \<open>Generate\<close> under concurrency. Its mutex is released inside the two waiting loops
  (\<open>g.mu.Unlock(); time.Sleep(...); g.mu.Lock()\<close>), so one call is a sequence of critical sections
  between which other goroutines run. \<open>critical\<close> is one such section; \<open>solo\<close> runs a single
  goroutine to its end; \<open>gstep\<close> interleaves any number of them over a clock that never goes back.
\<close>

unbundle bit_operations_syntax

section \<open>Critical sections\<close>

text \<open>Where a goroutine is while it does not hold the lock.\<close>

datatype gpc = Idle | Behind | Exhausted

text \<open>
  One tenure of the lock, with the clock readings it makes: the id if the call ends here, the next
  resting place, the generator and the readings left. A wrapped sequence makes a second reading
  before the lock is released.
\<close>

fun critical ::
  "gpc \<Rightarrow> generator \<Rightarrow> int64 list \<Rightarrow> (int64 option \<times> gpc \<times> generator \<times> int64 list) option" where
  "critical pc g [] = None"
| "critical Exhausted g (r # rs) =
     (let now = millis r in
      if sint now > sint (lastTime g)
      then Some (Some (make_id g now), Idle, g\<lparr>lastTime := now\<rparr>, rs)
      else Some (None, Exhausted, g, rs))"
| "critical pc g (r # rs) =
     (let now = millis r in
      if sint now < sint (lastTime g) then Some (None, Behind, g, rs)
      else if now = lastTime g then
        (let g1 = g\<lparr>sequence := (sequence g + 1) AND sequenceMask\<rparr> in
         if sequence g1 = 0 then critical Exhausted g1 rs
         else Some (Some (make_id g1 now), Idle, g1\<lparr>lastTime := now\<rparr>, rs))
      else
        (let g1 = g\<lparr>sequence := 0\<rparr> in
         Some (Some (make_id g1 now), Idle, g1\<lparr>lastTime := now\<rparr>, rs)))"

lemma critical_Exhausted_shorter:
  "critical Exhausted g rs = Some (out, pc', g', rs') \<Longrightarrow> length rs' < length rs"
  by (cases rs) (auto simp: Let_def split: if_splits)

lemma critical_shorter:
  "critical pc g rs = Some (out, pc', g', rs') \<Longrightarrow> length rs' < length rs"
  by (cases pc; cases rs)
     (auto simp: Let_def split: if_splits dest: critical_Exhausted_shorter)

function solo :: "gpc \<Rightarrow> generator \<Rightarrow> int64 list \<Rightarrow> (int64 \<times> generator \<times> int64 list) option" where
  "solo pc g rs =
     (case critical pc g rs of
        None \<Rightarrow> None
      | Some (Some i, pc', g', rs') \<Rightarrow> Some (i, g', rs')
      | Some (None, pc', g', rs') \<Rightarrow> solo pc' g' rs')"
  by pat_completeness auto
termination
  by (relation "measure (\<lambda>(pc, g, rs). length rs)") (auto dest: critical_shorter)

declare solo.simps [simp del]

lemma solo_Exhausted:
  "solo Exhausted g rs =
     (case waitNextMillisLocked g rs of None \<Rightarrow> None
      | Some (now, rs') \<Rightarrow> Some (make_id g now, g\<lparr>lastTime := now\<rparr>, rs'))"
  by (induction rs) (simp_all add: solo.simps [of Exhausted] Let_def)

text \<open>The part of \<open>Generate\<close> after the first waiting loop.\<close>

definition stamp_id :: "generator \<Rightarrow> int64 \<Rightarrow> int64 list \<Rightarrow> (int64 \<times> generator \<times> int64 list) option" where
  "stamp_id g now rs =
     (if now = lastTime g then
        (let g1 = g\<lparr>sequence := (sequence g + 1) AND sequenceMask\<rparr> in
         if sequence g1 = 0 then
           (case waitNextMillisLocked g1 rs of None \<Rightarrow> None
            | Some (now', rs3) \<Rightarrow> Some (make_id g1 now', g1\<lparr>lastTime := now'\<rparr>, rs3))
         else Some (make_id g1 now, g1\<lparr>lastTime := now\<rparr>, rs))
      else
        (let g1 = g\<lparr>sequence := 0\<rparr> in
         Some (make_id g1 now, g1\<lparr>lastTime := now\<rparr>, rs)))"

lemma Generate_stamp_id:
  "Generate g (r # rs) =
     (case waitClock g (millis r) rs of None \<Rightarrow> None | Some (now, rs2) \<Rightarrow> stamp_id g now rs2)"
  by (auto simp: Generate_def stamp_id_def split: option.split)


lemma solo_late:
  assumes "pc \<noteq> Exhausted" "\<not> sint (millis r) < sint (lastTime g)"
  shows "solo pc g (r # rs) = stamp_id g (millis r) rs"
proof (cases "millis r = lastTime g \<and> (sequence g + 1) AND sequenceMask = 0")
  case True
  have "solo pc g (r # rs) = solo Exhausted (g\<lparr>sequence := 0\<rparr>) rs"
    using assms True
    by (cases pc) (simp_all add: solo.simps [of Idle] solo.simps [of Behind] solo.simps [of Exhausted] Let_def)
  then show ?thesis using True by (simp add: stamp_id_def solo_Exhausted Let_def)
next
  case False
  then show ?thesis
    using assms by (cases pc) (auto simp: solo.simps [of Idle] solo.simps [of Behind] stamp_id_def Let_def)
qed

lemma solo_Behind:
  "pc \<noteq> Exhausted \<Longrightarrow> solo pc g (r # rs) =
     (case waitClock g (millis r) rs of None \<Rightarrow> None | Some (now, rs2) \<Rightarrow> stamp_id g now rs2)"
proof (induction rs arbitrary: pc r)
  case Nil
  show ?case
  proof (cases "sint (millis r) < sint (lastTime g)")
    case True
    then show ?thesis using Nil
      by (cases pc) (simp_all add: solo.simps [of Idle] solo.simps [of Behind] waitClock.simps Let_def)
  next
    case False
    then show ?thesis using Nil solo_late by (simp add: waitClock.simps)
  qed
next
  case (Cons x rs)
  show ?case
  proof (cases "sint (millis r) < sint (lastTime g)")
    case True
    then have "solo pc g (r # x # rs) = solo Behind g (x # rs)"
      using Cons.prems by (cases pc) (simp_all add: solo.simps [of Idle] solo.simps [of Behind] Let_def)
    then show ?thesis
      using True Cons.IH [of Behind x] by (simp add: waitClock.simps [of g "millis r"])
  next
    case False
    then show ?thesis using Cons.prems solo_late by (simp add: waitClock.simps [of g "millis r"])
  qed
qed

text \<open>
  The step model is the code: a goroutine that nobody interrupts runs through its critical
  sections exactly as the sequential function \<open>Generate\<close> says, reading for reading.
\<close>

theorem solo_Generate: "solo Idle g rs = Generate g rs"
proof (cases rs)
  case Nil
  then show ?thesis by (simp add: solo.simps Generate_def)
next
  case (Cons r rs')
  then show ?thesis by (simp add: solo_Behind Generate_stamp_id)
qed

section \<open>Interleaved goroutines\<close>

record gsys =
  gen :: generator
  pcs :: "nat \<Rightarrow> gpc"
  wall :: int64
  issued :: "int64 list"

definition tenure :: "gsys \<Rightarrow> nat \<Rightarrow> int64 option \<Rightarrow> gpc \<Rightarrow> generator \<Rightarrow> int64 list \<Rightarrow> gsys" where
  "tenure s i out pc' g' rs =
     s\<lparr>gen := g', pcs := (pcs s)(i := pc'), wall := last (wall s # rs),
       issued := (case out of None \<Rightarrow> issued s | Some x \<Rightarrow> x # issued s)\<rparr>"

text \<open>
  Goroutine \<open>i\<close> holds the lock for one critical section. Its clock readings continue the system
  clock, which never goes back; ids are collected with the latest first.
\<close>

inductive gstep :: "gsys \<Rightarrow> gsys \<Rightarrow> bool" where
  hold: "critical (pcs s i) (gen s) rs = Some (out, pc', g', []) \<Longrightarrow>
     sorted (map sint (wall s # rs)) \<Longrightarrow> clock_ok rs \<Longrightarrow>
     gstep s (tenure s i out pc' g' rs)"

definition ginit :: "generator \<Rightarrow> gsys" where
  "ginit g = \<lparr>gen = g, pcs = (\<lambda>_. Idle), wall = 0, issued = []\<rparr>"

inductive greach :: "generator \<Rightarrow> gsys \<Rightarrow> bool" for g where
  start: "greach g (ginit g)"
| step: "greach g s \<Longrightarrow> gstep s t \<Longrightarrow> greach g t"

text \<open>The runs in which no goroutine ever gives up the lock with an exhausted sequence.\<close>

inductive calm :: "generator \<Rightarrow> gsys \<Rightarrow> bool" for g where
  calm_start: "calm g (ginit g)"
| calm_step: "calm g s \<Longrightarrow> gstep s t \<Longrightarrow> (\<And>i. pcs t i \<noteq> Exhausted) \<Longrightarrow> calm g t"

inductive_cases gstepE: "gstep s t"

lemma critical_advances:
  assumes "gen_ok g" "clock_ok rs" "pc \<noteq> Exhausted"
    "critical pc g rs = Some (out, pc', g', rs')" "pc' \<noteq> Exhausted"
  shows "(out = None \<and> g' = g) \<or> (\<exists>i. out = Some i \<and> advances g i g')"
proof -
  obtain r rs1 where rs: "rs = r # rs1" using assms(4) by (cases rs) auto
  show ?thesis
  proof (cases out)
    case None
    have "g' = g"
      using assms(3,4,5) rs None
      by (cases pc; cases rs1) (auto simp: Let_def split: if_splits)
    then show ?thesis using None by simp
  next
    case (Some i)
    have "solo pc g rs = Some (i, g', rs')"
      using assms(4) Some by (simp add: solo.simps [of pc])
    then have "Generate g rs = Some (i, g', rs')"
      using assms(3) rs by (simp add: solo_Behind Generate_stamp_id)
    then show ?thesis using Generate_advances assms(1,2) Some by blast
  qed
qed

text \<open>In a calm state every issued id is at or before the generator's position.\<close>

definition issued_inv :: "generator \<Rightarrow> gsys \<Rightarrow> bool" where
  "issued_inv g s \<longleftrightarrow> gen_ok (gen s) \<and> nodeID (gen s) = nodeID g \<and> (\<forall>i. pcs s i \<noteq> Exhausted) \<and>
     sorted_wrt (\<lambda>i j. sint j < sint i) (issued s) \<and>
     (issued s = [] \<or> in_epoch (lastTime (gen s)) \<and> hd (issued s) = make_id (gen s) (lastTime (gen s)))"

lemma gstep_issued_inv:
  assumes "issued_inv g s" "gstep s t" "\<And>i. pcs t i \<noteq> Exhausted"
  shows "issued_inv g t"
proof -
  obtain i rs out pc' g' where c: "critical (pcs s i) (gen s) rs = Some (out, pc', g', [])"
    and t: "t = tenure s i out pc' g' rs" and ok: "clock_ok rs"
    using assms(2) by (auto elim: gstepE)
  have pc': "pc' \<noteq> Exhausted" using assms(3) [of i] t by (simp add: tenure_def)
  have calm: "pcs s i \<noteq> Exhausted" "gen_ok (gen s)" using assms(1) by (auto simp: issued_inv_def)
  from critical_advances [OF calm(2) ok calm(1) c pc'] show ?thesis
  proof
    assume "out = None \<and> g' = gen s"
    then show ?thesis using assms(1,3) t by (simp add: issued_inv_def tenure_def)
  next
    assume "\<exists>x. out = Some x \<and> advances (gen s) x g'"
    then obtain x where x: "out = Some x" and adv: "advances (gen s) x g'" by blast
    have "sint y < sint x" if m: "y \<in> set (issued s)" for y
    proof -
      obtain h ys where h: "issued s = h # ys" using m by (cases "issued s") auto
      then have "sint h < sint x"
        using assms(1) adv stamp_less_id_less [of "gen s" g'] by (auto simp: issued_inv_def advances_def)
      then show ?thesis using m h assms(1) by (auto simp: issued_inv_def)
    qed
    then show ?thesis
      using assms(1,3) t x adv by (auto simp: issued_inv_def tenure_def advances_def)
  qed
qed

lemma calm_issued_inv: "calm g s \<Longrightarrow> gen_ok g \<Longrightarrow> issued_inv g s"
proof (induction rule: calm.induct)
  case calm_start
  then show ?case by (simp add: issued_inv_def ginit_def)
next
  case (calm_step s t)
  then show ?case by (blast intro: gstep_issued_inv)
qed

lemma decreasing_distinct: "sorted_wrt (\<lambda>i j. sint j < sint i) (xs :: int64 list) \<Longrightarrow> distinct xs"
  by (induction xs) auto


section \<open>The exhausted sequence\<close>

text \<open>One undisturbed call at the frozen clock \<open>t0\<close>, with \<open>n + 1\<close> ids already issued.\<close>

definition frozen :: "nat \<Rightarrow> generator" where
  "frozen n = \<lparr>nodeID = 1, sequence = of_nat n, lastTime = 1704067200000\<rparr>"

lemma frozen_next:
  assumes "n < 4095"
  shows "critical Idle (frozen n) [t0] =
    Some (Some (make_id (frozen (Suc n)) 1704067200000), Idle, frozen (Suc n), [])"
proof -
  have n: "unat (of_nat m :: int64) = m" if "m < 4096" for m :: nat
    using that by (simp add: unsigned_of_nat take_bit_nat_eq_self)
  have "unat (((of_nat n :: int64) + 1) AND 4095) = (n + 1) AND 4095"
    using assms n [of n] by (simp add: unsigned_and_eq unat_word_ariths)
  also have "\<dots> = (n + 1) mod 4096"
    using take_bit_eq_mask [of 12 "n + 1"] by (simp add: take_bit_eq_mod mask_eq_exp_minus_1)
  also have "\<dots> = Suc n" using assms by simp
  finally have u: "unat (((of_nat n :: int64) + 1) AND 4095) = Suc n" .
  then have e: "((of_nat n :: int64) + 1) AND 4095 = of_nat (Suc n)"
    using n [of "Suc n"] assms by (simp only: word_unat_eq_iff)
  moreover have "(of_nat (Suc n) :: int64) \<noteq> 0"
    using n [of "Suc n"] assms by (simp only: word_unat_eq_iff unat_0)
  ultimately show ?thesis
    by (simp add: frozen_def sequenceMask_num Let_def make_id_def)
qed

definition frozen_sys :: "nat \<Rightarrow> (nat \<Rightarrow> gpc) \<Rightarrow> int64 list \<Rightarrow> gsys" where
  "frozen_sys n p xs = \<lparr>gen = frozen n, pcs = p, wall = t0, issued = xs\<rparr>"

abbreviation dup_id :: int64 where
  "dup_id \<equiv> make_id (frozen 1) 1704067200000"

lemma clock_ok_t0: "clock_ok [t0]" "clock_ok [t0, t0]"
  by (simp_all add: clock_ok_def in_epoch_def sint_epoch)

lemma frozen_step:
  assumes "critical (p i) (frozen n) rs = Some (out, pc', frozen m, [])" "rs = [t0] \<or> rs = [t0, t0]"
  shows "gstep (frozen_sys n p xs)
     (frozen_sys m (p(i := pc')) (case out of None \<Rightarrow> xs | Some x \<Rightarrow> x # xs))"
  using hold [of "frozen_sys n p xs" i rs out pc' "frozen m"] assms clock_ok_t0
  by (cases out) (auto simp: frozen_sys_def tenure_def)

lemma frozen_start: "gstep (ginit node1) (frozen_sys 0 (\<lambda>_. Idle) [make_id (frozen 0) 1704067200000])"
  using hold [of "ginit node1" 0 "[t0]" "Some (make_id (frozen 0) 1704067200000)" Idle "frozen 0"] clock_ok_t0
  by (auto simp: ginit_def frozen_sys_def frozen_def tenure_def make_id_def Let_def fun_upd_idem)

text \<open>One goroutine fills a whole millisecond with its 4096 ids.\<close>

lemma frozen_reach:
  "n < 4096 \<Longrightarrow> \<exists>xs. greach node1 (frozen_sys n (\<lambda>_. Idle) xs) \<and> (0 < n \<longrightarrow> dup_id \<in> set xs)"
proof (induction n)
  case 0
  show ?case using greach.step [OF greach.start frozen_start] by blast
next
  case (Suc n)
  then obtain xs where r: "greach node1 (frozen_sys n (\<lambda>_. Idle) xs)" and d: "0 < n \<longrightarrow> dup_id \<in> set xs"
    by auto
  have "gstep (frozen_sys n (\<lambda>_. Idle) xs)
      (frozen_sys (Suc n) (\<lambda>_. Idle) (make_id (frozen (Suc n)) 1704067200000 # xs))"
    using frozen_step [of "\<lambda>_. Idle" 0 n "[t0]"] frozen_next [of n] Suc.prems by (simp add: fun_upd_idem)
  from greach.step [OF r this] d show ?case
    by (intro exI [of _ "make_id (frozen (Suc n)) 1704067200000 # xs"]) (cases "n = 0"; simp)
qed

lemma exhaust_step: "critical Idle (frozen 4095) [t0, t0] = Some (None, Exhausted, frozen 0, [])"
  by (simp add: frozen_def sequenceMask_num Let_def)

text \<open>
  The lock is not enough: \<open>waitNextMillisLocked\<close> unlocks the mutex after the sequence has been
  reset to 0 but before the millisecond is over, so a second goroutine that calls \<open>Generate\<close> in that
  window continues with sequence 1 in the same millisecond and is given an id that was issued
  before. A run of the code from a fresh generator, with a clock that never goes back, reaches a
  state with a duplicate id.
\<close>

theorem concurrent_duplicate: "\<exists>s. greach node1 s \<and> \<not> distinct (issued s)"
proof -
  obtain xs where r: "greach node1 (frozen_sys 4095 (\<lambda>_. Idle) xs)" and d: "dup_id \<in> set xs"
    using frozen_reach [of 4095] by auto
  have "gstep (frozen_sys 4095 (\<lambda>_. Idle) xs) (frozen_sys 0 ((\<lambda>_. Idle)(0 := Exhausted)) xs)"
    using frozen_step [of "\<lambda>_. Idle" 0 4095 "[t0, t0]"] exhaust_step by simp
  moreover have "gstep (frozen_sys 0 ((\<lambda>_. Idle)(0 := Exhausted)) xs)
      (frozen_sys 1 ((\<lambda>_. Idle)(0 := Exhausted, 1 := Idle)) (dup_id # xs))"
    using frozen_step [of "(\<lambda>_. Idle)(0 := Exhausted)" 1 0 "[t0]"] frozen_next [of 0] by simp
  ultimately have "greach node1 (frozen_sys 1 ((\<lambda>_. Idle)(0 := Exhausted, 1 := Idle)) (dup_id # xs))"
    using r by (blast intro: greach.step)
  then show ?thesis using d by (force simp: frozen_sys_def)
qed


end
