(* ===== verification/Model.thy ===== *)
theory Model
  imports Prelude "HOL-Library.AList"
begin

text \<open>
  The domain types of \<open>internal/model/user.go\<close> as records, and the JSON values that
  \<open>encoding/json\<close> makes of them. JSON text is kept as a tree: \<open>Marshal\<close> builds it and \<open>Unmarshal\<close>
  reads it by field name. A \<open>time.Time\<close> in JSON is an RFC 3339 string with nanoseconds, from which
  the instant is read back exactly; it is the constructor \<open>JTime\<close>. A \<open>[]byte\<close> is base64 text, the
  constructor \<open>JBytes\<close>; the nil slice is null and is the empty list here. A nil pointer is
  \<^const>\<open>None\<close>, a nil map is \<^const>\<open>None\<close> (JSON null), other maps are association lists.
\<close>

section \<open>JSON values\<close>

datatype json =
    JNull | JBool bool | JNum int | JStr string | JTime gotime | JBytes string
  | JArr "json list" | JObj "(string \<times> json) list"

fun field :: "string \<Rightarrow> json \<Rightarrow> json option" where
  "field k (JObj kvs) = map_of kvs k"
| "field k _ = None"

text \<open>What unmarshals into a struct without an error of its own: an object, with keys matched exactly, or null.\<close>

definition is_struct :: "json \<Rightarrow> bool" where
  "is_struct j \<longleftrightarrow> (case j of JObj _ \<Rightarrow> True | JNull \<Rightarrow> True | _ \<Rightarrow> False)"

text \<open>Unmarshalling into a string field: a missing key or a null leaves the zero value.\<close>

definition str_field :: "string \<Rightarrow> json \<Rightarrow> string option" where
  "str_field k j =
     (case field k j of None \<Rightarrow> Some [] | Some JNull \<Rightarrow> Some [] | Some (JStr s) \<Rightarrow> Some s | Some _ \<Rightarrow> None)"

definition int_field :: "string \<Rightarrow> json \<Rightarrow> int option" where
  "int_field k j =
     (case field k j of None \<Rightarrow> Some 0 | Some JNull \<Rightarrow> Some 0 | Some (JNum n) \<Rightarrow> Some n | Some _ \<Rightarrow> None)"

definition bool_field :: "string \<Rightarrow> json \<Rightarrow> bool option" where
  "bool_field k j =
     (case field k j of None \<Rightarrow> Some False | Some JNull \<Rightarrow> Some False | Some (JBool b) \<Rightarrow> Some b | Some _ \<Rightarrow> None)"

text \<open>The zero \<open>time.Time\<close>, 1 January of year 1, in nanoseconds since 1970.\<close>

definition zero_time :: gotime where
  "zero_time = - 62135596800000000000"

definition time_field :: "string \<Rightarrow> json \<Rightarrow> gotime option" where
  "time_field k j =
     (case field k j of None \<Rightarrow> Some zero_time | Some JNull \<Rightarrow> Some zero_time | Some (JTime t) \<Rightarrow> Some t | Some _ \<Rightarrow> None)"

definition time_ptr_field :: "string \<Rightarrow> json \<Rightarrow> gotime option option" where
  "time_ptr_field k j =
     (case field k j of None \<Rightarrow> Some None | Some JNull \<Rightarrow> Some None | Some (JTime t) \<Rightarrow> Some (Some t) | Some _ \<Rightarrow> None)"

definition str_ptr_field :: "string \<Rightarrow> json \<Rightarrow> string option option" where
  "str_ptr_field k j =
     (case field k j of None \<Rightarrow> Some None | Some JNull \<Rightarrow> Some None | Some (JStr s) \<Rightarrow> Some (Some s) | Some _ \<Rightarrow> None)"

definition bytes_field :: "string \<Rightarrow> json \<Rightarrow> string option" where
  "bytes_field k j =
     (case field k j of None \<Rightarrow> Some [] | Some JNull \<Rightarrow> Some [] | Some (JBytes s) \<Rightarrow> Some s | Some _ \<Rightarrow> None)"

definition bytes_json :: "string \<Rightarrow> json" where
  "bytes_json b = (if b = [] then JNull else JBytes b)"

text \<open>\<open>omitempty\<close> on pointers and strings, and pointers without it.\<close>

definition opt_time :: "string \<Rightarrow> gotime option \<Rightarrow> (string \<times> json) list" where
  "opt_time k t = (case t of None \<Rightarrow> [] | Some v \<Rightarrow> [(k, JTime v)])"

definition opt_str :: "string \<Rightarrow> string option \<Rightarrow> (string \<times> json) list" where
  "opt_str k s = (case s of None \<Rightarrow> [] | Some v \<Rightarrow> [(k, JStr v)])"

definition nonempty_str :: "string \<Rightarrow> string \<Rightarrow> (string \<times> json) list" where
  "nonempty_str k s = (if s = [] then [] else [(k, JStr s)])"

definition time_ptr_json :: "gotime option \<Rightarrow> json" where
  "time_ptr_json t = (case t of None \<Rightarrow> JNull | Some v \<Rightarrow> JTime v)"

lemmas json_fields = is_struct_def str_field_def int_field_def bool_field_def time_field_def time_ptr_field_def
  str_ptr_field_def bytes_field_def bytes_json_def opt_time_def opt_str_def nonempty_str_def time_ptr_json_def

section \<open>Users\<close>

datatype user_status = StatusOnline | StatusAway | StatusDND | StatusOffline

fun status_text :: "user_status \<Rightarrow> string" where
  "status_text StatusOnline = ''online''"
| "status_text StatusAway = ''away''"
| "status_text StatusDND = ''dnd''"
| "status_text StatusOffline = ''offline''"

text \<open>\<open>UserStatus\<close> is a string type: a status that came from outside is any string.\<close>

record user =
  u_id :: string
  u_username :: string
  u_email :: string
  u_password_hash :: string
  u_display_name :: string
  u_avatar_url :: string
  u_status :: string
  u_last_seen_at :: "gotime option"
  u_created_at :: gotime
  u_updated_at :: gotime
  u_metadata :: string

text \<open>\<open>PasswordHash\<close> is tagged \<open>json:"-"\<close>.\<close>

definition user_json :: "user \<Rightarrow> json" where
  "user_json u = JObj
     [(''id'', JStr (u_id u)), (''username'', JStr (u_username u)), (''email'', JStr (u_email u)),
      (''display_name'', JStr (u_display_name u)), (''avatar_url'', JStr (u_avatar_url u)),
      (''status'', JStr (u_status u)), (''last_seen_at'', time_ptr_json (u_last_seen_at u)),
      (''created_at'', JTime (u_created_at u)), (''updated_at'', JTime (u_updated_at u)),
      (''metadata'', bytes_json (u_metadata u))]"

definition user_of_json :: "json \<Rightarrow> user option" where
  "user_of_json j =
     (if \<not> is_struct j then None
      else case (str_field ''id'' j, str_field ''username'' j, str_field ''email'' j, str_field ''display_name'' j,
            str_field ''avatar_url'' j, str_field ''status'' j, time_ptr_field ''last_seen_at'' j,
            time_field ''created_at'' j, time_field ''updated_at'' j, bytes_field ''metadata'' j) of
        (Some i, Some n, Some e, Some d, Some a, Some s, Some l, Some c, Some u, Some m) \<Rightarrow>
          Some \<lparr>u_id = i, u_username = n, u_email = e, u_password_hash = [], u_display_name = d,
            u_avatar_url = a, u_status = s, u_last_seen_at = l, u_created_at = c, u_updated_at = u,
            u_metadata = m\<rparr>
      | _ \<Rightarrow> None)"

section \<open>Rooms and members\<close>

datatype room_type = RoomTypeDirect | RoomTypeGroup | RoomTypeChannel

fun room_type_text :: "room_type \<Rightarrow> string" where
  "room_type_text RoomTypeDirect = ''direct''"
| "room_type_text RoomTypeGroup = ''group''"
| "room_type_text RoomTypeChannel = ''channel''"

record room_settings =
  AllowReactions :: bool
  AllowThreads :: bool
  MessageRetention :: int
  SlowModeSeconds :: int
  RequireApproval :: bool
  OnlyAdminsCanPost :: bool

record room =
  r_id :: string
  r_name :: string
  r_type :: string
  r_description :: string
  r_avatar_url :: string
  r_created_by :: string
  r_created_at :: gotime
  r_updated_at :: gotime
  r_archived_at :: "gotime option"
  r_settings :: room_settings
  r_member_count :: int

definition settings_json :: "room_settings \<Rightarrow> json" where
  "settings_json s = JObj
     [(''allow_reactions'', JBool (AllowReactions s)), (''allow_threads'', JBool (AllowThreads s)),
      (''message_retention_days'', JNum (MessageRetention s)), (''slow_mode_seconds'', JNum (SlowModeSeconds s)),
      (''require_approval'', JBool (RequireApproval s)), (''only_admins_can_post'', JBool (OnlyAdminsCanPost s))]"

definition settings_of_json :: "json \<Rightarrow> room_settings option" where
  "settings_of_json j =
     (if \<not> is_struct j then None
      else case (bool_field ''allow_reactions'' j, bool_field ''allow_threads'' j, int_field ''message_retention_days'' j,
            int_field ''slow_mode_seconds'' j, bool_field ''require_approval'' j, bool_field ''only_admins_can_post'' j) of
        (Some a, Some t, Some m, Some s, Some r, Some p) \<Rightarrow>
          Some \<lparr>AllowReactions = a, AllowThreads = t, MessageRetention = m, SlowModeSeconds = s,
            RequireApproval = r, OnlyAdminsCanPost = p\<rparr>
      | _ \<Rightarrow> None)"

definition room_json :: "room \<Rightarrow> json" where
  "room_json r = JObj
     ([(''id'', JStr (r_id r)), (''name'', JStr (r_name r)), (''type'', JStr (r_type r)),
       (''description'', JStr (r_description r)), (''avatar_url'', JStr (r_avatar_url r)),
       (''created_by'', JStr (r_created_by r)), (''created_at'', JTime (r_created_at r)),
       (''updated_at'', JTime (r_updated_at r))] @ opt_time ''archived_at'' (r_archived_at r) @
      [(''settings'', settings_json (r_settings r)), (''member_count'', JNum (r_member_count r))])"

text \<open>The zero \<open>RoomSettings\<close> stays where the object has no such field.\<close>

definition room_of_json :: "json \<Rightarrow> room option" where
  "room_of_json j =
     (if \<not> is_struct j then None
      else case (str_field ''id'' j, str_field ''name'' j, str_field ''type'' j, str_field ''description'' j,
            str_field ''avatar_url'' j, str_field ''created_by'' j, time_field ''created_at'' j,
            time_field ''updated_at'' j, time_ptr_field ''archived_at'' j,
            settings_of_json (case field ''settings'' j of None \<Rightarrow> JNull | Some s \<Rightarrow> s), int_field ''member_count'' j) of
        (Some i, Some n, Some t, Some d, Some a, Some b, Some c, Some u, Some x, Some s, Some m) \<Rightarrow>
          Some \<lparr>r_id = i, r_name = n, r_type = t, r_description = d, r_avatar_url = a, r_created_by = b,
            r_created_at = c, r_updated_at = u, r_archived_at = x, r_settings = s, r_member_count = m\<rparr>
      | _ \<Rightarrow> None)"

datatype member_role = RoleOwner | RoleAdmin | RoleModerator | RoleMember

record notification_settings =
  Enabled :: bool
  MentionsOnly :: bool
  Sound :: bool

record room_member =
  rm_room_id :: string
  rm_user_id :: string
  rm_role :: member_role
  rm_joined_at :: gotime
  rm_left_at :: "gotime option"
  rm_last_read_at :: gotime
  rm_muted_until :: "gotime option"
  rm_banned_at :: "gotime option"
  rm_ban_reason :: "string option"
  rm_notifications :: notification_settings

section \<open>Messages\<close>

datatype content_type = ContentTypeText | ContentTypeMarkdown | ContentTypeSystem | ContentTypeFile

fun content_type_text :: "content_type \<Rightarrow> string" where
  "content_type_text ContentTypeText = ''text''"
| "content_type_text ContentTypeMarkdown = ''markdown''"
| "content_type_text ContentTypeSystem = ''system''"
| "content_type_text ContentTypeFile = ''file''"

record attachment =
  a_id :: string
  a_file_name :: string
  a_file_size :: int
  a_mime_type :: string
  a_url :: string
  a_thumbnail_url :: string
  a_width :: int
  a_height :: int

record forwarded_info =
  fw_room_id :: string
  fw_message_id :: string
  fw_user_id :: string
  fw_at :: gotime

record message_metadata =
  md_client_id :: string
  md_reply_to :: "string option"
  md_forwarded_from :: "forwarded_info option"
  md_custom_data :: "(string \<times> json) list option"

type_synonym reactions = "(string \<times> string list) list"

record message =
  m_id :: string
  m_room_id :: string
  m_user_id :: string
  m_content :: string
  m_content_type :: content_type
  m_parent_id :: "string option"
  m_thread_count :: int
  m_edited_at :: "gotime option"
  m_deleted_at :: "gotime option"
  m_deleted_by :: "string option"
  m_reactions :: "reactions option"
  m_attachments :: "attachment list option"
  m_metadata :: message_metadata
  m_created_at :: gotime
  m_client_timestamp :: "gotime option"

definition nonzero_num :: "string \<Rightarrow> int \<Rightarrow> (string \<times> json) list" where
  "nonzero_num k n = (if n = 0 then [] else [(k, JNum n)])"

definition attachment_json :: "attachment \<Rightarrow> json" where
  "attachment_json a = JObj
     ([(''id'', JStr (a_id a)), (''file_name'', JStr (a_file_name a)), (''file_size'', JNum (a_file_size a)),
       (''mime_type'', JStr (a_mime_type a)), (''url'', JStr (a_url a))] @
      nonempty_str ''thumbnail_url'' (a_thumbnail_url a) @ nonzero_num ''width'' (a_width a) @
      nonzero_num ''height'' (a_height a))"

definition forwarded_json :: "forwarded_info \<Rightarrow> json" where
  "forwarded_json f = JObj
     [(''room_id'', JStr (fw_room_id f)), (''message_id'', JStr (fw_message_id f)),
      (''user_id'', JStr (fw_user_id f)), (''at'', JTime (fw_at f))]"

definition metadata_json :: "message_metadata \<Rightarrow> json" where
  "metadata_json m = JObj
     (nonempty_str ''client_id'' (md_client_id m) @ opt_str ''reply_to'' (md_reply_to m) @
      (case md_forwarded_from m of None \<Rightarrow> [] | Some f \<Rightarrow> [(''forwarded_from'', forwarded_json f)]) @
      (case md_custom_data m of None \<Rightarrow> [] | Some [] \<Rightarrow> [] | Some kvs \<Rightarrow> [(''custom_data'', JObj kvs)]))"

definition reactions_json :: "reactions option \<Rightarrow> json" where
  "reactions_json r =
     (case r of None \<Rightarrow> JNull | Some kvs \<Rightarrow> JObj (map (\<lambda>(k, us). (k, JArr (map JStr us))) kvs))"

definition message_json :: "message \<Rightarrow> json" where
  "message_json m = JObj
     ([(''id'', JStr (m_id m)), (''room_id'', JStr (m_room_id m)), (''user_id'', JStr (m_user_id m)),
       (''content'', JStr (m_content m)), (''content_type'', JStr (content_type_text (m_content_type m)))] @
      opt_str ''parent_id'' (m_parent_id m) @ [(''thread_count'', JNum (m_thread_count m))] @
      opt_time ''edited_at'' (m_edited_at m) @ opt_time ''deleted_at'' (m_deleted_at m) @
      opt_str ''deleted_by'' (m_deleted_by m) @
      [(''reactions'', reactions_json (m_reactions m)),
       (''attachments'', (case m_attachments m of None \<Rightarrow> JNull | Some as \<Rightarrow> JArr (map attachment_json as))),
       (''metadata'', metadata_json (m_metadata m)), (''created_at'', JTime (m_created_at m))] @
      opt_time ''client_timestamp'' (m_client_timestamp m))"

record read_receipt =
  rr_room_id :: string
  rr_user_id :: string
  rr_message_id :: string
  rr_read_at :: gotime

section \<open>Presence\<close>

record client_info =
  Platform :: string
  Version :: string
  DeviceID :: string

record presence =
  p_user_id :: string
  p_status :: string
  p_last_active :: gotime
  p_current_room :: "string option"
  p_client_info :: client_info

definition client_info_json :: "client_info \<Rightarrow> json" where
  "client_info_json c = JObj
     [(''platform'', JStr (Platform c)), (''version'', JStr (Version c)), (''device_id'', JStr (DeviceID c))]"

definition client_info_of_json :: "json \<Rightarrow> client_info option" where
  "client_info_of_json j =
     (if \<not> is_struct j then None
      else case (str_field ''platform'' j, str_field ''version'' j, str_field ''device_id'' j) of
        (Some p, Some v, Some d) \<Rightarrow> Some \<lparr>Platform = p, Version = v, DeviceID = d\<rparr> | _ \<Rightarrow> None)"

definition presence_json :: "presence \<Rightarrow> json" where
  "presence_json p = JObj
     ([(''user_id'', JStr (p_user_id p)), (''status'', JStr (p_status p)),
       (''last_active'', JTime (p_last_active p))] @ opt_str ''current_room'' (p_current_room p) @
      [(''client_info'', client_info_json (p_client_info p))])"

definition presence_of_json :: "json \<Rightarrow> presence option" where
  "presence_of_json j =
     (if \<not> is_struct j then None
      else case (str_field ''user_id'' j, str_field ''status'' j, time_field ''last_active'' j,
            str_ptr_field ''current_room'' j,
            client_info_of_json (case field ''client_info'' j of None \<Rightarrow> JNull | Some c \<Rightarrow> c)) of
        (Some u, Some s, Some t, Some r, Some c) \<Rightarrow>
          Some \<lparr>p_user_id = u, p_status = s, p_last_active = t, p_current_room = r, p_client_info = c\<rparr>
      | _ \<Rightarrow> None)"

section \<open>Round trips\<close>

lemma settings_roundtrip [simp]: "settings_of_json (settings_json s) = Some s"
  by (simp add: settings_of_json_def settings_json_def json_fields)

lemma room_roundtrip [simp]: "room_of_json (room_json r) = Some r"
  by (cases "r_archived_at r") (simp_all add: room_of_json_def room_json_def json_fields)

lemma client_info_roundtrip [simp]: "client_info_of_json (client_info_json c) = Some c"
  by (simp add: client_info_of_json_def client_info_json_def json_fields)

lemma presence_roundtrip [simp]: "presence_of_json (presence_json p) = Some p"
  by (cases "p_current_room p") (simp_all add: presence_of_json_def presence_json_def json_fields)

lemma user_roundtrip [simp]: "user_of_json (user_json u) = Some (u\<lparr>u_password_hash := []\<rparr>)"
  by (cases "u_last_seen_at u"; cases "u_metadata u") (simp_all add: user_of_json_def user_json_def json_fields)

end
