(* ===== verification/Go_Strings.thy ===== *)
theory Go_Strings
  imports Prelude "HOL-Library.Sublist"
begin

text \<open>
  The functions of Go's standard library on strings that the program calls: \<open>strings.TrimSpace\<close>,
  \<open>ReplaceAll\<close> of one byte, \<open>HasPrefix\<close>, \<open>TrimPrefix\<close>, \<open>Index\<close>, \<open>Split\<close>, \<open>EqualFold\<close> on ASCII and
  \<open>html.EscapeString\<close>, all on byte strings.
\<close>

section \<open>Trimming\<close>

text \<open>The UTF-8 encodings of the runes for which \<open>unicode.IsSpace\<close> holds.\<close>

definition space_runes :: "string list" where
  "space_runes =
     map (\<lambda>c. [char_of (c :: nat)]) [9, 10, 11, 12, 13, 32] @
     map (map char_of) [[0xC2 :: nat, 0x85], [0xC2, 0xA0], [0xE1, 0x9A, 0x80]] @
     map (\<lambda>c. map char_of [0xE2, 0x80, c :: nat]) [0x80, 0x81, 0x82, 0x83, 0x84, 0x85, 0x86, 0x87,
        0x88, 0x89, 0x8A, 0xA8, 0xA9, 0xAF] @
     map (map char_of) [[0xE2 :: nat, 0x81, 0x9F], [0xE3, 0x80, 0x80]]"

definition strip_one :: "string list \<Rightarrow> string \<Rightarrow> string option" where
  "strip_one ws s = map_option (\<lambda>w. drop (length w) s) (find (\<lambda>w. w \<noteq> [] \<and> prefix w s) ws)"

lemma strip_one_shorter: "strip_one ws s = Some t \<Longrightarrow> length t < length s"
  by (auto simp: strip_one_def find_Some_iff prefix_def)

function trim_left :: "string list \<Rightarrow> string \<Rightarrow> string" where
  "trim_left ws s = (case strip_one ws s of None \<Rightarrow> s | Some t \<Rightarrow> trim_left ws t)"
  by pat_completeness auto
termination
  by (relation "measure (\<lambda>(ws, s). length s)") (auto dest: strip_one_shorter)

declare trim_left.simps [simp del]

definition trim_right :: "string list \<Rightarrow> string \<Rightarrow> string" where
  "trim_right ws s = rev (trim_left (map rev ws) (rev s))"

definition TrimSpace :: "string \<Rightarrow> string" where
  "TrimSpace s = trim_right space_runes (trim_left space_runes s)"

lemma trim_left_suffix: "suffix (trim_left ws s) s"
proof (induction ws s rule: trim_left.induct)
  case (1 ws s)
  show ?case
  proof (cases "strip_one ws s")
    case None
    then show ?thesis by (simp add: trim_left.simps)
  next
    case (Some t)
    then have "suffix t s" by (auto simp: strip_one_def suffix_drop)
    moreover have "suffix (trim_left ws t) t" using 1 Some by simp
    ultimately show ?thesis
      using Some by (simp add: trim_left.simps [of ws s])
  qed
qed

lemma trim_right_prefix: "prefix (trim_right ws s) s"
  using trim_left_suffix [of "map rev ws" "rev s"]
  by (simp add: trim_right_def suffix_to_prefix)

lemma TrimSpace_sublist: "sublist (TrimSpace s) s"
  unfolding TrimSpace_def
  by (meson prefix_imp_sublist suffix_imp_sublist sublist_order.order_trans trim_left_suffix trim_right_prefix)

lemma TrimSpace_length: "length (TrimSpace s) \<le> length s"
  using TrimSpace_sublist sublist_length_le by blast

lemma TrimSpace_set: "set (TrimSpace s) \<subseteq> set s"
  using TrimSpace_sublist set_mono_sublist by blast

lemma trim_left_done: "strip_one ws (trim_left ws s) = None"
proof (induction ws s rule: trim_left.induct)
  case (1 ws s)
  show ?case
  proof (cases "strip_one ws s")
    case None
    then show ?thesis by (simp add: trim_left.simps)
  next
    case (Some t)
    then show ?thesis using 1 by (simp add: trim_left.simps [of ws s])
  qed
qed

lemma trim_left_id: "strip_one ws s = None \<Longrightarrow> trim_left ws s = s"
  by (simp add: trim_left.simps)

lemma strip_one_None_iff: "strip_one ws s = None \<longleftrightarrow> (\<forall>w \<in> set ws. w \<noteq> [] \<longrightarrow> \<not> prefix w s)"
  by (auto simp: strip_one_def find_None_iff)

text \<open>A string of bytes none of which starts or ends an encoded space is left alone.\<close>

definition no_space_byte :: "char \<Rightarrow> bool" where
  "no_space_byte c \<longleftrightarrow> (\<forall>w \<in> set space_runes. c \<noteq> hd w \<and> c \<noteq> last w)"

lemma TrimSpace_id:
  assumes "\<forall>c \<in> set s. no_space_byte c"
  shows "TrimSpace s = s"
proof -
  have "\<not> prefix w s" if "w \<in> set space_runes" "w \<noteq> []" for w
  proof
    assume "prefix w s"
    then have "hd w \<in> set s" using that(2) by (auto simp: prefix_def)
    then show False using assms that(1) by (auto simp: no_space_byte_def)
  qed
  then have l: "trim_left space_runes s = s"
    by (intro trim_left_id) (simp add: strip_one_None_iff)
  have "\<not> prefix (rev w) (rev s)" if "w \<in> set space_runes" "w \<noteq> []" for w
  proof
    assume "prefix (rev w) (rev s)"
    then have "suffix w s" by (simp add: suffix_to_prefix)
    then have "last w \<in> set s" using that(2) by (auto simp: suffix_def)
    then show False using assms that(1) by (auto simp: no_space_byte_def)
  qed
  then have "trim_left (map rev space_runes) (rev s) = rev s"
    by (intro trim_left_id) (auto simp: strip_one_None_iff)
  then show ?thesis by (simp add: TrimSpace_def trim_right_def l)
qed

section \<open>Searching and splitting\<close>

definition HasPrefix :: "string \<Rightarrow> string \<Rightarrow> bool" where
  "HasPrefix s p \<longleftrightarrow> prefix p s"

definition TrimPrefix :: "string \<Rightarrow> string \<Rightarrow> string" where
  "TrimPrefix s p = (if prefix p s then drop (length p) s else s)"

text \<open>\<open>strings.Index\<close> for a one-byte needle: \<^const>\<open>None\<close> is Go's \<open>-1\<close>.\<close>

fun IndexByte :: "string \<Rightarrow> char \<Rightarrow> nat option" where
  "IndexByte [] c = None"
| "IndexByte (x # xs) c = (if x = c then Some 0 else map_option Suc (IndexByte xs c))"

lemma IndexByte_Some_iff:
  "IndexByte s c = Some i \<longleftrightarrow> i < length s \<and> s ! i = c \<and> c \<notin> set (take i s)"
proof (induction s arbitrary: i)
  case Nil
  then show ?case by simp
next
  case (Cons x xs)
  then show ?case by (cases i) auto
qed

lemma IndexByte_None_iff: "IndexByte s c = None \<longleftrightarrow> c \<notin> set s"
  by (induction s) auto

lemma IndexByte_append: "c \<notin> set a \<Longrightarrow> IndexByte (a @ c # b) c = Some (length a)"
  by (induction a) auto

fun Split :: "char \<Rightarrow> string \<Rightarrow> string list" where
  "Split sep [] = [[]]"
| "Split sep (c # cs) =
     (if c = sep then [] # Split sep cs
      else (case Split sep cs of [] \<Rightarrow> [[c]] | p # ps \<Rightarrow> (c # p) # ps))"

definition RemoveByte :: "char \<Rightarrow> string \<Rightarrow> string" where
  "RemoveByte c s = filter (\<lambda>x. x \<noteq> c) s"

section \<open>ASCII case\<close>

definition is_upper :: "char \<Rightarrow> bool" where
  "is_upper c \<longleftrightarrow> (of_char c :: nat) \<in> {65..90}"

definition is_lower :: "char \<Rightarrow> bool" where
  "is_lower c \<longleftrightarrow> (of_char c :: nat) \<in> {97..122}"

definition is_digit :: "char \<Rightarrow> bool" where
  "is_digit c \<longleftrightarrow> (of_char c :: nat) \<in> {48..57}"

abbreviation is_alpha :: "char \<Rightarrow> bool" where
  "is_alpha c \<equiv> is_upper c \<or> is_lower c"

definition to_upper :: "char \<Rightarrow> char" where
  "to_upper c = (if is_lower c then char_of ((of_char c :: nat) - 32) else c)"

definition to_lower :: "char \<Rightarrow> char" where
  "to_lower c = (if is_upper c then char_of ((of_char c :: nat) + 32) else c)"

section \<open>html.EscapeString\<close>

fun escape_byte :: "char \<Rightarrow> string" where
  "escape_byte c =
     (if c = CHR ''&'' then ''&amp;''
      else if c = CHR 0x27 then ''&#39;''
      else if c = CHR ''<'' then ''&lt;''
      else if c = CHR ''>'' then ''&gt;''
      else if c = CHR 0x22 then ''&#34;''
      else [c])"

declare escape_byte.simps [simp del]

definition EscapeString :: "string \<Rightarrow> string" where
  "EscapeString s = concat (map escape_byte s)"

lemma EscapeString_simps [simp]:
  "EscapeString [] = []"
  "EscapeString (c # cs) = escape_byte c @ EscapeString cs"
  by (simp_all add: EscapeString_def)

lemma EscapeString_append: "EscapeString (a @ b) = EscapeString a @ EscapeString b"
  by (simp add: EscapeString_def)

lemma escape_byte_length: "1 \<le> length (escape_byte c) \<and> length (escape_byte c) \<le> 5"
  by (simp add: escape_byte.simps)

lemma EscapeString_length: "length s \<le> length (EscapeString s) \<and> length (EscapeString s) \<le> 5 * length s"
proof (induction s)
  case Nil
  then show ?case by simp
next
  case (Cons c s)
  then show ?case using escape_byte_length [of c] by simp
qed

text \<open>The inverse: read one entity or one byte.\<close>

fun unescape :: "string \<Rightarrow> string" where
  "unescape [] = []"
| "unescape (c # cs) =
     (if c = CHR ''&'' then
        (if prefix ''amp;'' cs then CHR ''&'' # unescape (drop 4 cs)
         else if prefix ''#39;'' cs then CHR 0x27 # unescape (drop 4 cs)
         else if prefix ''lt;'' cs then CHR ''<'' # unescape (drop 3 cs)
         else if prefix ''gt;'' cs then CHR ''>'' # unescape (drop 3 cs)
         else if prefix ''#34;'' cs then CHR 0x22 # unescape (drop 4 cs)
         else CHR ''&'' # unescape cs)
      else c # unescape cs)"

lemma unescape_EscapeString: "unescape (EscapeString s) = s"
  by (induction s) (auto simp: escape_byte.simps)

lemma EscapeString_inj: "EscapeString s = EscapeString t \<longleftrightarrow> s = t"
  by (metis unescape_EscapeString)

end
