(* ===== verification/Database.thy ===== *)
theory Database
  imports Model Go_Strings
begin

text \<open>
  What the services see of the world: an environment \<open>env\<close> that fixes, for one request, the clock
  readings, the generated identifiers and the failures of the database and of Redis; the tables of
  \<open>migrations/001_init.sql\<close> as lists of rows; and the way pgx runs a single statement, a query and a
  transaction. A call is named by a label: the query type the repository reports to
  \<open>recordQueryDuration\<close>, with the step appended inside a transaction.
\<close>

section \<open>Environment\<close>

text \<open>
  A statement that fails was either not applied (\<open>Rejected\<close>: no connection, a cancelled context, a
  violated constraint) or was applied although its reply was lost (\<open>ReplyLost\<close>).
\<close>

datatype fault = Rejected err | ReplyLost err

fun fault_err :: "fault \<Rightarrow> err" where
  "fault_err (Rejected x) = x"
| "fault_err (ReplyLost x) = x"

record env =
  db_fault :: "string \<Rightarrow> fault option"
  redis_fault :: "string \<Rightarrow> fault option"
  now :: "string \<Rightarrow> gotime"
  db_now :: gotime
  redis_now :: "string \<Rightarrow> gotime"
  new_uuid :: "string \<Rightarrow> string"
  new_id :: string
  rand36 :: string
  pg_lower :: "string \<Rightarrow> string"
  json_text :: "json \<Rightarrow> string"

text \<open>An environment in which every call succeeds.\<close>

definition no_faults :: "env \<Rightarrow> bool" where
  "no_faults e \<longleftrightarrow> db_fault e = (\<lambda>_. None) \<and> redis_fault e = (\<lambda>_. None)"

text \<open>\<open>timestamptz\<close> counts microseconds: pgx drops the rest of the nanoseconds.\<close>

definition pg_time :: "gotime \<Rightarrow> gotime" where
  "pg_time t = t - t mod 1000"

section \<open>Tables\<close>

record db =
  t_users :: "user list"
  t_rooms :: "room list"
  t_members :: "room_member list"
  t_messages :: "message list"
  t_receipts :: "read_receipt list"

definition empty_db :: db where
  "empty_db = \<lparr>t_users = [], t_rooms = [], t_members = [], t_messages = [], t_receipts = []\<rparr>"

definition unique_violation :: err where
  "unique_violation = Err ''duplicate key value violates unique constraint''"

definition fk_violation :: err where
  "fk_violation = Err ''violates foreign key constraint''"

text \<open>
  The keys of the tables: \<open>users\<close> by \<open>id\<close>, by \<open>username\<close> and by \<open>email\<close>, \<open>rooms\<close> by \<open>id\<close>,
  \<open>room_members\<close> and \<open>read_receipts\<close> by \<open>(room_id, user_id)\<close>, \<open>messages\<close> by \<open>(id, created_at)\<close>.
  The other constraints of the migration (lengths, \<open>CHECK\<close>s, the syntax of \<open>UUID\<close> and \<open>BIGINT\<close>)
  only ever reject a statement, which is a \<open>Rejected\<close> fault of the environment.
\<close>

definition member_key :: "room_member \<Rightarrow> string \<times> string" where
  "member_key m = (rm_room_id m, rm_user_id m)"

definition receipt_key :: "read_receipt \<Rightarrow> string \<times> string" where
  "receipt_key r = (rr_room_id r, rr_user_id r)"

definition message_key :: "message \<Rightarrow> string \<times> gotime" where
  "message_key m = (m_id m, m_created_at m)"

definition has_user :: "db \<Rightarrow> string \<Rightarrow> bool" where
  "has_user d u \<longleftrightarrow> sql_exists (\<lambda>r. u_id r = u) (t_users d)"

definition has_room :: "db \<Rightarrow> string \<Rightarrow> bool" where
  "has_room d r \<longleftrightarrow> sql_exists (\<lambda>x. r_id x = r) (t_rooms d)"

text \<open>\<open>deleted_by UUID REFERENCES users(id)\<close>, which may be null.\<close>

definition deleter_known :: "db \<Rightarrow> message \<Rightarrow> bool" where
  "deleter_known d m \<longleftrightarrow> (case m_deleted_by m of None \<Rightarrow> True | Some u \<Rightarrow> has_user d u)"

definition db_ok :: "db \<Rightarrow> bool" where
  "db_ok d \<longleftrightarrow>
     distinct (map u_id (t_users d)) \<and> distinct (map u_username (t_users d)) \<and>
     distinct (map u_email (t_users d)) \<and> distinct (map r_id (t_rooms d)) \<and>
     distinct (map member_key (t_members d)) \<and> distinct (map message_key (t_messages d)) \<and>
     distinct (map receipt_key (t_receipts d)) \<and>
     (\<forall>r \<in> set (t_rooms d). has_user d (r_created_by r)) \<and>
     (\<forall>m \<in> set (t_members d). has_room d (rm_room_id m) \<and> has_user d (rm_user_id m)) \<and>
     (\<forall>m \<in> set (t_messages d). has_user d (m_user_id m) \<and> deleter_known d m) \<and>
     (\<forall>r \<in> set (t_receipts d). has_room d (rr_room_id r) \<and> has_user d (rr_user_id r))"

section \<open>Statements and transactions\<close>

text \<open>\<open>pool.Exec\<close>: a statement in a transaction of its own.\<close>

definition db_exec :: "env \<Rightarrow> string \<Rightarrow> (db \<Rightarrow> db result) \<Rightarrow> db \<Rightarrow> unit result \<times> db" where
  "db_exec e q f d =
     (case db_fault e q of
        Some (Rejected x) \<Rightarrow> (Inl x, d)
      | Some (ReplyLost x) \<Rightarrow> (Inl x, (case f d of Inl _ \<Rightarrow> d | Inr d' \<Rightarrow> d'))
      | None \<Rightarrow> (case f d of Inl x \<Rightarrow> (Inl x, d) | Inr d' \<Rightarrow> (Inr (), d')))"

text \<open>\<open>pool.Query\<close> and \<open>QueryRow\<close>: a failure at any row is a failure of the call.\<close>

definition db_query :: "env \<Rightarrow> string \<Rightarrow> (db \<Rightarrow> 'a result) \<Rightarrow> db \<Rightarrow> 'a result" where
  "db_query e q f d = (case db_fault e q of Some x \<Rightarrow> Inl (fault_err x) | None \<Rightarrow> f d)"

definition row_result :: "'a option \<Rightarrow> 'a result" where
  "row_result r = (case r of None \<Rightarrow> Inl ErrNoRows | Some x \<Rightarrow> Inr x)"

text \<open>
  \<open>pool.Begin\<close>, \<open>tx.Exec\<close> and \<open>tx.Commit\<close>. The transaction works on its own copy of the tables; what
  was applied is visible outside only after the commit, and the deferred \<open>Rollback\<close> drops the copy.
\<close>

definition tx_begin :: "env \<Rightarrow> string \<Rightarrow> err option" where
  "tx_begin e q = map_option fault_err (db_fault e (q @ ''.begin''))"

definition tx_exec :: "env \<Rightarrow> string \<Rightarrow> (db \<Rightarrow> db result) \<Rightarrow> db \<Rightarrow> db result" where
  "tx_exec e q f d = (case db_fault e q of Some x \<Rightarrow> Inl (fault_err x) | None \<Rightarrow> f d)"

definition tx_commit :: "env \<Rightarrow> string \<Rightarrow> db \<Rightarrow> db \<Rightarrow> unit result \<times> db" where
  "tx_commit e q d copy =
     (case db_fault e (q @ ''.commit'') of
        Some (Rejected x) \<Rightarrow> (Inl x, d)
      | Some (ReplyLost x) \<Rightarrow> (Inl x, copy)
      | None \<Rightarrow> (Inr (), copy))"

text \<open>Committing a transaction one of whose statements failed rolls it back.\<close>

definition tx_commit_failed :: "env \<Rightarrow> string \<Rightarrow> db \<Rightarrow> unit result \<times> db" where
  "tx_commit_failed e q d =
     (Inl (case db_fault e (q @ ''.commit'') of
             Some x \<Rightarrow> fault_err x
           | None \<Rightarrow> Err ''commit unexpectedly resulted in rollback''), d)"

lemma db_exec_db:
  "snd (db_exec e q f d) = d \<or> (\<exists>d'. f d = Inr d' \<and> snd (db_exec e q f d) = d')"
  by (auto simp: db_exec_def split: option.splits fault.splits sum.splits)

lemma db_exec_ok: "db_exec e q f d = (Inr v, d') \<Longrightarrow> f d = Inr d' \<and> db_fault e q = None"
  by (auto simp: db_exec_def split: option.splits fault.splits sum.splits)

lemma db_exec_preserves:
  assumes "P d" and "\<And>d'. f d = Inr d' \<Longrightarrow> P d'"
  shows "P (snd (db_exec e q f d))"
  using db_exec_db [of e q f d] assms by auto

lemma db_execD: "db_exec e q f d = (r, d') \<Longrightarrow> d' = d \<or> f d = Inr d'"
  using db_exec_db [of e q f d] by auto

lemma tx_commitD: "tx_commit e q d c = (r, d') \<Longrightarrow> d' = d \<or> d' = c"
  by (auto simp: tx_commit_def split: option.splits fault.splits)

lemma tx_commit_ok: "tx_commit e q d c = (Inr v, d') \<Longrightarrow> d' = c"
  by (auto simp: tx_commit_def split: option.splits fault.splits)

lemma tx_commit_failed_db [simp]: "snd (tx_commit_failed e q d) = d"
  by (simp add: tx_commit_failed_def)

lemma tx_exec_ok: "tx_exec e q f d = Inr d' \<Longrightarrow> f d = Inr d'"
  by (auto simp: tx_exec_def split: option.splits)

lemma db_query_ok: "db_query e q f d = Inr v \<Longrightarrow> f d = Inr v"
  by (auto simp: db_query_def split: option.splits)

lemma row_result_Inr [simp]: "row_result r = Inr x \<longleftrightarrow> r = Some x"
  by (auto simp: row_result_def split: option.splits)

lemma no_faults_calls [simp]:
  assumes "no_faults e"
  shows "db_fault e q = None" "redis_fault e q = None"
    "db_query e q g d = g d" "tx_exec e q f d = f d" "tx_begin e q = None"
    "tx_commit e q d c = (Inr (), c)"
    "db_exec e q f d = (case f d of Inl x \<Rightarrow> (Inl x, d) | Inr d' \<Rightarrow> (Inr (), d'))"
  using assms
  by (simp_all add: no_faults_def db_query_def tx_exec_def tx_begin_def tx_commit_def db_exec_def)

lemma pg_time_le: "pg_time t \<le> t"
  by (simp add: pg_time_def)

lemma pg_time_gt: "t < pg_time t + 1000"
  by (simp add: pg_time_def)

lemma pg_time_idem [simp]: "pg_time (pg_time t) = pg_time t"
  by (simp add: pg_time_def mod_diff_left_eq minus_mod_eq_div_mult)

text \<open>An environment without failures whose clocks all read \<open>t\<close>.\<close>

definition quiet_env :: "gotime \<Rightarrow> env" where
  "quiet_env t = \<lparr>db_fault = (\<lambda>_. None), redis_fault = (\<lambda>_. None), now = (\<lambda>_. t), db_now = t, redis_now = (\<lambda>_. t),
     new_uuid = (\<lambda>q. ''uuid-'' @ q), new_id = ''77'', rand36 = ''z'', pg_lower = map to_lower, json_text = (\<lambda>_. [])\<rparr>"

lemma quiet_env_simps [simp]:
  "db_fault (quiet_env t) q = None" "redis_fault (quiet_env t) q = None" "now (quiet_env t) q = t"
  "db_now (quiet_env t) = t" "redis_now (quiet_env t) q = t" "new_uuid (quiet_env t) q = ''uuid-'' @ q"
  "new_id (quiet_env t) = ''77''" "rand36 (quiet_env t) = ''z''" "no_faults (quiet_env t)"
  by (simp_all add: quiet_env_def no_faults_def)

end
