(* ===== verification/Redis.thy ===== *)
theory Redis
  imports Database "HOL-Library.AList"
begin

text \<open>
  Redis, which the program only calls: its commands are a parameter of the model, the record
  \<open>redis_api\<close>, and what the program relies on is the locale \<open>redis_server\<close>, the documented behaviour
  of those commands. Keys live until their time to live is over by the clock of the server.
  The locale is interpreted on a reference server, so that its laws are known to be satisfiable.
  Values are raw text or marshalled JSON; JSON is kept as a tree.
\<close>

section \<open>Commands\<close>

datatype payload = Text string | Json json

text \<open>
  The first argument is the time of the server. \<open>SET key value EX\<close>, \<open>GET\<close>, \<open>DEL\<close>, \<open>EXISTS\<close> on
  strings; \<open>SADD\<close>, \<open>SREM\<close>, \<open>SMEMBERS\<close> on sets; \<open>ZREMRANGEBYSCORE\<close>, \<open>ZCARD\<close>, \<open>ZADD\<close> on sorted sets,
  and \<open>PEXPIRE\<close> (in nanoseconds here).
\<close>

record 'r redis_api =
  cmd_set :: "gotime \<Rightarrow> string \<Rightarrow> payload \<Rightarrow> gotime \<Rightarrow> 'r \<Rightarrow> 'r"
  cmd_get :: "gotime \<Rightarrow> string \<Rightarrow> 'r \<Rightarrow> payload option"
  cmd_del :: "gotime \<Rightarrow> string \<Rightarrow> 'r \<Rightarrow> 'r"
  cmd_exists :: "gotime \<Rightarrow> string \<Rightarrow> 'r \<Rightarrow> bool"
  cmd_sadd :: "gotime \<Rightarrow> string \<Rightarrow> string \<Rightarrow> 'r \<Rightarrow> 'r"
  cmd_srem :: "gotime \<Rightarrow> string \<Rightarrow> string \<Rightarrow> 'r \<Rightarrow> 'r"
  cmd_smembers :: "gotime \<Rightarrow> string \<Rightarrow> 'r \<Rightarrow> string list"
  cmd_zremrangebyscore :: "gotime \<Rightarrow> string \<Rightarrow> int \<Rightarrow> int \<Rightarrow> 'r \<Rightarrow> 'r"
  cmd_zcard :: "gotime \<Rightarrow> string \<Rightarrow> 'r \<Rightarrow> nat"
  cmd_zadd :: "gotime \<Rightarrow> string \<Rightarrow> int \<Rightarrow> string \<Rightarrow> 'r \<Rightarrow> 'r"
  cmd_pexpire :: "gotime \<Rightarrow> string \<Rightarrow> gotime \<Rightarrow> 'r \<Rightarrow> 'r"

section \<open>Documented behaviour\<close>

text \<open>Storage of values that expire: what is put is found until its time to live is over.\<close>

locale expiring_store =
  fixes put :: "gotime \<Rightarrow> string \<Rightarrow> 'v \<Rightarrow> gotime \<Rightarrow> 's \<Rightarrow> 's"
    and look :: "gotime \<Rightarrow> string \<Rightarrow> 's \<Rightarrow> 'v option"
    and drop_key :: "gotime \<Rightarrow> string \<Rightarrow> 's \<Rightarrow> 's"
  assumes look_put: "0 < ttl \<Longrightarrow> look t k (put t0 k v ttl s) = (if t < t0 + ttl then Some v else None)"
    and look_put_other: "k \<noteq> k' \<Longrightarrow> look t k' (put t0 k v ttl s) = look t k' s"
    and look_drop: "look t k (drop_key t0 k s) = None"
    and look_drop_other: "k \<noteq> k' \<Longrightarrow> look t k' (drop_key t0 k s) = look t k' s"
begin

lemma put_put_look:
  "0 < ttl \<Longrightarrow> 0 < ttl' \<Longrightarrow>
   look t k (put t1 k v' ttl' (put t0 k v ttl s)) = (if t < t1 + ttl' then Some v' else None)"
  by (simp add: look_put)

lemma look_put_Some:
  "0 < ttl \<Longrightarrow> look t k' (put t0 k v ttl s) = Some w \<Longrightarrow> w = v \<and> k' = k \<or> look t k' s = Some w"
  by (cases "k = k'") (auto simp: look_put look_put_other split: if_splits)

lemma drop_put_look: "look t k (drop_key t1 k (put t0 k v ttl s)) = None"
  by (simp add: look_drop)

end

text \<open>
  The server: strings are an expiring store that the commands on sets and sorted sets leave alone, and
  \<open>zmap\<close> gives the scores of a sorted set at a time. A sorted set that expires is empty.
\<close>

locale redis_server =
  expiring_store "cmd_set api" "cmd_get api" "cmd_del api"
  for api :: "'r redis_api" and zmap :: "gotime \<Rightarrow> string \<Rightarrow> 'r \<Rightarrow> (string \<rightharpoonup> int)" +
  assumes exists_get: "cmd_exists api t k s \<longleftrightarrow> cmd_get api t k s \<noteq> None"
    and get_sadd: "k \<noteq> k' \<Longrightarrow> cmd_get api t k (cmd_sadd api t0 k' m s) = cmd_get api t k s"
    and get_srem: "k \<noteq> k' \<Longrightarrow> cmd_get api t k (cmd_srem api t0 k' m s) = cmd_get api t k s"
    and members_sadd: "set (cmd_smembers api t k (cmd_sadd api t0 k m s)) = insert m (set (cmd_smembers api t k s))"
    and members_srem: "set (cmd_smembers api t k (cmd_srem api t0 k m s)) = set (cmd_smembers api t k s) - {m}"
    and zmap_finite: "finite (dom (zmap t k s))"
    and zcard: "cmd_zcard api t k s = card (dom (zmap t k s))"
    and zmap_zrem: "t0 \<le> t \<Longrightarrow> zmap t k (cmd_zremrangebyscore api t0 k lo hi s) =
          zmap t k s |` {m. \<forall>x. zmap t k s m = Some x \<longrightarrow> \<not> (lo \<le> x \<and> x \<le> hi)}"
    and zmap_zadd: "zmap t k (cmd_zadd api t k x m s) = (zmap t k s)(m \<mapsto> x)"
    and zmap_pexpire: "0 < ttl \<Longrightarrow> t0 \<le> t \<Longrightarrow>
          zmap t k (cmd_pexpire api t0 k ttl s) = (if t < t0 + ttl then zmap t0 k s else Map.empty)"
    and zmap_other: "k \<noteq> k' \<Longrightarrow> zmap t k (cmd_zremrangebyscore api t0 k' lo hi s) = zmap t k s"
          "k \<noteq> k' \<Longrightarrow> zmap t k (cmd_zadd api t0 k' x m s) = zmap t k s"
          "k \<noteq> k' \<Longrightarrow> zmap t k (cmd_pexpire api t0 k' ttl s) = zmap t k s"

section \<open>A reference server\<close>

record ref_redis =
  strings :: "string \<Rightarrow> (payload \<times> gotime) option"
  sets :: "string \<Rightarrow> string list"
  zsets :: "string \<Rightarrow> (string \<times> int) list"
  zdeadline :: "string \<Rightarrow> gotime option"

definition ref_empty :: ref_redis where
  "ref_empty = \<lparr>strings = Map.empty, sets = (\<lambda>_. []), zsets = (\<lambda>_. []), zdeadline = (\<lambda>_. None)\<rparr>"

definition ref_zset :: "gotime \<Rightarrow> string \<Rightarrow> ref_redis \<Rightarrow> (string \<times> int) list" where
  "ref_zset t k s =
     (case zdeadline s k of None \<Rightarrow> zsets s k | Some x \<Rightarrow> if t < x then zsets s k else [])"

text \<open>A write to an expired sorted set starts a new one.\<close>

definition ref_zdeadline :: "gotime \<Rightarrow> string \<Rightarrow> ref_redis \<Rightarrow> gotime option" where
  "ref_zdeadline t k s =
     (case zdeadline s k of None \<Rightarrow> None | Some x \<Rightarrow> if t < x then Some x else None)"

definition ref_zwrite :: "gotime \<Rightarrow> string \<Rightarrow> (string \<times> int) list \<Rightarrow> ref_redis \<Rightarrow> ref_redis" where
  "ref_zwrite t k z s = s\<lparr>zsets := (zsets s)(k := z), zdeadline := (zdeadline s)(k := ref_zdeadline t k s)\<rparr>"

definition ref_api :: "ref_redis redis_api" where
  "ref_api = \<lparr>
     cmd_set = (\<lambda>t k v ttl s. s\<lparr>strings := (strings s)(k \<mapsto> (v, t + ttl))\<rparr>),
     cmd_get = (\<lambda>t k s. case strings s k of Some (v, x) \<Rightarrow> if t < x then Some v else None | None \<Rightarrow> None),
     cmd_del = (\<lambda>t k s. s\<lparr>strings := (strings s)(k := None)\<rparr>),
     cmd_exists = (\<lambda>t k s. case strings s k of Some (v, x) \<Rightarrow> t < x | None \<Rightarrow> False),
     cmd_sadd = (\<lambda>t k m s. s\<lparr>sets := (sets s)(k := List.insert m (sets s k))\<rparr>),
     cmd_srem = (\<lambda>t k m s. s\<lparr>sets := (sets s)(k := removeAll m (sets s k))\<rparr>),
     cmd_smembers = (\<lambda>t k s. sets s k),
     cmd_zremrangebyscore = (\<lambda>t k lo hi s.
       let z = ref_zset t k s in
       ref_zwrite t k (filter (\<lambda>(m, _). (case map_of z m of None \<Rightarrow> True | Some x \<Rightarrow> \<not> (lo \<le> x \<and> x \<le> hi))) z) s),
     cmd_zcard = (\<lambda>t k s. length (remdups (map fst (ref_zset t k s)))),
     cmd_zadd = (\<lambda>t k x m s. ref_zwrite t k (AList.update m x (ref_zset t k s)) s),
     cmd_pexpire = (\<lambda>t k ttl s. s\<lparr>zsets := (zsets s)(k := ref_zset t k s), zdeadline := (zdeadline s)(k \<mapsto> t + ttl)\<rparr>)\<rparr>"

definition ref_zmap :: "gotime \<Rightarrow> string \<Rightarrow> ref_redis \<Rightarrow> (string \<rightharpoonup> int)" where
  "ref_zmap t k s = map_of (ref_zset t k s)"

lemma map_of_filter_key: "map_of (filter (\<lambda>(m, _). P m) z) = map_of z |` {m. P m}"
  by (induction z) (auto simp: restrict_map_def fun_eq_iff)

lemma ref_zset_write:
  "t0 \<le> t \<Longrightarrow> ref_zset t k (ref_zwrite t0 k z s) =
     (case ref_zdeadline t0 k s of None \<Rightarrow> z | Some x \<Rightarrow> if t < x then z else [])"
  by (auto simp: ref_zset_def ref_zwrite_def split: option.splits)

lemma ref_zset_write_other: "k \<noteq> k' \<Longrightarrow> ref_zset t k (ref_zwrite t0 k' z s) = ref_zset t k s"
  by (auto simp: ref_zset_def ref_zwrite_def split: option.splits)

lemma ref_zset_expire_other:
  "k \<noteq> k' \<Longrightarrow> ref_zset t k (s\<lparr>zsets := (zsets s)(k' := z), zdeadline := (zdeadline s)(k' := x)\<rparr>) = ref_zset t k s"
  by (auto simp: ref_zset_def split: option.splits)

lemma map_of_filter_range:
  "map_of (filter (\<lambda>(m, _). case map_of z m of None \<Rightarrow> True | Some x \<Rightarrow> \<not> (lo \<le> x \<and> x \<le> hi)) z) =
   map_of z |` {m. \<forall>x. map_of z m = Some x \<longrightarrow> \<not> (lo \<le> x \<and> x \<le> hi)}" for hi :: int
  unfolding map_of_filter_key by (rule arg_cong [where f = "restrict_map (map_of z)"]) (auto split: option.splits)

lemma ref_zrem:
  assumes "t0 \<le> t"
  shows "ref_zmap t k (cmd_zremrangebyscore ref_api t0 k lo hi s) =
    ref_zmap t k s |` {m. \<forall>x. ref_zmap t k s m = Some x \<longrightarrow> \<not> (lo \<le> x \<and> x \<le> hi)}"
proof -
  have old: "ref_zset t k s = [] \<or> ref_zset t k s = ref_zset t0 k s"
    using assms by (auto simp: ref_zset_def split: option.splits)
  have new: "ref_zset t k (ref_zwrite t0 k z s) = (if ref_zset t k s = [] \<and> ref_zset t0 k s \<noteq> [] then [] else z)"
    if "ref_zset t0 k s = [] \<longrightarrow> z = []" for z
    using assms that
    by (subst ref_zset_write [OF assms]) (auto simp: ref_zset_def ref_zdeadline_def split: option.splits)
  show ?thesis
    using old
    by (auto simp: ref_api_def ref_zmap_def Let_def new map_of_filter_range)
qed

lemma ref_zadd: "ref_zmap t k (cmd_zadd ref_api t k x m s) = (ref_zmap t k s)(m \<mapsto> x)"
  by (auto simp: ref_api_def ref_zmap_def ref_zset_write update_conv ref_zdeadline_def split: option.splits)

lemma ref_zcard: "cmd_zcard ref_api t k s = card (dom (ref_zmap t k s))"
  by (simp add: ref_api_def ref_zmap_def dom_map_of_conv_image_fst) (metis length_remdups_card_conv list.set_map)

lemma ref_zexpire:
  "t0 \<le> t \<Longrightarrow> ref_zmap t k (cmd_pexpire ref_api t0 k ttl s) = (if t < t0 + ttl then ref_zmap t0 k s else Map.empty)"
  by (simp add: ref_api_def ref_zmap_def ref_zset_def)

lemma ref_zother:
  assumes "k \<noteq> k'"
  shows "ref_zmap t k (cmd_zremrangebyscore ref_api t0 k' lo hi s) = ref_zmap t k s"
    "ref_zmap t k (cmd_zadd ref_api t0 k' x m s) = ref_zmap t k s"
    "ref_zmap t k (cmd_pexpire ref_api t0 k' ttl s) = ref_zmap t k s"
  using assms
  by (simp_all add: ref_api_def ref_zmap_def ref_zset_write_other ref_zset_expire_other Let_def)

lemma ref_finite: "finite (dom (ref_zmap t k s))"
  by (simp add: ref_zmap_def finite_dom_map_of)

lemma ref_look:
  "cmd_get ref_api t k (cmd_set ref_api t0 k v ttl s) = (if t < t0 + ttl then Some v else None)"
  "k \<noteq> k' \<Longrightarrow> cmd_get ref_api t k' (cmd_set ref_api t0 k v ttl s) = cmd_get ref_api t k' s"
  "cmd_get ref_api t k (cmd_del ref_api t0 k s) = None"
  "k \<noteq> k' \<Longrightarrow> cmd_get ref_api t k' (cmd_del ref_api t0 k s) = cmd_get ref_api t k' s"
  "cmd_exists ref_api t k s \<longleftrightarrow> cmd_get ref_api t k s \<noteq> None"
  by (auto simp: ref_api_def split: option.splits)

lemma ref_sets:
  "cmd_get ref_api t k (cmd_sadd ref_api t0 k' m s) = cmd_get ref_api t k s"
  "cmd_get ref_api t k (cmd_srem ref_api t0 k' m s) = cmd_get ref_api t k s"
  "set (cmd_smembers ref_api t k (cmd_sadd ref_api t0 k m s)) = insert m (set (cmd_smembers ref_api t k s))"
  "set (cmd_smembers ref_api t k (cmd_srem ref_api t0 k m s)) = set (cmd_smembers ref_api t k s) - {m}"
  by (auto simp: ref_api_def)

interpretation ref: redis_server ref_api ref_zmap
  by unfold_locales
    (simp_all add: ref_look ref_sets ref_zrem ref_zadd ref_zcard ref_zexpire ref_zother ref_finite)

end
