(* ===== verification/Redis_PubSub.thy ===== *)
theory Redis_PubSub
  imports Redis
begin

text \<open>
  \<open>internal/pubsub\<close> and \<open>internal/cache\<close>: \<open>RedisPubSub\<close> and \<open>RedisCache\<close> over the commands of
  \<^theory_text>\<open>Redis\<close>. A bus is the store of the server with the log of what was published, in order.
  Metrics are not modelled.
\<close>

record 'r bus =
  store :: 'r
  published :: "(string \<times> json) list"

section \<open>Commands that can fail\<close>

text \<open>A command is named by its name and its key.\<close>

definition redis_write :: "env \<Rightarrow> string \<Rightarrow> ('r \<Rightarrow> 'r) \<Rightarrow> 'r bus \<Rightarrow> unit result \<times> 'r bus" where
  "redis_write e q f b =
     (case redis_fault e q of
        Some (Rejected x) \<Rightarrow> (Inl x, b)
      | Some (ReplyLost x) \<Rightarrow> (Inl x, b\<lparr>store := f (store b)\<rparr>)
      | None \<Rightarrow> (Inr (), b\<lparr>store := f (store b)\<rparr>))"

definition redis_read :: "env \<Rightarrow> string \<Rightarrow> ('r \<Rightarrow> 'a) \<Rightarrow> 'r bus \<Rightarrow> 'a result" where
  "redis_read e q f b = (case redis_fault e q of Some x \<Rightarrow> Inl (fault_err x) | None \<Rightarrow> Inr (f (store b)))"

definition set_key :: "'r redis_api \<Rightarrow> env \<Rightarrow> string \<Rightarrow> payload \<Rightarrow> gotime \<Rightarrow> 'r bus \<Rightarrow> unit result \<times> 'r bus" where
  "set_key api e k v ttl = redis_write e (''SET '' @ k) (cmd_set api (redis_now e (''SET '' @ k)) k v ttl)"

definition get_key :: "'r redis_api \<Rightarrow> env \<Rightarrow> string \<Rightarrow> 'r bus \<Rightarrow> payload option result" where
  "get_key api e k = redis_read e (''GET '' @ k) (cmd_get api (redis_now e (''GET '' @ k)) k)"

definition del_key :: "'r redis_api \<Rightarrow> env \<Rightarrow> string \<Rightarrow> 'r bus \<Rightarrow> unit result \<times> 'r bus" where
  "del_key api e k = redis_write e (''DEL '' @ k) (cmd_del api (redis_now e (''DEL '' @ k)) k)"

definition exists_key :: "'r redis_api \<Rightarrow> env \<Rightarrow> string \<Rightarrow> 'r bus \<Rightarrow> bool result" where
  "exists_key api e k = redis_read e (''EXISTS '' @ k) (cmd_exists api (redis_now e (''EXISTS '' @ k)) k)"

lemma no_fault_redis [simp]:
  assumes "no_faults e"
  shows "redis_write e q f b = (Inr (), b\<lparr>store := f (store b)\<rparr>)" "redis_read e q g b = Inr (g (store b))"
  using assms by (simp_all add: redis_write_def redis_read_def)

lemma redis_write_published [simp]: "published (snd (redis_write e q f b)) = published b"
  by (auto simp: redis_write_def split: option.splits fault.splits)

section \<open>Publishing and presence\<close>

definition Publish :: "env \<Rightarrow> string \<Rightarrow> json \<Rightarrow> 'r bus \<Rightarrow> unit result \<times> 'r bus" where
  "Publish e channel msg b =
     (case redis_fault e (''PUBLISH '' @ channel) of
        Some (Rejected x) \<Rightarrow> (Inl x, b)
      | Some (ReplyLost x) \<Rightarrow> (Inl x, b\<lparr>published := published b @ [(channel, msg)]\<rparr>)
      | None \<Rightarrow> (Inr (), b\<lparr>published := published b @ [(channel, msg)]\<rparr>))"

lemma Publish_store [simp]: "store (snd (Publish e c m b)) = store b"
  by (auto simp: Publish_def split: option.splits fault.splits)

definition SetPresence :: "'r redis_api \<Rightarrow> env \<Rightarrow> string \<Rightarrow> presence \<Rightarrow> 'r bus \<Rightarrow> unit result \<times> 'r bus" where
  "SetPresence api e u p b =
     (let (r, b1) = set_key api e (''presence:'' @ u) (Json (presence_json p)) (5 * minute) b
      in (case r of
            Inl x \<Rightarrow> (Inl x, b1)
          | Inr _ \<Rightarrow> Publish e ''ws:presence''
              (JObj [(''user_id'', JStr u), (''presence'', presence_json p),
                     (''timestamp'', JNum (Unix (now e ''set_presence'')))]) b1))"

text \<open>\<open>json.Unmarshal\<close> into a \<open>Presence\<close>: raw text is not one.\<close>

definition unmarshal_presence :: "payload \<Rightarrow> presence result" where
  "unmarshal_presence v =
     (case v of Text _ \<Rightarrow> Inl (Err ''json: cannot unmarshal'')
      | Json j \<Rightarrow> (case presence_of_json j of None \<Rightarrow> Inl (Err ''json: cannot unmarshal'') | Some p \<Rightarrow> Inr p))"

definition GetPresence :: "'r redis_api \<Rightarrow> env \<Rightarrow> string \<Rightarrow> 'r bus \<Rightarrow> presence option result" where
  "GetPresence api e u b =
     (case get_key api e (''presence:'' @ u) b of
        Inl x \<Rightarrow> Inl x
      | Inr None \<Rightarrow> Inr None
      | Inr (Some v) \<Rightarrow> (case unmarshal_presence v of Inl x \<Rightarrow> Inl x | Inr p \<Rightarrow> Inr (Some p)))"

text \<open>\<open>MGET\<close>; users without a readable presence are left out of the map.\<close>

definition GetPresences :: "'r redis_api \<Rightarrow> env \<Rightarrow> string list \<Rightarrow> 'r bus \<Rightarrow> (string \<rightharpoonup> presence) result" where
  "GetPresences api e us b =
     (if us = [] then Inr Map.empty
      else case redis_read e ''MGET'' (\<lambda>s. map (\<lambda>u. cmd_get api (redis_now e ''MGET'') (''presence:'' @ u) s) us) b of
        Inl x \<Rightarrow> Inl x
      | Inr vs \<Rightarrow> Inr (foldl (\<lambda>m (u, v).
            case v of None \<Rightarrow> m
            | Some w \<Rightarrow> (case unmarshal_presence w of Inl _ \<Rightarrow> m | Inr p \<Rightarrow> m(u \<mapsto> p))) Map.empty (zip us vs)))"

section \<open>Room subscribers\<close>

definition room_event :: "env \<Rightarrow> string \<Rightarrow> string \<Rightarrow> string \<Rightarrow> string \<Rightarrow> json" where
  "room_event e q r u action = JObj [(''room_id'', JStr r), (''user_id'', JStr u), (''action'', JStr action),
     (''timestamp'', JNum (Unix (now e q)))]"

definition subscribers_key :: "string \<Rightarrow> string" where
  "subscribers_key r = ''room:'' @ r @ '':subscribers''"

definition SubscribeToRoom :: "'r redis_api \<Rightarrow> env \<Rightarrow> string \<Rightarrow> string \<Rightarrow> 'r bus \<Rightarrow> unit result \<times> 'r bus" where
  "SubscribeToRoom api e r u b =
     (let k = subscribers_key r;
          (res, b1) = redis_write e (''SADD '' @ k) (cmd_sadd api (redis_now e (''SADD '' @ k)) k u) b
      in (case res of
            Inl x \<Rightarrow> (Inl x, b1)
          | Inr _ \<Rightarrow> Publish e (''ws:room:'' @ r @ '':events'') (room_event e ''subscribe_room'' r u ''joined'') b1))"

definition UnsubscribeFromRoom :: "'r redis_api \<Rightarrow> env \<Rightarrow> string \<Rightarrow> string \<Rightarrow> 'r bus \<Rightarrow> unit result \<times> 'r bus" where
  "UnsubscribeFromRoom api e r u b =
     (let k = subscribers_key r;
          (res, b1) = redis_write e (''SREM '' @ k) (cmd_srem api (redis_now e (''SREM '' @ k)) k u) b
      in (case res of
            Inl x \<Rightarrow> (Inl x, b1)
          | Inr _ \<Rightarrow> Publish e (''ws:room:'' @ r @ '':events'') (room_event e ''unsubscribe_room'' r u ''left'') b1))"

definition GetRoomSubscribers :: "'r redis_api \<Rightarrow> env \<Rightarrow> string \<Rightarrow> 'r bus \<Rightarrow> string list result" where
  "GetRoomSubscribers api e r b =
     (let k = subscribers_key r
      in redis_read e (''SMEMBERS '' @ k) (cmd_smembers api (redis_now e (''SMEMBERS '' @ k)) k) b)"

section \<open>Deduplication and the token blacklist\<close>

text \<open>\<open>redis.Nil\<close> is the empty id. A marshalled value read as a string is its JSON text.\<close>

definition payload_text :: "env \<Rightarrow> payload \<Rightarrow> string" where
  "payload_text e v = (case v of Text s \<Rightarrow> s | Json j \<Rightarrow> json_text e j)"

definition GetDedup :: "'r redis_api \<Rightarrow> env \<Rightarrow> string \<Rightarrow> 'r bus \<Rightarrow> string result" where
  "GetDedup api e k b =
     (case get_key api e (''dedup:'' @ k) b of
        Inl x \<Rightarrow> Inl x
      | Inr None \<Rightarrow> Inr []
      | Inr (Some v) \<Rightarrow> Inr (payload_text e v))"

definition SetDedup :: "'r redis_api \<Rightarrow> env \<Rightarrow> string \<Rightarrow> string \<Rightarrow> gotime \<Rightarrow> 'r bus \<Rightarrow> unit result \<times> 'r bus" where
  "SetDedup api e k i ttl = set_key api e (''dedup:'' @ k) (Text i) ttl"

definition InvalidateToken :: "'r redis_api \<Rightarrow> env \<Rightarrow> string \<Rightarrow> gotime \<Rightarrow> 'r bus \<Rightarrow> unit result \<times> 'r bus" where
  "InvalidateToken api e jti ttl = set_key api e (''token:blacklist:'' @ jti) (Text ''1'') ttl"

definition IsTokenInvalidated :: "'r redis_api \<Rightarrow> env \<Rightarrow> string \<Rightarrow> 'r bus \<Rightarrow> bool result" where
  "IsTokenInvalidated api e jti = exists_key api e (''token:blacklist:'' @ jti)"

section \<open>The rate limiter\<close>

text \<open>
  Numbers of a Lua script are doubles: an integer with more than 53 bits is rounded to the nearest
  multiple of its unit in the last place, ties to even.
\<close>

fun dbl_shift :: "nat \<Rightarrow> nat" where
  "dbl_shift n = (if n < 2 ^ 53 then 0 else Suc (dbl_shift (n div 2)))"

declare dbl_shift.simps [simp del]

definition round_to :: "nat \<Rightarrow> nat \<Rightarrow> nat" where
  "round_to u n = (let q = n div u; r = n mod u
     in (if 2 * r < u \<or> (2 * r = u \<and> even q) then q else q + 1) * u)"

definition to_double :: "int \<Rightarrow> int" where
  "to_double i = (if i < 0 then - int (round_to (2 ^ dbl_shift (nat (- i))) (nat (- i)))
                  else int (round_to (2 ^ dbl_shift (nat i)) (nat i)))"

text \<open>\<open>rateLimitLuaScript\<close>, which the server runs as one step at its time \<open>t\<close>.\<close>

definition rate_limit_script ::
    "'r redis_api \<Rightarrow> gotime \<Rightarrow> string \<Rightarrow> int \<Rightarrow> int \<Rightarrow> int \<Rightarrow> int \<Rightarrow> string \<Rightarrow> 'r \<Rightarrow> bool \<times> 'r" where
  "rate_limit_script api t key nw windowNs windowMs limit m s =
     (let s1 = cmd_zremrangebyscore api t key 0 (to_double (to_double nw - to_double windowNs)) s
      in if limit \<le> int (cmd_zcard api t key s1) then (False, s1)
         else (True, cmd_pexpire api t key (windowMs * millisecond) (cmd_zadd api t key (to_double nw) m s1)))"

definition rateKey :: "string \<Rightarrow> string" where
  "rateKey key = ''ratelimit:'' @ key"

definition rateCall :: "string \<Rightarrow> string" where
  "rateCall key = ''EVALSHA '' @ rateKey key"

definition CheckRateLimit ::
    "'r redis_api \<Rightarrow> env \<Rightarrow> string \<Rightarrow> int \<Rightarrow> gotime \<Rightarrow> 'r bus \<Rightarrow> bool result \<times> 'r bus" where
  "CheckRateLimit api e key limit window b =
     (let nw = now e ''check_rate_limit'';
          m = FormatInt10 nw @ '':'' @ rand36 e;
          (ok, s') = rate_limit_script api (redis_now e (rateCall key)) (rateKey key) nw window
            (max 1 (window sdiv millisecond)) limit m (store b)
      in (case redis_fault e (rateCall key) of
            Some (Rejected x) \<Rightarrow> (Inl x, b)
          | Some (ReplyLost x) \<Rightarrow> (Inl x, b\<lparr>store := s'\<rparr>)
          | None \<Rightarrow> (Inr ok, b\<lparr>store := s'\<rparr>)))"

section \<open>The cache\<close>

definition cache_get :: "'r redis_api \<Rightarrow> env \<Rightarrow> string \<Rightarrow> 'r bus \<Rightarrow> payload result" where
  "cache_get api e k b =
     (case get_key api e k b of Inl x \<Rightarrow> Inl x | Inr None \<Rightarrow> Inl (Err ''redis: nil'') | Inr (Some v) \<Rightarrow> Inr v)"

text \<open>\<open>GetObject\<close> into a value that \<open>dec\<close> reads; \<open>SetObject\<close> of a value that marshals to \<open>j\<close>.\<close>

definition GetObject :: "'r redis_api \<Rightarrow> env \<Rightarrow> (json \<Rightarrow> 'a option) \<Rightarrow> string \<Rightarrow> 'r bus \<Rightarrow> 'a result" where
  "GetObject api e dec k b =
     (case cache_get api e k b of
        Inl x \<Rightarrow> Inl x
      | Inr (Text _) \<Rightarrow> Inl (Err ''json: cannot unmarshal'')
      | Inr (Json j) \<Rightarrow> (case dec j of None \<Rightarrow> Inl (Err ''json: cannot unmarshal'') | Some v \<Rightarrow> Inr v))"

definition SetObject :: "'r redis_api \<Rightarrow> env \<Rightarrow> string \<Rightarrow> json \<Rightarrow> gotime \<Rightarrow> 'r bus \<Rightarrow> unit result \<times> 'r bus" where
  "SetObject api e k j ttl = set_key api e k (Json j) ttl"

definition cache_del :: "'r redis_api \<Rightarrow> env \<Rightarrow> string \<Rightarrow> 'r bus \<Rightarrow> unit result \<times> 'r bus" where
  "cache_del api e k = del_key api e k"

definition cache_exists :: "'r redis_api \<Rightarrow> env \<Rightarrow> string \<Rightarrow> 'r bus \<Rightarrow> int result" where
  "cache_exists api e k b =
     (case exists_key api e k b of Inl x \<Rightarrow> Inl x | Inr x \<Rightarrow> Inr (if x then 1 else 0))"

end
