(* ===== verification/Rate_Limiter.thy ===== *)
theory Rate_Limiter
  imports Redis_PubSub
begin

text \<open>
  The sliding window of \<open>CheckRateLimit\<close>: a sequence of calls on one key, on a server that keeps the
  laws of \<^theory_text>\<open>redis_server\<close>, never admits more than the limit within a window.
\<close>

section \<open>Rounding\<close>

lemma round_to_error: "0 < u \<Longrightarrow> 2 * \<bar>int (round_to u n) - int n\<bar> \<le> int u"
proof -
  assume "0 < u"
  define q r where "q = n div u" and "r = n mod u"
  have n: "n = q * u + r" and r: "r < u" using \<open>0 < u\<close> by (simp_all add: q_def r_def)
  show ?thesis
  proof (cases "2 * r < u \<or> (2 * r = u \<and> even q)")
    case True
    then have "round_to u n = q * u" by (simp add: round_to_def q_def r_def Let_def)
    then show ?thesis using True n by auto
  next
    case False
    then have "round_to u n = (q + 1) * u"
      by (simp only: round_to_def q_def [symmetric] r_def [symmetric] Let_def if_False)
    then have "round_to u n = q * u + u" by simp
    moreover have "u \<le> 2 * r" using False by auto
    ultimately show ?thesis using n r by (simp add: of_nat_diff)
  qed
qed

lemma dbl_shift_le: "n < 2 ^ (53 + k) \<Longrightarrow> dbl_shift n \<le> k"
proof (induction k arbitrary: n)
  case (Suc k)
  have "(2::nat) ^ (53 + Suc k) = 2 ^ (53 + k) * 2" by (simp only: add_Suc_right power_Suc mult.commute)
  then have "n < 2 ^ (53 + k) * 2" using Suc.prems by simp
  then have "n div 2 < 2 ^ (53 + k)" by (rule less_mult_imp_div_less)
  then show ?case using Suc.IH [of "n div 2"] by (subst dbl_shift.simps) simp
qed (simp add: dbl_shift.simps)

lemma to_double_error: "\<bar>i\<bar> < 2 ^ 61 \<Longrightarrow> \<bar>to_double i - i\<bar> \<le> 128"
proof -
  assume i: "\<bar>i\<bar> < 2 ^ 61"
  have "\<bar>int (round_to (2 ^ dbl_shift m) m) - int m\<bar> \<le> 128" if "m < 2 ^ 61" for m :: nat
  proof -
    have "dbl_shift m \<le> 8" using dbl_shift_le [of m 8] that by simp
    then have "(2::int) ^ dbl_shift m \<le> 2 ^ 8" by (rule power_increasing) simp
    then show ?thesis using round_to_error [of "2 ^ dbl_shift m" m] by simp
  qed
  moreover have "nat \<bar>i\<bar> < 2 ^ 61" using i by (simp add: nat_less_iff)
  ultimately have "\<bar>int (round_to (2 ^ dbl_shift (nat \<bar>i\<bar>)) (nat \<bar>i\<bar>)) - int (nat \<bar>i\<bar>)\<bar> \<le> 128" by blast
  then show ?thesis
    by (cases "i < 0") (simp_all add: to_double_def abs_le_iff)
qed

lemma to_double_exact: "0 \<le> i \<Longrightarrow> i < 2 ^ 53 \<Longrightarrow> to_double i = i"
  by (simp add: to_double_def dbl_shift.simps round_to_def)

section \<open>The window\<close>

text \<open>The clock readings of the calls that were told they may proceed.\<close>

fun admitted :: "'r redis_api \<Rightarrow> string \<Rightarrow> int \<Rightarrow> gotime \<Rightarrow> env list \<Rightarrow> 'r bus \<Rightarrow> gotime list" where
  "admitted api key limit window [] b = []"
| "admitted api key limit window (e # es) b =
     (let (r, b') = CheckRateLimit api e key limit window b
      in (if r = Inr True then [now e ''check_rate_limit''] else []) @ admitted api key limit window es b')"

text \<open>
  Rounding moves the edge of the window by at most 384 nanoseconds until the clock reaches \<open>2 ^ 61\<close>, in
  the year 2043.
\<close>

definition in_window :: "gotime \<Rightarrow> gotime \<Rightarrow> gotime \<Rightarrow> bool" where
  "in_window window x a \<longleftrightarrow> x - window + 384 < a \<and> a \<le> x"

lemma cut_below:
  assumes "0 \<le> a" "a < 2 ^ 61" "0 \<le> a0" "a0 < 2 ^ 61" "0 < w" "w < 2 ^ 53" "a0 - w + 384 < a"
  shows "to_double (to_double a0 - to_double w) < to_double a"
proof -
  have a: "\<bar>to_double a - a\<bar> \<le> 128" "\<bar>to_double a0 - a0\<bar> \<le> 128" using assms by (auto intro!: to_double_error)
  have w: "to_double w = w" using assms by (intro to_double_exact) auto
  have "\<bar>to_double a0 - w\<bar> < 2 ^ 61" using a assms by auto
  then have "\<bar>to_double (to_double a0 - w) - (to_double a0 - w)\<bar> \<le> 128" by (rule to_double_error)
  then show ?thesis using a assms w by auto
qed

text \<open>
  Calls in the order of the clock, with the server clock a fixed offset away and members that differ
  (the reading and the random suffix).
\<close>

definition call_member :: "env \<Rightarrow> string" where
  "call_member e = FormatInt10 (now e ''check_rate_limit'') @ '':'' @ rand36 e"

lemma window_bound_snoc:
  fixes H :: "(gotime \<times> string) list"
  assumes "\<forall>x. int (length (filter (in_window w x) (map fst H))) \<le> limit" "\<forall>(a, m) \<in> set H. a \<le> a0"
    and "int (length (filter (\<lambda>(a, m). a0 < a + w - 384) H)) < limit"
  shows "\<forall>x. int (length (filter (in_window w x) (map fst (H @ [(a0, m0)])))) \<le> limit"
proof
  fix x
  show "int (length (filter (in_window w x) (map fst (H @ [(a0, m0)])))) \<le> limit"
  proof (cases "in_window w x a0")
    case True
    have "length (filter (in_window w x) (map fst H)) \<le> length (filter (\<lambda>(a, m). a0 < a + w - 384) H)"
      using assms(2) True by (induction H) (auto simp: in_window_def)
    then show ?thesis using assms(3) True by simp
  next
    case False
    then show ?thesis using assms(1) by simp
  qed
qed

context redis_server
begin

definition recorded :: "string \<Rightarrow> gotime \<Rightarrow> gotime \<Rightarrow> (gotime \<times> string) list \<Rightarrow> gotime \<Rightarrow> 'r \<Rightarrow> bool" where
  "recorded k w off H t0 s \<longleftrightarrow>
     (\<forall>t \<ge> t0. \<forall>a m. (a, m) \<in> set H \<longrightarrow> t + off < a + w - 384 \<longrightarrow> zmap t k s m = Some (to_double a))"

lemma recordedD:
  "recorded k w off H t0 s \<Longrightarrow> t0 \<le> t \<Longrightarrow> (a, m) \<in> set H \<Longrightarrow> t + off < a + w - 384 \<Longrightarrow>
   zmap t k s m = Some (to_double a)"
  unfolding recorded_def by blast

lemma recorded_zrem:
  assumes "recorded k w off H t1 s" "t1 \<le> t0" "a0 = t0 + off"
    and "\<forall>(a, m) \<in> set H. 0 \<le> a \<and> a < 2 ^ 61" "0 \<le> a0" "a0 < 2 ^ 61" "0 < w" "w < 2 ^ 53"
  shows "recorded k w off H t0 (cmd_zremrangebyscore api t0 k 0 (to_double (to_double a0 - to_double w)) s)"
  unfolding recorded_def
proof (intro allI impI)
  fix t a m assume t: "t0 \<le> t" and H: "(a, m) \<in> set H" and recent: "t + off < a + w - 384"
  have z: "zmap t k s m = Some (to_double a)" using recordedD [OF assms(1)] assms(2) t H recent by auto
  have "to_double (to_double a0 - to_double w) < to_double a"
    using assms(3-) t H recent by (intro cut_below) auto
  then show "zmap t k (cmd_zremrangebyscore api t0 k 0 (to_double (to_double a0 - to_double w)) s) m = Some (to_double a)"
    using z t by (simp add: zmap_zrem restrict_map_def)
qed

lemma recorded_zadd:
  assumes "recorded k w off H t0 s" "m0 \<notin> snd ` set H" "a0 = t0 + off" "0 < w"
    and "\<forall>(a, m) \<in> set H. a \<le> a0"
  shows "recorded k w off (H @ [(a0, m0)]) t0 (cmd_pexpire api t0 k w (cmd_zadd api t0 k (to_double a0) m0 s))"
  unfolding recorded_def
proof (intro allI impI)
  fix t a m assume t: "t0 \<le> t" and H: "(a, m) \<in> set (H @ [(a0, m0)])" and recent: "t + off < a + w - 384"
  have "a \<le> a0" using H assms(5) by auto
  then have alive: "t < t0 + w" and "t0 + off < a + w - 384" using recent assms(3) t by auto
  then have "((zmap t0 k s)(m0 \<mapsto> to_double a0)) m = Some (to_double a)"
    using recordedD [OF assms(1)] assms(2) H by force
  then show "zmap t k (cmd_pexpire api t0 k w (cmd_zadd api t0 k (to_double a0) m0 s)) m = Some (to_double a)"
    using assms(4) t alive by (simp add: zmap_pexpire zmap_zadd)
qed

lemma recorded_count:
  assumes "recorded k w off H t0 s" "distinct (map snd H)"
  shows "length (filter (\<lambda>(a, m). t0 + off < a + w - 384) H) \<le> cmd_zcard api t0 k s"
proof -
  let ?R = "filter (\<lambda>(a, m). t0 + off < a + w - 384) H"
  have "distinct (map snd ?R)" using assms(2) by (rule distinct_map_filter)
  from distinct_card [OF this] have "length ?R = card (snd ` set ?R)"
    unfolding set_map length_map by (rule sym)
  also have "\<dots> \<le> card (dom (zmap t0 k s))"
  proof (intro card_mono zmap_finite subsetI)
    fix m assume "m \<in> snd ` set ?R"
    then obtain a where "(a, m) \<in> set H" "t0 + off < a + w - 384" by auto
    then show "m \<in> dom (zmap t0 k s)" using recordedD [OF assms(1) order_refl] by blast
  qed
  finally show ?thesis by (simp add: zcard)
qed

text \<open>One call: what it records, and how many it had counted when it admits.\<close>

lemma CheckRateLimit_step:
  assumes "recorded (rateKey key) w off H t1 (store b)" "t1 \<le> t0" "a0 = t0 + off"
    and "\<forall>(a, m) \<in> set H. 0 \<le> a \<and> a < 2 ^ 61 \<and> a \<le> a0" "a0 < 2 ^ 61" "0 \<le> a0" "0 < w" "w < 2 ^ 53"
    and "w mod millisecond = 0" "distinct (map snd H)" "m0 \<notin> snd ` set H"
    and e: "a0 = now e ''check_rate_limit''" "t0 = redis_now e (rateCall key)"
      "m0 = FormatInt10 a0 @ '':'' @ rand36 e"
    and run: "CheckRateLimit api e key limit w b = (r, b')"
  shows "(r = Inr True \<longrightarrow> recorded (rateKey key) w off (H @ [(a0, m0)]) t0 (store b') \<and>
      int (length (filter (\<lambda>(a, m). a0 < a + w - 384) H)) < limit) \<and>
    recorded (rateKey key) w off H t0 (store b')"
proof -
  let ?k = "rateKey key"
  let ?s1 = "cmd_zremrangebyscore api t0 ?k 0 (to_double (to_double a0 - to_double w)) (store b)"
  let ?s2 = "cmd_pexpire api t0 ?k w (cmd_zadd api t0 ?k (to_double a0) m0 ?s1)"
  have H: "\<forall>(a, m) \<in> set H. 0 \<le> a \<and> a < 2 ^ 61" "\<forall>(a, m) \<in> set H. a \<le> a0" using assms(4) by auto
  have ms: "max 1 (w sdiv millisecond) * millisecond = w"
  proof -
    obtain c where c: "w = c * millisecond" using assms(9) by (metis div_mult_mod_eq add.right_neutral)
    then have "0 < c" using assms(7) by (simp add: millisecond_def)
    then show ?thesis by (simp add: c millisecond_def signed_divide_int_def sgn_if)
  qed
  have script: "rate_limit_script api t0 ?k a0 w (max 1 (w sdiv millisecond)) limit m0 (store b) =
      (if limit \<le> int (cmd_zcard api t0 ?k ?s1) then (False, ?s1) else (True, ?s2))"
    by (simp add: rate_limit_script_def Let_def ms)
  have s1: "recorded ?k w off H t0 ?s1"
    using recorded_zrem [OF assms(1-3) H(1) assms(6,5,7,8)] .
  have s2: "recorded ?k w off (H @ [(a0, m0)]) t0 ?s2"
    using recorded_zadd [OF s1 assms(11,3,7) H(2)] .
  then have s2': "recorded ?k w off H t0 ?s2" by (simp add: recorded_def)
  have b': "b' = b \<and> r \<noteq> Inr True \<or> store b' = ?s1 \<and> r \<noteq> Inr True \<or>
      store b' = ?s2 \<and> \<not> limit \<le> int (cmd_zcard api t0 ?k ?s1)"
    using run script [unfolded e(3)]
    by (auto simp: CheckRateLimit_def Let_def e(1,2) [symmetric] e(3) split: option.splits fault.splits if_splits)
  have b: "recorded ?k w off H t0 (store b)"
    using assms(1,2) by (auto simp: recorded_def)
  have "int (length (filter (\<lambda>(a, m). a0 < a + w - 384) H)) < limit" if "\<not> limit \<le> int (cmd_zcard api t0 ?k ?s1)"
    using recorded_count [OF s1 assms(10)] that assms(3) by simp
  then show ?thesis using b' s1 s2 s2' b by auto
qed

lemma admitted_window:
  assumes "recorded (rateKey key) w off H t1 (store b)"
    and "\<forall>x. int (length (filter (in_window w x) (map fst H))) \<le> limit"
    and "\<forall>(a, m) \<in> set H. 0 \<le> a \<and> a < 2 ^ 61 \<and> a \<le> t1 + off"
    and "distinct (map snd H)" "distinct (map call_member es)" "snd ` set H \<inter> call_member ` set es = {}"
    and "0 < w" "w < 2 ^ 53" "w mod millisecond = 0"
    and "sorted (map (\<lambda>e. now e ''check_rate_limit'') es)"
    and "\<forall>e \<in> set es. 0 \<le> now e ''check_rate_limit'' \<and> now e ''check_rate_limit'' < 2 ^ 61 \<and>
          now e ''check_rate_limit'' = redis_now e (rateCall key) + off \<and> t1 \<le> redis_now e (rateCall key)"
  shows "\<forall>x. int (length (filter (in_window w x) (map fst H @ admitted api key limit w es b))) \<le> limit"
  using assms
proof (induction es arbitrary: H t1 b)
  case (Cons e es)
  let ?a = "now e ''check_rate_limit''" and ?t = "redis_now e (rateCall key)"
  obtain r b' where run: "CheckRateLimit api e key limit w b = (r, b')" by fastforce
  have t: "t1 \<le> ?t" "?a = ?t + off" "0 \<le> ?a" "?a < 2 ^ 61" using Cons.prems(11) by auto
  have H: "\<forall>(a, m) \<in> set H. 0 \<le> a \<and> a < 2 ^ 61 \<and> a \<le> ?a" using Cons.prems(3) t by fastforce
  have fresh: "call_member e \<notin> snd ` set H" using Cons.prems(6) by auto
  note step = CheckRateLimit_step [OF Cons.prems(1) t(1,2) H t(4,3) Cons.prems(7-9,4) fresh refl refl
      call_member_def run]
  have later: "\<forall>f \<in> set es. ?t \<le> redis_now f (rateCall key)" using Cons.prems(10,11) t by fastforce
  show ?case
  proof (cases "r = Inr True")
    case True
    have "\<forall>x. int (length (filter (in_window w x) (map fst (H @ [(?a, call_member e)])))) \<le> limit"
      using window_bound_snoc [OF Cons.prems(2)] H step True by blast
    then have "\<forall>x. int (length (filter (in_window w x) (map fst (H @ [(?a, call_member e)]) @ admitted api key limit w es b'))) \<le> limit"
      using Cons.prems H step True later t fresh
      by (intro Cons.IH [where ?t1.0 = ?t]) (auto simp: disjoint_iff)
    then show ?thesis using run True by simp
  next
    case False
    have "\<forall>x. int (length (filter (in_window w x) (map fst H @ admitted api key limit w es b'))) \<le> limit"
      using Cons.prems H step later t by (intro Cons.IH [where ?t1.0 = ?t]) auto
    then show ?thesis using run False by simp
  qed
qed simp

end

text \<open>
  C16. Whatever the calls and however Redis fails, no window of the configured length (less the 384
  nanoseconds that Lua numbers lose) holds more admitted calls than the limit. The hypotheses: a server
  with the documented behaviour of the commands whose clock is a fixed offset from the callers' clock,
  calls in the order of their clock readings, distinct members, a window of whole milliseconds.
\<close>

theorem rate_limit_window:
  assumes "redis_server api zmap" "0 \<le> limit" "0 < window" "window < 2 ^ 53" "window mod millisecond = 0"
    and "sorted (map (\<lambda>e. now e ''check_rate_limit'') es)" "distinct (map call_member es)"
    and "\<forall>e \<in> set es. 0 \<le> now e ''check_rate_limit'' \<and> now e ''check_rate_limit'' < 2 ^ 61 \<and>
          now e ''check_rate_limit'' = redis_now e (rateCall key) + off"
  shows "int (length (filter (in_window window x) (admitted api key limit window es b))) \<le> limit"
proof -
  have "\<forall>x. int (length (filter (in_window window x) (map fst ([] :: (gotime \<times> string) list) @ admitted api key limit window es b))) \<le> limit"
    using assms(2-) by (intro redis_server.admitted_window [OF assms(1), where ?t1.0 = "- off" and off = off])
      (auto simp: redis_server.recorded_def [OF assms(1)])
  then show ?thesis by simp
qed

definition three_calls :: "env list" where
  "three_calls = [quiet_env second, quiet_env (2 * second), quiet_env (3 * second)]"

lemma rate_limit_window_witness:
  "int (length (filter (in_window minute (3 * second)) (admitted ref_api ''auth:10.0.0.1'' 2 minute three_calls
     \<lparr>store = ref_empty, published = []\<rparr>))) \<le> 2"
  by (rule rate_limit_window [OF ref.redis_server_axioms, where off = 0])
    (simp_all add: three_calls_def call_member_def FormatInt10_inj time_units)

end
