(* ===== verification/Repositories.thy ===== *)
theory Repositories
  imports Database
begin

text \<open>
  \<open>internal/repository\<close>: every method of \<open>UserRepository\<close>, \<open>RoomRepository\<close> and
  \<open>MessageRepository\<close> on the tables of \<^theory_text>\<open>Database\<close>. A method that fills in fields of its argument
  (an id, a creation time) returns the argument as it leaves it. The order of rows that the SQL leaves
  open (ties of \<open>ORDER BY\<close>, a search without one) is the insertion order.
\<close>

text \<open>\<open>LIMIT\<close> rejects a negative count.\<close>

definition sql_limit :: "int \<Rightarrow> 'a list \<Rightarrow> 'a list result" where
  "sql_limit n rows = (if n < 0 then Inl (Err ''LIMIT must not be negative'') else Inr (take (nat n) rows))"

section \<open>Users\<close>

definition insert_user :: "user \<Rightarrow> db \<Rightarrow> db result" where
  "insert_user u d =
     (if sql_exists (\<lambda>r. u_id r = u_id u \<or> u_username r = u_username u \<or> u_email r = u_email u) (t_users d)
      then Inl unique_violation
      else Inr (d\<lparr>t_users := t_users d @ [u]\<rparr>))"

definition UserRepo_Create :: "env \<Rightarrow> user \<Rightarrow> db \<Rightarrow> unit result \<times> user \<times> db" where
  "UserRepo_Create e u d =
     (let u' = u\<lparr>u_id := new_uuid e ''create_user'', u_created_at := now e ''create_user.created_at'',
                 u_updated_at := now e ''create_user.updated_at''\<rparr>;
          row = u'\<lparr>u_last_seen_at := None, u_created_at := pg_time (u_created_at u'),
                   u_updated_at := pg_time (u_updated_at u')\<rparr>;
          (r, d') = db_exec e ''create_user'' (insert_user row) d
      in (r, u', d'))"

definition UserRepo_GetByID :: "env \<Rightarrow> string \<Rightarrow> db \<Rightarrow> user result" where
  "UserRepo_GetByID e i =
     db_query e ''get_user_by_id'' (\<lambda>d. row_result (sql_row (\<lambda>r. u_id r = i) (t_users d)))"

definition UserRepo_GetByUsername :: "env \<Rightarrow> string \<Rightarrow> db \<Rightarrow> user result" where
  "UserRepo_GetByUsername e n =
     db_query e ''get_user_by_username'' (\<lambda>d. row_result (sql_row (\<lambda>r. u_username r = n) (t_users d)))"

definition UserRepo_GetByEmail :: "env \<Rightarrow> string \<Rightarrow> db \<Rightarrow> user result" where
  "UserRepo_GetByEmail e m =
     db_query e ''get_user_by_email'' (\<lambda>d. row_result (sql_row (\<lambda>r. u_email r = m) (t_users d)))"

definition update_user :: "user \<Rightarrow> db \<Rightarrow> db result" where
  "update_user u d =
     (if sql_exists (\<lambda>r. u_id r = u_id u) (t_users d) \<and>
         sql_exists (\<lambda>r. u_id r \<noteq> u_id u \<and> (u_username r = u_username u \<or> u_email r = u_email u)) (t_users d)
      then Inl unique_violation
      else Inr (d\<lparr>t_users := sql_update (\<lambda>r. u_id r = u_id u)
             (\<lambda>r. r\<lparr>u_username := u_username u, u_email := u_email u, u_display_name := u_display_name u,
                    u_avatar_url := u_avatar_url u, u_status := u_status u,
                    u_last_seen_at := map_option pg_time (u_last_seen_at u),
                    u_updated_at := pg_time (u_updated_at u), u_metadata := u_metadata u\<rparr>)
             (t_users d)\<rparr>))"

definition UserRepo_Update :: "env \<Rightarrow> user \<Rightarrow> db \<Rightarrow> unit result \<times> user \<times> db" where
  "UserRepo_Update e u d =
     (let u' = u\<lparr>u_updated_at := now e ''update_user''\<rparr>;
          (r, d') = db_exec e ''update_user'' (update_user u') d
      in (r, u', d'))"

text \<open>
  \<open>ILIKE\<close>: \<open>%\<close> stands for any text, \<open>_\<close> for one character (a UTF-8 lead byte with its continuation
  bytes), a backslash makes the next character literal. Both sides are folded by the collation of the
  database, \<^const>\<open>pg_lower\<close>. The search term is not escaped by the repository.
\<close>

definition continuation_byte :: "char \<Rightarrow> bool" where
  "continuation_byte c \<longleftrightarrow> 128 \<le> (of_char c :: nat) \<and> (of_char c :: nat) < 192"

fun like :: "string \<Rightarrow> string \<Rightarrow> bool" where
  "like [] t = (t = [])"
| "like (p # ps) t =
     (if p = CHR ''%'' then list_ex (\<lambda>i. like ps (drop i t)) [0..<length t + 1]
      else if p = CHR ''_'' then t \<noteq> [] \<and> like ps (dropWhile continuation_byte (tl t))
      else if p = CHR 0x5C then
        (case ps of [] \<Rightarrow> False | q # qs \<Rightarrow> (case t of [] \<Rightarrow> False | c # cs \<Rightarrow> c = q \<and> like qs cs))
      else (case t of [] \<Rightarrow> False | c # cs \<Rightarrow> c = p \<and> like ps cs))"

definition ilike :: "env \<Rightarrow> string \<Rightarrow> string \<Rightarrow> bool" where
  "ilike e t p = like (pg_lower e p) (pg_lower e t)"

text \<open>The search does not select the password hash.\<close>

definition UserRepo_Search :: "env \<Rightarrow> string \<Rightarrow> int \<Rightarrow> db \<Rightarrow> user list result" where
  "UserRepo_Search e q n =
     db_query e ''search_users'' (\<lambda>d. sql_limit n
       (map (\<lambda>u. u\<lparr>u_password_hash := []\<rparr>)
         (sql_select (\<lambda>u. ilike e (u_username u) (''%'' @ q @ ''%'') \<or> ilike e (u_display_name u) (''%'' @ q @ ''%''))
            (t_users d))))"

section \<open>Rooms\<close>

definition insert_room :: "room \<Rightarrow> db \<Rightarrow> db result" where
  "insert_room r d =
     (if has_room d (r_id r) then Inl unique_violation
      else if \<not> has_user d (r_created_by r) then Inl fk_violation
      else Inr (d\<lparr>t_rooms := t_rooms d @
             [r\<lparr>r_created_at := pg_time (r_created_at r), r_updated_at := pg_time (r_updated_at r),
                r_archived_at := map_option pg_time (r_archived_at r)\<rparr>]\<rparr>))"

definition RoomRepo_Create :: "env \<Rightarrow> room \<Rightarrow> db \<Rightarrow> unit result \<times> room \<times> db" where
  "RoomRepo_Create e r d =
     (let r' = r\<lparr>r_id := new_uuid e ''create_room'', r_created_at := now e ''create_room.created_at'',
                 r_updated_at := now e ''create_room.updated_at''\<rparr>;
          (res, d') = db_exec e ''create_room'' (insert_room r') d
      in (res, r', d'))"

definition member_row :: "room_member \<Rightarrow> room_member" where
  "member_row m = m\<lparr>rm_joined_at := pg_time (rm_joined_at m), rm_left_at := None,
     rm_last_read_at := pg_time (rm_last_read_at m), rm_muted_until := None, rm_banned_at := None,
     rm_ban_reason := None\<rparr>"

definition insert_member :: "room_member \<Rightarrow> db \<Rightarrow> db result" where
  "insert_member m d =
     (if sql_exists (\<lambda>r. member_key r = member_key m) (t_members d) then Inl unique_violation
      else if \<not> has_room d (rm_room_id m) \<or> \<not> has_user d (rm_user_id m) then Inl fk_violation
      else Inr (d\<lparr>t_members := t_members d @ [member_row m]\<rparr>))"

definition CreateRoomWithOwner :: "env \<Rightarrow> room \<Rightarrow> room_member \<Rightarrow> db \<Rightarrow> unit result \<times> room \<times> db" where
  "CreateRoomWithOwner e r owner d =
     (case tx_begin e ''create_room_with_owner'' of
        Some x \<Rightarrow> (Inl x, r, d)
      | None \<Rightarrow>
         let r' = r\<lparr>r_id := new_uuid e ''create_room'', r_created_at := now e ''create_room.created_at'',
                    r_updated_at := now e ''create_room.updated_at''\<rparr>
         in (case tx_exec e ''create_room_with_owner.room'' (insert_room r') d of
               Inl x \<Rightarrow> (Inl x, r', d)
             | Inr d1 \<Rightarrow>
                let m = owner\<lparr>rm_room_id := r_id r', rm_joined_at := now e ''create_room.joined_at''\<rparr>;
                    m' = (if rm_last_read_at m = zero_time
                          then m\<lparr>rm_last_read_at := now e ''create_room.last_read_at''\<rparr> else m)
                in (case tx_exec e ''create_room_with_owner.owner'' (insert_member m') d1 of
                      Inl x \<Rightarrow> (Inl x, r', d)
                    | Inr d2 \<Rightarrow> let (res, d') = tx_commit e ''create_room_with_owner'' d d2 in (res, r', d'))))"

definition RoomRepo_GetByID :: "env \<Rightarrow> string \<Rightarrow> db \<Rightarrow> room result" where
  "RoomRepo_GetByID e i =
     db_query e ''get_room_by_id''
       (\<lambda>d. row_result (sql_row (\<lambda>r. r_id r = i \<and> r_archived_at r = None) (t_rooms d)))"

definition update_room :: "room \<Rightarrow> db \<Rightarrow> db result" where
  "update_room r d = Inr (d\<lparr>t_rooms := sql_update (\<lambda>x. r_id x = r_id r)
     (\<lambda>x. x\<lparr>r_name := r_name r, r_description := r_description r, r_avatar_url := r_avatar_url r,
            r_updated_at := pg_time (r_updated_at r), r_settings := r_settings r,
            r_member_count := r_member_count r\<rparr>) (t_rooms d)\<rparr>)"

definition RoomRepo_Update :: "env \<Rightarrow> room \<Rightarrow> db \<Rightarrow> unit result \<times> room \<times> db" where
  "RoomRepo_Update e r d =
     (let r' = r\<lparr>r_updated_at := now e ''update_room''\<rparr>;
          (res, d') = db_exec e ''update_room'' (update_room r') d
      in (res, r', d'))"

definition RoomRepo_Delete :: "env \<Rightarrow> string \<Rightarrow> db \<Rightarrow> unit result \<times> db" where
  "RoomRepo_Delete e i =
     db_exec e ''delete_room'' (\<lambda>d. Inr (d\<lparr>t_rooms := sql_update (\<lambda>x. r_id x = i)
       (\<lambda>x. x\<lparr>r_archived_at := Some (pg_time (now e ''delete_room''))\<rparr>) (t_rooms d)\<rparr>))"

definition GetUserRooms :: "env \<Rightarrow> string \<Rightarrow> db \<Rightarrow> room list result" where
  "GetUserRooms e u =
     db_query e ''get_user_rooms'' (\<lambda>d. Inr (sort_key (\<lambda>r. - r_updated_at r)
       [r. r \<leftarrow> t_rooms d, m \<leftarrow> t_members d,
           r_id r = rm_room_id m \<and> rm_user_id m = u \<and> rm_left_at m = None \<and> r_archived_at r = None]))"

section \<open>Members\<close>

definition is_key :: "string \<Rightarrow> string \<Rightarrow> room_member \<Rightarrow> bool" where
  "is_key r u m \<longleftrightarrow> rm_room_id m = r \<and> rm_user_id m = u"

text \<open>
  \<open>INSERT ... ON CONFLICT DO UPDATE SET left_at = NULL, joined_at = COALESCE(joined_at, NOW())\<close>: the row
  that is there comes back with its old \<open>joined_at\<close>, role and ban (\<open>joined_at\<close> is never null).
\<close>

definition upsert_member :: "room_member \<Rightarrow> db \<Rightarrow> db result" where
  "upsert_member m d =
     (if sql_exists (is_key (rm_room_id m) (rm_user_id m)) (t_members d)
      then Inr (d\<lparr>t_members := sql_update (is_key (rm_room_id m) (rm_user_id m))
             (\<lambda>r. r\<lparr>rm_left_at := None\<rparr>) (t_members d)\<rparr>)
      else insert_member m d)"

definition RoomRepo_AddMember :: "env \<Rightarrow> room_member \<Rightarrow> db \<Rightarrow> unit result \<times> db" where
  "RoomRepo_AddMember e m = db_exec e ''add_member'' (upsert_member m)"

definition active_count :: "db \<Rightarrow> string \<Rightarrow> nat" where
  "active_count d r = sql_count (\<lambda>m. rm_room_id m = r \<and> rm_left_at m = None) (t_members d)"

text \<open>\<open>UPDATE rooms SET member_count = (SELECT COUNT(*) ...), updated_at = ... WHERE id = $1\<close>\<close>

definition recount_members :: "string \<Rightarrow> gotime \<Rightarrow> db \<Rightarrow> db result" where
  "recount_members r t d = Inr (d\<lparr>t_rooms := sql_update (\<lambda>x. r_id x = r)
     (\<lambda>x. x\<lparr>r_member_count := int (active_count d r), r_updated_at := pg_time t\<rparr>) (t_rooms d)\<rparr>)"

definition JoinRoomTx :: "env \<Rightarrow> room_member \<Rightarrow> db \<Rightarrow> unit result \<times> db" where
  "JoinRoomTx e m d =
     (case tx_begin e ''join_room_tx'' of
        Some x \<Rightarrow> (Inl x, d)
      | None \<Rightarrow>
         (case tx_exec e ''join_room_tx.member'' (upsert_member m) d of
            Inl x \<Rightarrow> (Inl x, d)
          | Inr d1 \<Rightarrow>
             (case db_query e ''join_room_tx.joined_at''
                     (\<lambda>d. row_result (sql_row (is_key (rm_room_id m) (rm_user_id m)) (t_members d))) d1 of
                Inl x \<Rightarrow> tx_commit_failed e ''join_room_tx'' d
              | Inr row \<Rightarrow>
                 (if rm_joined_at m - second < rm_joined_at row then
                    (case tx_exec e ''join_room_tx.count'' (recount_members (rm_room_id m) (now e ''join_room_tx'')) d1 of
                       Inl x \<Rightarrow> (Inl x, d)
                     | Inr d2 \<Rightarrow> tx_commit e ''join_room_tx'' d d2)
                  else tx_commit e ''join_room_tx'' d d1))))"

definition mark_left :: "string \<Rightarrow> string \<Rightarrow> gotime \<Rightarrow> db \<Rightarrow> db result" where
  "mark_left r u t d = Inr (d\<lparr>t_members := sql_update (is_key r u)
     (\<lambda>m. m\<lparr>rm_left_at := Some (pg_time t)\<rparr>) (t_members d)\<rparr>)"

definition LeaveRoomTx :: "env \<Rightarrow> string \<Rightarrow> string \<Rightarrow> db \<Rightarrow> unit result \<times> db" where
  "LeaveRoomTx e r u d =
     (case tx_begin e ''leave_room_tx'' of
        Some x \<Rightarrow> (Inl x, d)
      | None \<Rightarrow>
         (case tx_exec e ''leave_room_tx.member'' (mark_left r u (now e ''leave_room_tx'')) d of
            Inl x \<Rightarrow> (Inl x, d)
          | Inr d1 \<Rightarrow>
             (case tx_exec e ''leave_room_tx.count'' (recount_members r (db_now e)) d1 of
                Inl x \<Rightarrow> (Inl x, d)
              | Inr d2 \<Rightarrow> tx_commit e ''leave_room_tx'' d d2)))"

definition RoomRepo_RemoveMember :: "env \<Rightarrow> string \<Rightarrow> string \<Rightarrow> db \<Rightarrow> unit result \<times> db" where
  "RoomRepo_RemoveMember e r u = db_exec e ''remove_member'' (mark_left r u (now e ''remove_member''))"

definition RoomRepo_GetMembers :: "env \<Rightarrow> string \<Rightarrow> db \<Rightarrow> room_member list result" where
  "RoomRepo_GetMembers e r =
     db_query e ''get_members'' (\<lambda>d. Inr (sql_select (\<lambda>m. rm_room_id m = r \<and> rm_left_at m = None) (t_members d)))"

definition GetMemberRecord :: "env \<Rightarrow> string \<Rightarrow> string \<Rightarrow> db \<Rightarrow> room_member result" where
  "GetMemberRecord e r u =
     db_query e ''get_member_record'' (\<lambda>d. row_result (sql_row (is_key r u) (t_members d)))"

definition RoomRepo_IsMember :: "env \<Rightarrow> string \<Rightarrow> string \<Rightarrow> db \<Rightarrow> bool result" where
  "RoomRepo_IsMember e r u =
     db_query e ''is_member'' (\<lambda>d. Inr (sql_exists (\<lambda>m. is_key r u m \<and> rm_left_at m = None) (t_members d)))"

definition GetMember :: "env \<Rightarrow> string \<Rightarrow> string \<Rightarrow> db \<Rightarrow> room_member result" where
  "GetMember e r u =
     db_query e ''get_member'' (\<lambda>d. row_result (sql_row (\<lambda>m. is_key r u m \<and> rm_left_at m = None) (t_members d)))"

definition IncrementMemberCount :: "env \<Rightarrow> string \<Rightarrow> db \<Rightarrow> unit result \<times> db" where
  "IncrementMemberCount e r =
     db_exec e ''increment_member_count'' (\<lambda>d. Inr (d\<lparr>t_rooms := sql_update (\<lambda>x. r_id x = r)
       (\<lambda>x. x\<lparr>r_member_count := r_member_count x + 1, r_updated_at := pg_time (db_now e)\<rparr>) (t_rooms d)\<rparr>))"

definition DecrementMemberCount :: "env \<Rightarrow> string \<Rightarrow> db \<Rightarrow> unit result \<times> db" where
  "DecrementMemberCount e r =
     db_exec e ''decrement_member_count'' (\<lambda>d. Inr (d\<lparr>t_rooms := sql_update (\<lambda>x. r_id x = r)
       (\<lambda>x. x\<lparr>r_member_count := max (r_member_count x - 1) 0, r_updated_at := pg_time (db_now e)\<rparr>) (t_rooms d)\<rparr>))"

definition upsert_receipt :: "read_receipt \<Rightarrow> db \<Rightarrow> db result" where
  "upsert_receipt c d =
     (if sql_exists (\<lambda>x. receipt_key x = receipt_key c) (t_receipts d)
      then Inr (d\<lparr>t_receipts := sql_update (\<lambda>x. receipt_key x = receipt_key c)
             (\<lambda>x. x\<lparr>rr_message_id := rr_message_id c, rr_read_at := rr_read_at c\<rparr>) (t_receipts d)\<rparr>)
      else if \<not> has_room d (rr_room_id c) \<or> \<not> has_user d (rr_user_id c) then Inl fk_violation
      else Inr (d\<lparr>t_receipts := t_receipts d @ [c]\<rparr>))"

definition RoomRepo_MarkRead :: "env \<Rightarrow> string \<Rightarrow> string \<Rightarrow> string \<Rightarrow> db \<Rightarrow> unit result \<times> db" where
  "RoomRepo_MarkRead e r u m =
     db_exec e ''mark_read'' (upsert_receipt
       \<lparr>rr_room_id = r, rr_user_id = u, rr_message_id = m, rr_read_at = pg_time (db_now e)\<rparr>)"

section \<open>Messages\<close>

definition insert_message :: "message \<Rightarrow> db \<Rightarrow> db result" where
  "insert_message m d =
     (let row = m\<lparr>m_edited_at := map_option pg_time (m_edited_at m), m_deleted_at := map_option pg_time (m_deleted_at m),
                  m_created_at := pg_time (m_created_at m),
                  m_client_timestamp := map_option pg_time (m_client_timestamp m)\<rparr>
      in if sql_exists (\<lambda>x. message_key x = message_key row) (t_messages d) then Inl unique_violation
         else if \<not> has_user d (m_user_id m) \<or> \<not> deleter_known d row then Inl fk_violation
         else Inr (d\<lparr>t_messages := t_messages d @ [row]\<rparr>))"

definition MessageRepo_Create :: "env \<Rightarrow> message \<Rightarrow> db \<Rightarrow> unit result \<times> message \<times> db" where
  "MessageRepo_Create e m d =
     (let m' = m\<lparr>m_id := new_id e, m_created_at := now e ''create_message''\<rparr>;
          (r, d') = db_exec e ''create_message'' (insert_message m') d
      in (r, m', d'))"

definition MessageRepo_GetByID :: "env \<Rightarrow> string \<Rightarrow> db \<Rightarrow> message result" where
  "MessageRepo_GetByID e i =
     db_query e ''get_message_by_id'' (\<lambda>d. row_result (sql_row (\<lambda>m. m_id m = i) (t_messages d)))"

definition GetByRoom :: "env \<Rightarrow> string \<Rightarrow> int \<Rightarrow> gotime option \<Rightarrow> db \<Rightarrow> message list result" where
  "GetByRoom e r n before =
     db_query e ''get_messages_by_room'' (\<lambda>d. sql_limit n (sort_key (\<lambda>m. - m_created_at m)
       (case before of
          Some b \<Rightarrow> sql_select (\<lambda>m. m_room_id m = r \<and> m_created_at m < pg_time b \<and> m_deleted_at m = None) (t_messages d)
        | None \<Rightarrow> sql_select (\<lambda>m. m_room_id m = r \<and> m_deleted_at m = None) (t_messages d))))"

definition update_message :: "message \<Rightarrow> db \<Rightarrow> db result" where
  "update_message m d = Inr (d\<lparr>t_messages := sql_update (\<lambda>x. m_id x = m_id m)
     (\<lambda>x. x\<lparr>m_content := m_content m, m_edited_at := map_option pg_time (m_edited_at m),
            m_reactions := m_reactions m, m_attachments := m_attachments m, m_metadata := m_metadata m\<rparr>)
     (t_messages d)\<rparr>)"

definition MessageRepo_Update :: "env \<Rightarrow> message \<Rightarrow> db \<Rightarrow> unit result \<times> message \<times> db" where
  "MessageRepo_Update e m d =
     (let m' = m\<lparr>m_edited_at := Some (now e ''update_message'')\<rparr>;
          (r, d') = db_exec e ''update_message'' (update_message m') d
      in (r, m', d'))"

definition set_reactions :: "string \<Rightarrow> reactions option \<Rightarrow> db \<Rightarrow> db result" where
  "set_reactions i rs d = Inr (d\<lparr>t_messages := sql_update (\<lambda>x. m_id x = i) (\<lambda>x. x\<lparr>m_reactions := rs\<rparr>) (t_messages d)\<rparr>)"

definition UpdateReactions :: "env \<Rightarrow> string \<Rightarrow> reactions option \<Rightarrow> db \<Rightarrow> unit result \<times> db" where
  "UpdateReactions e i rs = db_exec e ''update_reactions'' (set_reactions i rs)"

text \<open>\<open>transform\<close> reads the row under its lock; a null or missing map becomes the empty one first.\<close>

definition UpdateReactionsTx ::
    "env \<Rightarrow> string \<Rightarrow> (reactions \<Rightarrow> reactions result) \<Rightarrow> db \<Rightarrow> unit result \<times> db" where
  "UpdateReactionsTx e i transform d =
     (case tx_begin e ''update_reactions_tx'' of
        Some x \<Rightarrow> (Inl x, d)
      | None \<Rightarrow>
         (case db_query e ''update_reactions_tx.select''
                 (\<lambda>d. row_result (sql_row (\<lambda>m. m_id m = i) (t_messages d))) d of
            Inl x \<Rightarrow> (Inl x, d)
          | Inr row \<Rightarrow>
             (case transform (case m_reactions row of None \<Rightarrow> [] | Some rs \<Rightarrow> rs) of
                Inl x \<Rightarrow> (Inl x, d)
              | Inr rs \<Rightarrow>
                 (case tx_exec e ''update_reactions_tx.update'' (set_reactions i (Some rs)) d of
                    Inl x \<Rightarrow> (Inl x, d)
                  | Inr d1 \<Rightarrow> tx_commit e ''update_reactions_tx'' d d1))))"

definition mark_deleted :: "string \<Rightarrow> gotime \<Rightarrow> string \<Rightarrow> db \<Rightarrow> db result" where
  "mark_deleted i t u d =
     (if sql_exists (\<lambda>m. m_id m = i \<and> m_deleted_at m = None) (t_messages d) \<and> \<not> has_user d u
      then Inl fk_violation
      else Inr (d\<lparr>t_messages := sql_update (\<lambda>m. m_id m = i \<and> m_deleted_at m = None)
             (\<lambda>m. m\<lparr>m_deleted_at := Some (pg_time t), m_deleted_by := Some u\<rparr>) (t_messages d)\<rparr>))"

definition MessageRepo_Delete :: "env \<Rightarrow> string \<Rightarrow> string \<Rightarrow> db \<Rightarrow> unit result \<times> db" where
  "MessageRepo_Delete e i u = db_exec e ''delete_message'' (mark_deleted i (now e ''delete_message'') u)"

definition GetThread :: "env \<Rightarrow> string \<Rightarrow> int \<Rightarrow> db \<Rightarrow> message list result" where
  "GetThread e p n =
     db_query e ''get_thread'' (\<lambda>d. sql_limit n (sort_key m_created_at
       (sql_select (\<lambda>m. m_parent_id m = Some p \<and> m_deleted_at m = None) (t_messages d))))"

end
