(* ===== verification/Integrity.thy ===== *)
theory Integrity
  imports Repositories
begin

text \<open>
  What the repositories keep of the database: \<^const>\<open>db_ok\<close> (keys are unique, references resolve),
  whatever is called, in whatever order, with whatever failures; and when \<open>member_count\<close> is the number
  of active members.
\<close>

section \<open>Keys and references\<close>

lemma distinct_map_append1 [simp]:
  "distinct (map k t @ [y]) \<longleftrightarrow> distinct (map k t) \<and> (\<forall>r \<in> set t. k r \<noteq> y)"
  by auto

text \<open>Updating the one row with key \<open>a\<close> keeps another key unique when no other row has the new value.\<close>

lemma distinct_map_update_row:
  assumes "distinct (map i t)" "distinct (map k t)" "\<And>r. k (f r) = v"
    and "\<forall>r \<in> set t. i r \<noteq> a \<longrightarrow> k r \<noteq> v"
  shows "distinct (map k (sql_update (\<lambda>r. i r = a) f t))"
  using assms
proof (induction t)
  case Nil
  then show ?case by (simp add: sql_update_def)
next
  case (Cons x t)
  have tail: "distinct (map k (sql_update (\<lambda>r. i r = a) f t))"
    using Cons by simp
  show ?case
  proof (cases "i x = a")
    case True
    then have "\<forall>r \<in> set t. i r \<noteq> a" using Cons.prems(1) by (metis distinct.simps(2) image_eqI list.set_map list.simps(9))
    then have "sql_update (\<lambda>r. i r = a) f t = t" by (auto intro: sql_update_id)
    moreover have "v \<notin> k ` set t"
      using Cons.prems(4) \<open>\<forall>r \<in> set t. i r \<noteq> a\<close> by auto
    ultimately show ?thesis using True Cons.prems by (auto simp: sql_update_def)
  next
    case False
    have "k x \<notin> k ` set (sql_update (\<lambda>r. i r = a) f t)"
      using False Cons.prems by (auto simp: set_sql_update)
    then show ?thesis using False tail by (auto simp: sql_update_def)
  qed
qed

lemma has_user_append [simp]: "has_user (d\<lparr>t_users := t_users d @ us\<rparr>) u \<longleftrightarrow> has_user d u \<or> (\<exists>x \<in> set us. u_id x = u)"
  by (auto simp: has_user_def sql_exists_iff)

lemma has_room_append [simp]: "has_room (d\<lparr>t_rooms := t_rooms d @ rs\<rparr>) r \<longleftrightarrow> has_room d r \<or> (\<exists>x \<in> set rs. r_id x = r)"
  by (auto simp: has_room_def sql_exists_iff)

lemma has_frame [simp]:
  "has_user (d\<lparr>t_rooms := a\<rparr>) u = has_user d u" "has_user (d\<lparr>t_members := b\<rparr>) u = has_user d u"
  "has_user (d\<lparr>t_messages := c\<rparr>) u = has_user d u" "has_user (d\<lparr>t_receipts := x\<rparr>) u = has_user d u"
  "has_room (d\<lparr>t_users := y\<rparr>) r = has_room d r" "has_room (d\<lparr>t_members := b\<rparr>) r = has_room d r"
  "has_room (d\<lparr>t_messages := c\<rparr>) r = has_room d r" "has_room (d\<lparr>t_receipts := x\<rparr>) r = has_room d r"
  by (simp_all add: has_user_def has_room_def)

lemma deleter_known_frame [simp]:
  "deleter_known (d\<lparr>t_rooms := a\<rparr>) m = deleter_known d m" "deleter_known (d\<lparr>t_members := b\<rparr>) m = deleter_known d m"
  "deleter_known (d\<lparr>t_messages := c\<rparr>) m = deleter_known d m" "deleter_known (d\<lparr>t_receipts := x\<rparr>) m = deleter_known d m"
  by (simp_all add: deleter_known_def split: option.splits)

lemma deleter_known_row [simp]:
  "deleter_known d (m_edited_at_update g m) = deleter_known d m"
  "deleter_known d (m_deleted_at_update g m) = deleter_known d m"
  "deleter_known d (m_created_at_update h m) = deleter_known d m"
  "deleter_known d (m_client_timestamp_update g m) = deleter_known d m"
  by (simp_all add: deleter_known_def split: option.splits)

lemma deleter_known_append [simp]: "deleter_known d m \<Longrightarrow> deleter_known (d\<lparr>t_users := t_users d @ us\<rparr>) m"
  by (simp add: deleter_known_def split: option.splits)

lemma has_user_update [simp]:
  "(\<And>r. u_id (f r) = u_id r) \<Longrightarrow> has_user (d\<lparr>t_users := sql_update p f (t_users d)\<rparr>) u = has_user d u"
  by (auto simp: has_user_def sql_exists_iff set_sql_update)

lemma has_room_update [simp]:
  "(\<And>r. r_id (f r) = r_id r) \<Longrightarrow> has_room (d\<lparr>t_rooms := sql_update p f (t_rooms d)\<rparr>) r = has_room d r"
  by (auto simp: has_room_def sql_exists_iff set_sql_update)

lemma insert_user_ok: "db_ok d \<Longrightarrow> insert_user u d = Inr d' \<Longrightarrow> db_ok d'"
  by (auto simp del: distinct_append simp: insert_user_def db_ok_def sql_exists_iff split: if_splits)

lemma update_user_ok:
  assumes ok: "db_ok d" and upd: "update_user u d = Inr d'"
  shows "db_ok d'"
proof -
  define f where "f = (\<lambda>r::user. r\<lparr>u_username := u_username u, u_email := u_email u, u_display_name := u_display_name u,
     u_avatar_url := u_avatar_url u, u_status := u_status u, u_last_seen_at := map_option pg_time (u_last_seen_at u),
     u_updated_at := pg_time (u_updated_at u), u_metadata := u_metadata u\<rparr>)"
  let ?t = "sql_update (\<lambda>r. u_id r = u_id u) f (t_users d)"
  have d': "d' = d\<lparr>t_users := ?t\<rparr>"
    using upd by (simp add: update_user_def f_def split: if_splits)
  have ids: "map u_id ?t = map u_id (t_users d)"
    by (rule map_key_update) (simp add: f_def)
  have keep: "has_user d' x = has_user d x" for x
    unfolding d' by (rule has_user_update) (simp add: f_def)
  have dist: "distinct (map u_username ?t) \<and> distinct (map u_email ?t)"
  proof (cases "sql_exists (\<lambda>r. u_id r = u_id u) (t_users d)")
    case True
    then have "\<forall>r \<in> set (t_users d). u_id r \<noteq> u_id u \<longrightarrow> u_username r \<noteq> u_username u \<and> u_email r \<noteq> u_email u"
      using upd by (auto simp: update_user_def sql_exists_iff split: if_splits)
    then show ?thesis
      using ok by (auto simp: db_ok_def f_def intro!: distinct_map_update_row)
  next
    case False
    then have "?t = t_users d" by (auto simp: sql_exists_iff intro: sql_update_id)
    then show ?thesis using ok by (simp add: db_ok_def)
  qed
  have "deleter_known d' m = deleter_known d m" for m
    by (simp add: deleter_known_def keep split: option.splits)
  then show ?thesis
    using ok ids dist keep by (simp add: db_ok_def d')
qed

lemma insert_room_ok: "db_ok d \<Longrightarrow> insert_room r d = Inr d' \<Longrightarrow> db_ok d'"
  by (auto simp del: distinct_append simp: insert_room_def db_ok_def has_room_def [of d "r_id r"] sql_exists_iff split: if_splits)

lemma update_rooms_ok:
  assumes "db_ok d" "\<And>r. r_id (f r) = r_id r" "\<And>r. r_created_by (f r) = r_created_by r"
  shows "db_ok (d\<lparr>t_rooms := sql_update p f (t_rooms d)\<rparr>)"
  using assms by (auto simp: db_ok_def map_key_update set_sql_update)

lemma recount_ok: "db_ok d \<Longrightarrow> recount_members r t d = Inr d' \<Longrightarrow> db_ok d'"
  by (auto simp: recount_members_def intro!: update_rooms_ok)

lemma update_room_ok: "db_ok d \<Longrightarrow> update_room r d = Inr d' \<Longrightarrow> db_ok d'"
  by (auto simp: update_room_def intro!: update_rooms_ok)

lemma update_members_ok:
  assumes "db_ok d" "\<And>m. member_key (f m) = member_key m"
  shows "db_ok (d\<lparr>t_members := sql_update p f (t_members d)\<rparr>)"
proof -
  have "rm_room_id (f m) = rm_room_id m \<and> rm_user_id (f m) = rm_user_id m" for m
    using assms(2) [of m] by (simp add: member_key_def)
  then show ?thesis using assms by (auto simp: db_ok_def map_key_update set_sql_update)
qed

lemma mark_left_ok: "db_ok d \<Longrightarrow> mark_left r u t d = Inr d' \<Longrightarrow> db_ok d'"
  by (auto simp: mark_left_def member_key_def intro!: update_members_ok)

lemma insert_member_ok: "db_ok d \<Longrightarrow> insert_member m d = Inr d' \<Longrightarrow> db_ok d'"
  by (auto simp del: distinct_append simp: insert_member_def db_ok_def sql_exists_iff member_key_def member_row_def split: if_splits)

lemma upsert_member_ok: "db_ok d \<Longrightarrow> upsert_member m d = Inr d' \<Longrightarrow> db_ok d'"
  by (auto simp: upsert_member_def member_key_def insert_member_ok intro!: update_members_ok split: if_splits)

lemma update_receipts_ok:
  assumes "db_ok d" "\<And>c. receipt_key (f c) = receipt_key c"
  shows "db_ok (d\<lparr>t_receipts := sql_update p f (t_receipts d)\<rparr>)"
proof -
  have "rr_room_id (f c) = rr_room_id c \<and> rr_user_id (f c) = rr_user_id c" for c
    using assms(2) [of c] by (simp add: receipt_key_def)
  then show ?thesis using assms by (auto simp: db_ok_def map_key_update set_sql_update)
qed

lemma insert_receipt_ok:
  "db_ok d \<Longrightarrow> \<forall>x \<in> set (t_receipts d). receipt_key x \<noteq> receipt_key c \<Longrightarrow> has_room d (rr_room_id c) \<Longrightarrow>
   has_user d (rr_user_id c) \<Longrightarrow> db_ok (d\<lparr>t_receipts := t_receipts d @ [c]\<rparr>)"
  by (auto simp del: distinct_append simp: db_ok_def)

lemma upsert_receipt_ok: "db_ok d \<Longrightarrow> upsert_receipt c d = Inr d' \<Longrightarrow> db_ok d'"
  by (auto simp: upsert_receipt_def sql_exists_iff receipt_key_def
      intro!: update_receipts_ok insert_receipt_ok split: if_splits)

lemma insert_message_ok: "db_ok d \<Longrightarrow> insert_message m d = Inr d' \<Longrightarrow> db_ok d'"
  by (auto simp del: distinct_append simp: insert_message_def Let_def db_ok_def sql_exists_iff split: if_splits)

lemma update_messages_ok:
  assumes "db_ok d" "\<And>m. message_key (f m) = message_key m" "\<And>m. m_user_id (f m) = m_user_id m"
    and "\<And>m. m \<in> set (t_messages d) \<Longrightarrow> p m \<Longrightarrow> deleter_known d m \<Longrightarrow> deleter_known d (f m)"
  shows "db_ok (d\<lparr>t_messages := sql_update p f (t_messages d)\<rparr>)"
  using assms by (auto simp: db_ok_def map_key_update set_sql_update)

lemma update_message_ok: "db_ok d \<Longrightarrow> update_message m d = Inr d' \<Longrightarrow> db_ok d'"
  by (auto simp: update_message_def message_key_def deleter_known_def intro!: update_messages_ok)

lemma set_reactions_ok: "db_ok d \<Longrightarrow> set_reactions i rs d = Inr d' \<Longrightarrow> db_ok d'"
  by (auto simp: set_reactions_def message_key_def deleter_known_def intro!: update_messages_ok)

lemma mark_deleted_ok: "db_ok d \<Longrightarrow> mark_deleted i t u d = Inr d' \<Longrightarrow> db_ok d'"
  by (auto simp: mark_deleted_def message_key_def deleter_known_def sql_exists_iff
      intro!: update_messages_ok split: if_splits)

lemmas stmt_ok = insert_user_ok update_user_ok insert_room_ok update_room_ok recount_ok mark_left_ok
  insert_member_ok upsert_member_ok upsert_receipt_ok insert_message_ok update_message_ok
  set_reactions_ok mark_deleted_ok

section \<open>Every write\<close>

lemma tx_commit_ok_db: "db_ok d \<Longrightarrow> db_ok c \<Longrightarrow> db_ok (snd (tx_commit e q d c))"
  by (cases "tx_commit e q d c") (auto dest!: tx_commitD)

lemma db_exec_ok_db: "db_ok d \<Longrightarrow> (\<And>d'. f d = Inr d' \<Longrightarrow> db_ok d') \<Longrightarrow> db_ok (snd (db_exec e q f d))"
  by (rule db_exec_preserves)

text \<open>The writes of the three repositories, with the environment each runs in.\<close>

datatype repo_write =
    WCreateUser user | WUpdateUser user
  | WCreateRoom room | WCreateRoomWithOwner room room_member | WUpdateRoom room | WDeleteRoom string
  | WAddMember room_member | WJoinRoomTx room_member | WLeaveRoomTx string string
  | WRemoveMember string string | WIncrement string | WDecrement string | WMarkRead string string string
  | WCreateMessage message | WUpdateMessage message | WUpdateReactions string "reactions option"
  | WUpdateReactionsTx string "reactions \<Rightarrow> reactions result" | WDeleteMessage string string

fun apply_write :: "env \<Rightarrow> repo_write \<Rightarrow> db \<Rightarrow> db" where
  "apply_write e (WCreateUser u) d = snd (snd (UserRepo_Create e u d))"
| "apply_write e (WUpdateUser u) d = snd (snd (UserRepo_Update e u d))"
| "apply_write e (WCreateRoom r) d = snd (snd (RoomRepo_Create e r d))"
| "apply_write e (WCreateRoomWithOwner r m) d = snd (snd (CreateRoomWithOwner e r m d))"
| "apply_write e (WUpdateRoom r) d = snd (snd (RoomRepo_Update e r d))"
| "apply_write e (WDeleteRoom i) d = snd (RoomRepo_Delete e i d)"
| "apply_write e (WAddMember m) d = snd (RoomRepo_AddMember e m d)"
| "apply_write e (WJoinRoomTx m) d = snd (JoinRoomTx e m d)"
| "apply_write e (WLeaveRoomTx r u) d = snd (LeaveRoomTx e r u d)"
| "apply_write e (WRemoveMember r u) d = snd (RoomRepo_RemoveMember e r u d)"
| "apply_write e (WIncrement r) d = snd (IncrementMemberCount e r d)"
| "apply_write e (WDecrement r) d = snd (DecrementMemberCount e r d)"
| "apply_write e (WMarkRead r u m) d = snd (RoomRepo_MarkRead e r u m d)"
| "apply_write e (WCreateMessage m) d = snd (snd (MessageRepo_Create e m d))"
| "apply_write e (WUpdateMessage m) d = snd (snd (MessageRepo_Update e m d))"
| "apply_write e (WUpdateReactions i rs) d = snd (UpdateReactions e i rs d)"
| "apply_write e (WUpdateReactionsTx i f) d = snd (UpdateReactionsTx e i f d)"
| "apply_write e (WDeleteMessage i u) d = snd (MessageRepo_Delete e i u d)"

lemmas exec_defs = UserRepo_Create_def UserRepo_Update_def RoomRepo_Create_def RoomRepo_Update_def
  RoomRepo_Delete_def RoomRepo_AddMember_def RoomRepo_RemoveMember_def IncrementMemberCount_def
  DecrementMemberCount_def RoomRepo_MarkRead_def MessageRepo_Create_def MessageRepo_Update_def
  UpdateReactions_def MessageRepo_Delete_def

lemmas tx_defs = CreateRoomWithOwner_def JoinRoomTx_def LeaveRoomTx_def UpdateReactionsTx_def

lemma apply_write_ok: "db_ok d \<Longrightarrow> db_ok (apply_write e w d)"
  by (cases w)
    (auto simp: exec_defs tx_defs Let_def split_beta split: option.splits sum.splits
      intro!: db_exec_ok_db tx_commit_ok_db update_rooms_ok dest!: tx_exec_ok dest: stmt_ok)

text \<open>
  Whatever the repositories are called with, in whatever order and with whatever clock readings,
  identifiers and failures (lost connections, statements whose reply is lost, failed commits): the
  database that starts empty keeps its keys unique and its references resolved. The constraints of the
  schema, which are part of the statements of this model, are what enforces it.
\<close>

theorem database_integrity: "db_ok (fold (\<lambda>(e, w). apply_write e w) ws empty_db)"
proof -
  have "db_ok (fold (\<lambda>(e, w). apply_write e w) ws d)" if "db_ok d" for d
    using that by (induction ws arbitrary: d) (auto simp: apply_write_ok)
  moreover have "db_ok empty_db"
    by (simp add: db_ok_def empty_db_def)
  ultimately show ?thesis by blast
qed

section \<open>Member counts\<close>

text \<open>The stored count of a room is the number of its active members.\<close>

definition counted :: "db \<Rightarrow> string \<Rightarrow> bool" where
  "counted d r \<longleftrightarrow> (\<forall>x \<in> set (t_rooms d). r_id x = r \<longrightarrow> r_member_count x = int (active_count d r))"

lemma count_update_row:
  assumes "distinct (map k t)" "x \<in> set t" "q x" "\<And>y. y \<in> set t \<Longrightarrow> q y \<Longrightarrow> k y = k x"
  shows "sql_count p (sql_update q f t) + (if p x then 1 else 0) = sql_count p t + (if p (f x) then 1 else 0)"
proof -
  obtain a b where t: "t = a @ x # b" using assms(2) by (meson split_list)
  have "\<not> q y" if "y \<in> set a \<union> set b" for y
    using that assms(1,4) by (auto simp: t) (metis image_eqI)+
  then have "sql_update q f a = a" "sql_update q f b = b"
    by (auto intro: sql_update_id)
  then have "sql_update q f t = a @ f x # b"
    using assms(3) by (simp add: t sql_update_def)
  then show ?thesis by (simp add: t sql_count_def)
qed

lemma member_key_row:
  assumes "db_ok d" "m \<in> set (t_members d)" "is_key r u m"
  shows "sql_row (is_key r u) (t_members d) = Some m"
proof (cases "sql_row (is_key r u) (t_members d)")
  case None
  then show ?thesis using assms by (simp add: sql_row_None_iff)
next
  case (Some y)
  then have "y \<in> set (t_members d)" "is_key r u y" by (auto dest: sql_row_SomeD)
  then have "member_key y = member_key m" using assms by (simp add: is_key_def member_key_def)
  then have "y = m"
    using assms(1,2) \<open>y \<in> set (t_members d)\<close> by (meson db_ok_def distinct_map inj_onD)
  then show ?thesis using Some by simp
qed

lemma active_count_frame [simp]: "active_count (d\<lparr>t_rooms := rs\<rparr>) r = active_count d r"
  by (simp add: active_count_def)

lemma recount_counted: "recount_members r t d = Inr d' \<Longrightarrow> counted d' r"
proof -
  assume "recount_members r t d = Inr d'"
  then have d': "d' = d\<lparr>t_rooms := sql_update (\<lambda>x. r_id x = r)
      (\<lambda>x. x\<lparr>r_member_count := int (active_count d r), r_updated_at := pg_time t\<rparr>) (t_rooms d)\<rparr>"
    by (simp add: recount_members_def)
  show ?thesis
  proof (unfold counted_def, intro ballI impI)
    fix x assume x: "x \<in> set (t_rooms d')" "r_id x = r"
    from x(1) have "x \<in> (\<lambda>y. if r_id y = r then
        y\<lparr>r_member_count := int (active_count d r), r_updated_at := pg_time t\<rparr> else y) ` set (t_rooms d)"
      by (simp add: d' sql_update_def)
    then obtain y where "x = (if r_id y = r then
        y\<lparr>r_member_count := int (active_count d r), r_updated_at := pg_time t\<rparr> else y)"
      by (rule imageE)
    then show "r_member_count x = int (active_count d' r)"
      using x(2) by (cases "r_id y = r") (simp_all add: d')
  qed
qed

lemma recount_active: "recount_members r t d = Inr d' \<Longrightarrow> active_count d' s = active_count d s"
  by (auto simp: recount_members_def)

lemma recount_members_same: "recount_members r t d = Inr d' \<Longrightarrow> t_members d' = t_members d"
  by (auto simp: recount_members_def)

lemma mark_left_active:
  assumes "db_ok d" "m \<in> set (t_members d)" "is_key r u m" "rm_left_at m = None" "mark_left r u t d = Inr d'"
  shows "active_count d r = active_count d' r + 1"
proof -
  let ?p = "\<lambda>m. rm_room_id m = r \<and> rm_left_at m = None"
  have "t_members d' = sql_update (is_key r u) (\<lambda>m. m\<lparr>rm_left_at := Some (pg_time t)\<rparr>) (t_members d)"
    using assms(5) by (auto simp: mark_left_def)
  moreover have "distinct (map member_key (t_members d))" using assms(1) by (simp add: db_ok_def)
  ultimately show ?thesis
    using count_update_row [of member_key "t_members d" m "is_key r u" ?p "\<lambda>m. m\<lparr>rm_left_at := Some (pg_time t)\<rparr>"] assms(2-4)
    by (simp add: active_count_def is_key_def member_key_def)
qed

lemma mark_left_rooms: "mark_left r u t d = Inr d' \<Longrightarrow> t_rooms d' = t_rooms d"
  by (auto simp: mark_left_def)

lemma upsert_member_rooms: "upsert_member m d = Inr d' \<Longrightarrow> t_rooms d' = t_rooms d"
  by (auto simp: upsert_member_def insert_member_def split: if_splits)

text \<open>The row that an upsert leaves: the one that was there, active again, or the new one.\<close>

lemma upsert_member_row:
  assumes ok: "db_ok d" and up: "upsert_member m d = Inr d'"
  shows "sql_row (is_key (rm_room_id m) (rm_user_id m)) (t_members d') =
    Some (case sql_row (is_key (rm_room_id m) (rm_user_id m)) (t_members d) of
            Some old \<Rightarrow> old\<lparr>rm_left_at := None\<rparr> | None \<Rightarrow> member_row m)"
proof (cases "sql_row (is_key (rm_room_id m) (rm_user_id m)) (t_members d)")
  case None
  then have "t_members d' = t_members d @ [member_row m]"
    using up by (auto simp: upsert_member_def insert_member_def sql_row_None_iff sql_exists_iff split: if_splits)
  then show ?thesis
    using None sql_row_append_miss [of "t_members d" "is_key (rm_room_id m) (rm_user_id m)" "[member_row m]"]
    by (simp add: sql_row_None_iff [symmetric]) (simp add: sql_row_def is_key_def member_row_def)
next
  case (Some old)
  have "is_key a b (r\<lparr>rm_left_at := x\<rparr>) = is_key a b r" for a b r x
    by (simp add: is_key_def)
  moreover have "t_members d' = sql_update (is_key (rm_room_id m) (rm_user_id m)) (\<lambda>r. r\<lparr>rm_left_at := None\<rparr>) (t_members d)"
    using up Some by (auto simp: upsert_member_def sql_exists_iff dest: sql_row_SomeD split: if_splits)
  ultimately show ?thesis using Some sql_row_SomeD [OF Some] by (simp add: sql_row_update_keep)
qed

lemma upsert_left_active:
  assumes "db_ok d" "x \<in> set (t_members d)" "is_key (rm_room_id m) (rm_user_id m) x" "rm_left_at x \<noteq> None"
    and "upsert_member m d = Inr d'"
  shows "active_count d' (rm_room_id m) = active_count d (rm_room_id m) + 1"
proof -
  let ?p = "\<lambda>y. rm_room_id y = rm_room_id m \<and> rm_left_at y = None"
  let ?q = "is_key (rm_room_id m) (rm_user_id m)"
  have "t_members d' = sql_update ?q (\<lambda>r. r\<lparr>rm_left_at := None\<rparr>) (t_members d)"
    using assms by (auto simp: upsert_member_def sql_exists_iff split: if_splits)
  moreover have "distinct (map member_key (t_members d))" using assms(1) by (simp add: db_ok_def)
  ultimately show ?thesis
    using count_update_row [of member_key "t_members d" x ?q ?p "\<lambda>r. r\<lparr>rm_left_at := None\<rparr>"] assms(2-4)
    by (simp add: active_count_def is_key_def member_key_def)
qed

lemma LeaveRoomTx_counted: "LeaveRoomTx e r u d = (Inr (), d') \<Longrightarrow> counted d' r"
  using recount_counted
  by (fastforce simp: LeaveRoomTx_def split: option.splits sum.splits dest!: tx_exec_ok tx_commit_ok)

lemma LeaveRoomTx_gone:
  assumes "LeaveRoomTx e r u d = (Inr (), d')"
  shows "RoomRepo_IsMember f r u d' \<noteq> Inr True"
proof -
  obtain d1 where steps: "mark_left r u (now e ''leave_room_tx'') d = Inr d1" "t_members d' = t_members d1"
    using assms
    by (auto simp: LeaveRoomTx_def split: option.splits sum.splits
        dest!: tx_exec_ok tx_commit_ok recount_members_same)
  have "\<not> sql_exists (\<lambda>m. is_key r u m \<and> rm_left_at m = None) (t_members d1)"
    using steps(1) by (auto simp: mark_left_def sql_exists_iff set_sql_update)
  then show ?thesis using steps(2) by (auto simp: RoomRepo_IsMember_def dest!: db_query_ok)
qed

text \<open>
  Leaving a room, when the transaction succeeds, takes exactly the leaver out of the active members
  and leaves the stored count of the room equal to the number of active members.
\<close>

theorem LeaveRoomTx_counts:
  assumes "db_ok d" "m \<in> set (t_members d)" "is_key r u m" "rm_left_at m = None"
    and "LeaveRoomTx e r u d = (Inr (), d')"
  shows "counted d' r \<and> active_count d r = active_count d' r + 1 \<and>
    RoomRepo_IsMember f r u d' \<noteq> Inr True"
proof -
  obtain d1 d2 where steps: "mark_left r u (now e ''leave_room_tx'') d = Inr d1"
      "recount_members r (db_now e) d1 = Inr d2" "d' = d2"
    using assms(5)
    by (auto simp: LeaveRoomTx_def split: option.splits sum.splits dest!: tx_exec_ok tx_commit_ok)
  show ?thesis
    using LeaveRoomTx_gone [OF assms(5)] recount_counted mark_left_active [OF assms(1-4) steps(1)] recount_active [OF steps(2)] steps by simp
qed

text \<open>
  A first join, when the transaction succeeds, makes the user an active member with the role it asks
  for and no ban, and leaves the stored count equal to the number of active members.
\<close>

theorem JoinRoomTx_first:
  assumes "db_ok d" "sql_row (is_key (rm_room_id m) (rm_user_id m)) (t_members d) = None"
    and "JoinRoomTx e m d = (Inr (), d')"
  shows "counted d' (rm_room_id m) \<and>
    sql_row (is_key (rm_room_id m) (rm_user_id m)) (t_members d') = Some (member_row m)"
proof -
  obtain d1 where up: "upsert_member m d = Inr d1"
    using assms(3) by (auto simp: JoinRoomTx_def split: option.splits sum.splits dest!: tx_exec_ok)
  have row: "sql_row (is_key (rm_room_id m) (rm_user_id m)) (t_members d1) = Some (member_row m)"
    using upsert_member_row [OF assms(1) up] assms(2) by simp
  have soon: "rm_joined_at m - second < rm_joined_at (member_row m)"
    using pg_time_gt [of "rm_joined_at m"] by (simp add: member_row_def second_def)
  obtain d2 where "recount_members (rm_room_id m) (now e ''join_room_tx'') d1 = Inr d2" "d' = d2"
    using assms(3) up row soon
    by (auto simp: JoinRoomTx_def tx_commit_failed_def split: option.splits sum.splits if_splits
        dest!: tx_exec_ok tx_commit_ok db_query_ok)
  then show ?thesis
    using recount_counted recount_members_same row by auto
qed

lemma JoinRoomTx_again:
  assumes "db_ok d" "sql_row (is_key (rm_room_id m) (rm_user_id m)) (t_members d) = Some old"
    and "rm_joined_at old \<le> rm_joined_at m - second" and "JoinRoomTx e m d = (Inr (), d')"
  shows "upsert_member m d = Inr d'"
proof -
  obtain d1 where up: "upsert_member m d = Inr d1"
    using assms(4) by (auto simp: JoinRoomTx_def split: option.splits sum.splits dest!: tx_exec_ok)
  have "sql_row (is_key (rm_room_id m) (rm_user_id m)) (t_members d1) = Some (old\<lparr>rm_left_at := None\<rparr>)"
    using upsert_member_row [OF assms(1) up] assms(2) by simp
  then have "d' = d1"
    using assms(3,4) up
    by (auto simp: JoinRoomTx_def tx_commit_failed_def split: option.splits sum.splits if_splits
        dest!: tx_exec_ok tx_commit_ok db_query_ok)
  then show ?thesis using up by simp
qed

text \<open>
  A member who leaves and joins again more than a second after the first join is an active member
  again, but the stored count of the room stays one below the number of active members: the upsert keeps
  the old \<open>joined_at\<close>, so the test that decides whether to recount takes the member for one that was
  there all along.
\<close>

theorem rejoin_miscounts:
  assumes "db_ok d" "m \<in> set (t_members d)" "is_key r u m" "rm_left_at m = None"
    and "LeaveRoomTx e r u d = (Inr (), d1)"
    and "is_key r u n" "rm_joined_at m \<le> rm_joined_at n - second"
    and "JoinRoomTx e' n d1 = (Inr (), d2)"
  shows "(\<exists>x \<in> set (t_members d2). is_key r u x \<and> rm_left_at x = None) \<and>
    (\<forall>x \<in> set (t_rooms d2). r_id x = r \<longrightarrow> r_member_count x = int (active_count d2 r) - 1)"
proof -
  have ok1: "db_ok d1"
    using apply_write_ok [OF assms(1), of e "WLeaveRoomTx r u"] assms(5) by simp
  obtain c where c: "mark_left r u (now e ''leave_room_tx'') d = Inr c" "t_members d1 = t_members c"
    using assms(5)
    by (auto simp: LeaveRoomTx_def recount_members_def split: option.splits sum.splits
        dest!: tx_exec_ok tx_commit_ok)
  let ?old = "m\<lparr>rm_left_at := Some (pg_time (now e ''leave_room_tx''))\<rparr>"
  have "?old \<in> set (t_members d1)" "is_key r u ?old"
    using c assms(2,3) by (auto simp: mark_left_def set_sql_update is_key_def)
  then have row: "sql_row (is_key r u) (t_members d1) = Some ?old"
    using member_key_row ok1 by blast
  have n: "rm_room_id n = r" "rm_user_id n = u" using assms(6) by (auto simp: is_key_def)
  have up: "upsert_member n d1 = Inr d2"
    using JoinRoomTx_again [OF ok1, of n ?old e' d2] row assms(7,8) by (simp add: n)
  have more: "active_count d2 r = active_count d1 r + 1"
    using upsert_left_active [OF ok1 \<open>?old \<in> set (t_members d1)\<close> _ _ up] \<open>is_key r u ?old\<close> by (simp add: n)
  have "sql_row (is_key r u) (t_members d2) = Some (?old\<lparr>rm_left_at := None\<rparr>)"
    using upsert_member_row [OF ok1 up] row by (simp add: n)
  from sql_row_SomeD [OF this] have "\<exists>x \<in> set (t_members d2). is_key r u x \<and> rm_left_at x = None"
    by force
  moreover have "counted d1 r" using LeaveRoomTx_counted assms(5) by blast
  ultimately show ?thesis
    using more upsert_member_rooms [OF up] by (auto simp: counted_def)
qed

section \<open>A small database\<close>

text \<open>
  Two users, one room that both have joined, the first as its owner, and a message: the concrete input of
  the examples below and in the theories of the services.
\<close>

definition sample_user :: "string \<Rightarrow> user" where
  "sample_user n = \<lparr>u_id = n, u_username = n, u_email = n @ ''@x.org'', u_password_hash = ''h'', u_display_name = n,
     u_avatar_url = [], u_status = ''offline'', u_last_seen_at = None, u_created_at = 0, u_updated_at = 0,
     u_metadata = []\<rparr>"

definition sample_room :: room where
  "sample_room = \<lparr>r_id = ''r1'', r_name = ''lounge'', r_type = ''group'', r_description = [], r_avatar_url = [],
     r_created_by = ''ann'', r_created_at = 0, r_updated_at = 0, r_archived_at = None,
     r_settings = \<lparr>AllowReactions = True, AllowThreads = True, MessageRetention = 0, SlowModeSeconds = 0,
       RequireApproval = False, OnlyAdminsCanPost = False\<rparr>, r_member_count = 2\<rparr>"

definition sample_member :: "string \<Rightarrow> member_role \<Rightarrow> gotime \<Rightarrow> room_member" where
  "sample_member u r t = \<lparr>rm_room_id = ''r1'', rm_user_id = u, rm_role = r, rm_joined_at = t, rm_left_at = None,
     rm_last_read_at = t, rm_muted_until = None, rm_banned_at = None, rm_ban_reason = None,
     rm_notifications = \<lparr>Enabled = True, MentionsOnly = False, Sound = True\<rparr>\<rparr>"

definition sample_message :: message where
  "sample_message = \<lparr>m_id = ''41'', m_room_id = ''r1'', m_user_id = ''bob'', m_content = ''hello'',
     m_content_type = ContentTypeText, m_parent_id = None, m_thread_count = 0, m_edited_at = None,
     m_deleted_at = None, m_deleted_by = None, m_reactions = None, m_attachments = None,
     m_metadata = \<lparr>md_client_id = [], md_reply_to = None, md_forwarded_from = None, md_custom_data = None\<rparr>,
     m_created_at = 0, m_client_timestamp = None\<rparr>"

definition sample_db :: db where
  "sample_db = \<lparr>t_users = [sample_user ''ann'', sample_user ''bob'', sample_user ''eve''], t_rooms = [sample_room],
     t_members = [sample_member ''ann'' RoleOwner 0, sample_member ''bob'' RoleMember 0],
     t_messages = [sample_message], t_receipts = []\<rparr>"

lemmas sample_defs = sample_db_def sample_user_def sample_room_def sample_member_def sample_message_def

lemma sample_db_ok: "db_ok sample_db"
  by (simp add: db_ok_def sample_defs has_user_def has_room_def sql_exists_def member_key_def message_key_def
      receipt_key_def deleter_known_def)

lemmas sql_eval = sql_exists_def sql_row_def sql_update_def sql_select_def sql_count_def

lemma bob_leaves:
  "LeaveRoomTx (quiet_env t) ''r1'' ''bob'' sample_db =
     (Inr (), sample_db\<lparr>
       t_rooms := [sample_room\<lparr>r_member_count := 1, r_updated_at := pg_time t\<rparr>],
       t_members := [sample_member ''ann'' RoleOwner 0,
                     (sample_member ''bob'' RoleMember 0)\<lparr>rm_left_at := Some (pg_time t)\<rparr>]\<rparr>)"
  by (simp add: LeaveRoomTx_def mark_left_def recount_members_def active_count_def sql_eval is_key_def sample_defs)

lemma LeaveRoomTx_counts_witness:
  "\<exists>d'. LeaveRoomTx (quiet_env 7000) ''r1'' ''bob'' sample_db = (Inr (), d') \<and> counted d' ''r1'' \<and>
     active_count sample_db ''r1'' = active_count d' ''r1'' + 1"
proof -
  have "sample_member ''bob'' RoleMember 0 \<in> set (t_members sample_db)"
      "is_key ''r1'' ''bob'' (sample_member ''bob'' RoleMember 0)" "rm_left_at (sample_member ''bob'' RoleMember 0) = None"
    by (simp_all add: sample_defs is_key_def)
  from LeaveRoomTx_counts [OF sample_db_ok this bob_leaves [of 7000]] bob_leaves [of 7000] show ?thesis by blast
qed

lemma eve_joins_tx: "\<exists>d'. JoinRoomTx (quiet_env 7000) (sample_member ''eve'' RoleMember 7000) sample_db = (Inr (), d')"
  by (simp add: JoinRoomTx_def upsert_member_def insert_member_def recount_members_def sql_eval is_key_def
      sample_defs member_key_def member_row_def row_result_def second_def pg_time_def has_user_def has_room_def)

lemma JoinRoomTx_first_witness:
  "\<exists>d'. JoinRoomTx (quiet_env 7000) (sample_member ''eve'' RoleMember 7000) sample_db = (Inr (), d') \<and>
     counted d' ''r1'' \<and> sql_row (is_key ''r1'' ''eve'') (t_members d') = Some (sample_member ''eve'' RoleMember 7000)"
proof -
  let ?m = "sample_member ''eve'' RoleMember 7000"
  obtain d' where run: "JoinRoomTx (quiet_env 7000) ?m sample_db = (Inr (), d')" using eve_joins_tx by blast
  have m: "rm_room_id ?m = ''r1''" "rm_user_id ?m = ''eve''" "member_row ?m = ?m"
    by (simp_all add: sample_member_def member_row_def pg_time_def)
  have "sql_row (is_key (rm_room_id ?m) (rm_user_id ?m)) (t_members sample_db) = None"
    by (simp add: sql_row_def is_key_def sample_db_def sample_member_def)
  from JoinRoomTx_first [OF sample_db_ok this run] run show ?thesis by (auto simp: m)
qed

lemma rejoin_miscounts_witness:
  "\<exists>d1 d2. LeaveRoomTx (quiet_env 7000) ''r1'' ''bob'' sample_db = (Inr (), d1) \<and>
     JoinRoomTx (quiet_env 2000000000) (sample_member ''bob'' RoleMember 2000000000) d1 = (Inr (), d2) \<and>
     (\<forall>x \<in> set (t_rooms d2). r_id x = ''r1'' \<longrightarrow> r_member_count x = int (active_count d2 ''r1'') - 1)"
proof -
  let ?m = "sample_member ''bob'' RoleMember 0" and ?n = "sample_member ''bob'' RoleMember 2000000000"
  let ?d1 = "sample_db\<lparr>t_rooms := [sample_room\<lparr>r_member_count := 1, r_updated_at := pg_time 7000\<rparr>],
      t_members := [sample_member ''ann'' RoleOwner 0,
        (sample_member ''bob'' RoleMember 0)\<lparr>rm_left_at := Some (pg_time 7000)\<rparr>]\<rparr>"
  let ?d2 = "snd (JoinRoomTx (quiet_env 2000000000) ?n ?d1)"
  have leave: "LeaveRoomTx (quiet_env 7000) ''r1'' ''bob'' sample_db = (Inr (), ?d1)"
    by (simp add: bob_leaves)
  have rejoin: "JoinRoomTx (quiet_env 2000000000) ?n ?d1 = (Inr (), ?d2)"
    by (simp add: JoinRoomTx_def upsert_member_def sql_eval is_key_def sample_defs
        row_result_def second_def)
  have "?m \<in> set (t_members sample_db)" "is_key ''r1'' ''bob'' ?m" "rm_left_at ?m = None" "is_key ''r1'' ''bob'' ?n"
      "rm_joined_at ?m \<le> rm_joined_at ?n - second"
    by (simp_all add: sample_defs is_key_def second_def)
  from rejoin_miscounts [OF sample_db_ok this(1-3) leave this(4,5) rejoin] leave rejoin show ?thesis by blast
qed

end
