(* ===== verification/World.thy ===== *)
theory World
  imports Integrity Redis_PubSub
begin

text \<open>
  The state that the services share: the database, the bus (Redis and what was published) and the
  in-memory dedup map of the message service; and the facts about members and rooms that its queries
  establish.
\<close>

section \<open>State\<close>

type_synonym dedup_entry = "string \<times> gotime"

record 'r world =
  w_db :: db
  w_bus :: "'r bus"
  w_dedup :: "string \<rightharpoonup> dedup_entry"

text \<open>A call of the database layer, of the bus, inside a world.\<close>

definition on_db :: "(db \<Rightarrow> 'a \<times> db) \<Rightarrow> 'r world \<Rightarrow> 'a \<times> 'r world" where
  "on_db f w = (let (r, d) = f (w_db w) in (r, w\<lparr>w_db := d\<rparr>))"

definition on_bus :: "('r bus \<Rightarrow> 'a \<times> 'r bus) \<Rightarrow> 'r world \<Rightarrow> 'a \<times> 'r world" where
  "on_bus f w = (let (r, b) = f (w_bus w) in (r, w\<lparr>w_bus := b\<rparr>))"

text \<open>\<open>if s.pubsub != nil { _ = s.pubsub.Publish(...) }\<close>\<close>

definition publish_room :: "'r redis_api option \<Rightarrow> env \<Rightarrow> string \<Rightarrow> json \<Rightarrow> 'r world \<Rightarrow> 'r world" where
  "publish_room ps e room msg w =
     (case ps of None \<Rightarrow> w | Some _ \<Rightarrow> snd (on_bus (Publish e (''ws:room:'' @ room) msg) w))"

section \<open>Frames\<close>

lemma on_db_simps [simp]:
  "w_db (snd (on_db f w)) = snd (f (w_db w))" "fst (on_db f w) = fst (f (w_db w))"
  "w_bus (snd (on_db f w)) = w_bus w" "w_dedup (snd (on_db f w)) = w_dedup w"
  by (simp_all add: on_db_def split_beta)

lemma on_db_eq: "on_db f w = (r, w') \<longleftrightarrow> r = fst (f (w_db w)) \<and> w' = w\<lparr>w_db := snd (f (w_db w))\<rparr>"
  by (auto simp: on_db_def split_beta)

lemma publish_room_frame [simp]:
  "w_db (publish_room ps e r j w) = w_db w" "w_dedup (publish_room ps e r j w) = w_dedup w"
  "store (w_bus (publish_room ps e r j w)) = store (w_bus w)"
  by (auto simp: publish_room_def on_bus_def split_beta split: option.splits)

text \<open>A message goes out at most once: the channel can fail, and then nobody is told.\<close>

lemma publish_room_log:
  "published (w_bus (publish_room ps e r j w)) = published (w_bus w) \<or>
   published (w_bus (publish_room ps e r j w)) = published (w_bus w) @ [(''ws:room:'' @ r, j)]"
  by (auto simp: publish_room_def on_bus_def Publish_def split_beta split: option.splits fault.splits)

lemma publish_room_delivers:
  "no_faults e \<Longrightarrow> published (w_bus (publish_room (Some api) e r j w)) = published (w_bus w) @ [(''ws:room:'' @ r, j)]"
  by (simp add: publish_room_def on_bus_def Publish_def split_beta)

section \<open>Members and rooms\<close>

definition active_member :: "db \<Rightarrow> string \<Rightarrow> string \<Rightarrow> bool" where
  "active_member d r u \<longleftrightarrow> (\<exists>x \<in> set (t_members d). is_key r u x \<and> rm_left_at x = None)"

definition open_room :: "db \<Rightarrow> string \<Rightarrow> bool" where
  "open_room d r \<longleftrightarrow> (\<exists>x \<in> set (t_rooms d). r_id x = r \<and> r_archived_at x = None)"

lemma IsMember_True: "RoomRepo_IsMember e r u d = Inr True \<Longrightarrow> active_member d r u"
  by (auto simp: RoomRepo_IsMember_def active_member_def sql_exists_iff dest!: db_query_ok)

lemma GetByID_open: "RoomRepo_GetByID e r d = Inr x \<Longrightarrow> open_room d r"
  by (auto simp: RoomRepo_GetByID_def open_room_def dest!: db_query_ok sql_row_SomeD)

lemma GetByID_row: "MessageRepo_GetByID e i d = Inr m \<Longrightarrow> m \<in> set (t_messages d) \<and> m_id m = i"
  by (auto simp: MessageRepo_GetByID_def dest!: db_query_ok sql_row_SomeD)

section \<open>A small world\<close>

definition sample_world :: "ref_redis world" where
  "sample_world = \<lparr>w_db = sample_db, w_bus = \<lparr>store = ref_empty, published = []\<rparr>, w_dedup = Map.empty\<rparr>"

lemma sample_world_simps [simp]:
  "w_db sample_world = sample_db" "w_bus sample_world = \<lparr>store = ref_empty, published = []\<rparr>"
  by (simp_all add: sample_world_def)

end
