(* ===== verification/Room_Service.thy ===== *)
theory Room_Service
  imports World
begin

text \<open>
  \<open>internal/service/room_service.go\<close>: rooms and membership over the room repository, with the rooms
  cached in Redis. \<open>cache\<close> and \<open>ps\<close> are the \<open>redisCache\<close> and the pub/sub of the service, \<^const>\<open>None\<close>
  for a nil interface.
\<close>

section \<open>The service\<close>

definition room_key :: "string \<Rightarrow> string" where
  "room_key r = ''room:'' @ r"

text \<open>\<open>if s.redisCache != nil { _ = s.redisCache.Del(ctx, "room:"+id) }\<close>\<close>

definition forget_room :: "'r redis_api option \<Rightarrow> env \<Rightarrow> string \<Rightarrow> 'r world \<Rightarrow> 'r world" where
  "forget_room cache e r w =
     (case cache of None \<Rightarrow> w | Some api \<Rightarrow> snd (on_bus (cache_del api e (room_key r)) w))"

definition RoomService_Create ::
    "env \<Rightarrow> string \<Rightarrow> room_type \<Rightarrow> string \<Rightarrow> string \<Rightarrow> 'r world \<Rightarrow> room result \<times> 'r world" where
  "RoomService_Create e name type descr created_by w =
     (let room = \<lparr>r_id = [], r_name = name, r_type = room_type_text type, r_description = descr, r_avatar_url = [],
            r_created_by = created_by, r_created_at = zero_time, r_updated_at = zero_time, r_archived_at = None,
            r_settings = \<lparr>AllowReactions = True, AllowThreads = True, MessageRetention = 0, SlowModeSeconds = 0,
              RequireApproval = False, OnlyAdminsCanPost = False\<rparr>,
            r_member_count = 1\<rparr>;
          owner = \<lparr>rm_room_id = [], rm_user_id = created_by, rm_role = RoleOwner, rm_joined_at = now e ''create.joined_at'',
            rm_left_at = None, rm_last_read_at = zero_time, rm_muted_until = None, rm_banned_at = None,
            rm_ban_reason = None, rm_notifications = \<lparr>Enabled = True, MentionsOnly = False, Sound = True\<rparr>\<rparr>
      in case on_db (\<lambda>d. let (r, x, d') = CreateRoomWithOwner e room owner d in ((r, x), d')) w of
           ((Inl x, _), w1) \<Rightarrow> (Inl x, w1)
         | ((Inr _, room'), w1) \<Rightarrow> (Inr room', w1))"

definition RoomService_GetByID ::
    "'r redis_api option \<Rightarrow> env \<Rightarrow> string \<Rightarrow> 'r world \<Rightarrow> room result \<times> 'r world" where
  "RoomService_GetByID cache e r w =
     (case (case cache of None \<Rightarrow> Inl (Err ''no cache'') | Some api \<Rightarrow> GetObject api e room_of_json (room_key r) (w_bus w)) of
        Inr cached \<Rightarrow> (Inr cached, w)
      | Inl _ \<Rightarrow>
         (case RoomRepo_GetByID e r (w_db w) of
            Inl x \<Rightarrow> (Inl x, w)
          | Inr room \<Rightarrow>
             (Inr room, (case cache of None \<Rightarrow> w
                | Some api \<Rightarrow> snd (on_bus (SetObject api e (room_key r) (room_json room) (5 * minute)) w)))))"

definition RoomService_GetUserRooms :: "env \<Rightarrow> string \<Rightarrow> 'r world \<Rightarrow> room list result" where
  "RoomService_GetUserRooms e u w = GetUserRooms e u (w_db w)"

definition RoomService_Update :: "'r redis_api option \<Rightarrow> env \<Rightarrow> room \<Rightarrow> 'r world \<Rightarrow> unit result \<times> 'r world" where
  "RoomService_Update cache e room w =
     (case on_db (\<lambda>d. let (r, _, d') = RoomRepo_Update e room d in (r, d')) w of
        (Inl x, w1) \<Rightarrow> (Inl x, w1)
      | (Inr _, w1) \<Rightarrow> (Inr (), forget_room cache e (r_id room) w1))"

definition RoomService_Delete :: "'r redis_api option \<Rightarrow> env \<Rightarrow> string \<Rightarrow> 'r world \<Rightarrow> unit result \<times> 'r world" where
  "RoomService_Delete cache e r w =
     (case on_db (RoomRepo_Delete e r) w of
        (Inl x, w1) \<Rightarrow> (Inl x, w1)
      | (Inr _, w1) \<Rightarrow> (Inr (), forget_room cache e r w1))"

text \<open>A new membership, as \<open>AddMember\<close> and \<open>JoinRoom\<close> build it.\<close>

definition new_member :: "env \<Rightarrow> string \<Rightarrow> string \<Rightarrow> string \<Rightarrow> member_role \<Rightarrow> room_member" where
  "new_member e q r u role = \<lparr>rm_room_id = r, rm_user_id = u, rm_role = role, rm_joined_at = now e (q @ ''.joined_at''),
     rm_left_at = None, rm_last_read_at = now e (q @ ''.last_read_at''), rm_muted_until = None, rm_banned_at = None,
     rm_ban_reason = None, rm_notifications = \<lparr>Enabled = True, MentionsOnly = False, Sound = True\<rparr>\<rparr>"

definition RoomService_AddMember ::
    "'r redis_api option \<Rightarrow> env \<Rightarrow> string \<Rightarrow> string \<Rightarrow> member_role \<Rightarrow> 'r world \<Rightarrow> unit result \<times> 'r world" where
  "RoomService_AddMember cache e r u role w =
     (case on_db (RoomRepo_AddMember e (new_member e ''add_member'' r u role)) w of
        (Inl x, w1) \<Rightarrow> (Inl x, w1)
      | (Inr _, w1) \<Rightarrow> (Inr (), forget_room cache e r w1))"

definition RoomService_RemoveMember ::
    "'r redis_api option \<Rightarrow> env \<Rightarrow> string \<Rightarrow> string \<Rightarrow> 'r world \<Rightarrow> unit result \<times> 'r world" where
  "RoomService_RemoveMember cache e r u w =
     (case on_db (RoomRepo_RemoveMember e r u) w of
        (Inl x, w1) \<Rightarrow> (Inl x, w1)
      | (Inr _, w1) \<Rightarrow> (Inr (), forget_room cache e r w1))"

definition RoomService_GetMembers :: "env \<Rightarrow> string \<Rightarrow> 'r world \<Rightarrow> room_member list result" where
  "RoomService_GetMembers e r w = RoomRepo_GetMembers e r (w_db w)"

definition RoomService_IsMember :: "env \<Rightarrow> string \<Rightarrow> string \<Rightarrow> 'r world \<Rightarrow> bool result" where
  "RoomService_IsMember e r u w = RoomRepo_IsMember e r u (w_db w)"

text \<open>
  \<open>JoinRoom\<close>. \<open>GetMember\<close> returns rows with \<open>left_at IS NULL\<close> only, so the test of \<open>member.LeftAt\<close>
  can only succeed for such a row; it is kept as it is written.
\<close>

datatype join_plan = Refuse err | Already | Rejoin

definition plan_join :: "env \<Rightarrow> string \<Rightarrow> string \<Rightarrow> db \<Rightarrow> join_plan" where
  "plan_join e r u d =
     (case RoomRepo_GetByID e r d of
        Inl _ \<Rightarrow> Refuse ErrRoomNotFound
      | Inr _ \<Rightarrow>
         (case GetMember e r u d of
            Inr member \<Rightarrow>
             (if rm_banned_at member \<noteq> None then Refuse ErrUserBanned
              else if rm_left_at member = None then Already
              else Rejoin)
          | Inl _ \<Rightarrow>
             (case GetMemberRecord e r u d of
                Inr record \<Rightarrow> if rm_banned_at record \<noteq> None then Refuse ErrUserBanned else Rejoin
              | Inl _ \<Rightarrow> Rejoin)))"

definition subscribe_room :: "'r redis_api option \<Rightarrow> env \<Rightarrow> string \<Rightarrow> string \<Rightarrow> 'r world \<Rightarrow> 'r world" where
  "subscribe_room ps e r u w =
     (case ps of None \<Rightarrow> w | Some api \<Rightarrow> snd (on_bus (SubscribeToRoom api e r u) w))"

definition JoinRoom ::
    "'r redis_api option \<Rightarrow> 'r redis_api option \<Rightarrow> env \<Rightarrow> string \<Rightarrow> string \<Rightarrow> 'r world \<Rightarrow> unit result \<times> 'r world" where
  "JoinRoom cache ps e r u w =
     (case plan_join e r u (w_db w) of
        Refuse x \<Rightarrow> (Inl x, w)
      | Already \<Rightarrow> (Inr (), w)
      | Rejoin \<Rightarrow>
         (case on_db (JoinRoomTx e (new_member e ''join_room'' r u RoleMember)) w of
            (Inl x, w1) \<Rightarrow> (Inl x, w1)
          | (Inr _, w1) \<Rightarrow> (Inr (), subscribe_room ps e r u (forget_room cache e r w1))))"

definition LeaveRoom ::
    "'r redis_api option \<Rightarrow> 'r redis_api option \<Rightarrow> env \<Rightarrow> string \<Rightarrow> string \<Rightarrow> 'r world \<Rightarrow> unit result \<times> 'r world" where
  "LeaveRoom cache ps e r u w =
     (case GetMember e r u (w_db w) of
        Inl _ \<Rightarrow> (Inl (Err ''not a member of this room''), w)
      | Inr _ \<Rightarrow>
         (case on_db (LeaveRoomTx e r u) w of
            (Inl x, w1) \<Rightarrow> (Inl x, w1)
          | (Inr _, w1) \<Rightarrow>
             (Inr (), (case ps of None \<Rightarrow> forget_room cache e r w1
                | Some api \<Rightarrow> snd (on_bus (UnsubscribeFromRoom api e r u) (forget_room cache e r w1))))))"

definition RoomService_MarkRead :: "env \<Rightarrow> string \<Rightarrow> string \<Rightarrow> string \<Rightarrow> 'r world \<Rightarrow> unit result \<times> 'r world" where
  "RoomService_MarkRead e r u m w =
     (case RoomRepo_IsMember e r u (w_db w) of
        Inl x \<Rightarrow> (Inl x, w)
      | Inr False \<Rightarrow> (Inl (Err ''not a member of this room''), w)
      | Inr True \<Rightarrow> on_db (RoomRepo_MarkRead e r u m) w)"

end
