(* ===== verification/Room_Properties.thy ===== *)
theory Room_Properties
  imports Room_Service
begin

text \<open>
  Who gets into a room and out of it, and that the cache of rooms agrees with the database.
\<close>

section \<open>Frames\<close>

lemma forget_room_frame [simp]:
  "w_db (forget_room cache e r w) = w_db w" "published (w_bus (forget_room cache e r w)) = published (w_bus w)"
  by (auto simp: forget_room_def on_bus_def cache_del_def del_key_def split_beta split: option.splits)

lemma subscribe_room_frame [simp]: "w_db (subscribe_room ps e r u w) = w_db w"
  by (auto simp: subscribe_room_def on_bus_def split_beta split: option.splits)

section \<open>Joining and leaving\<close>

lemma JoinRoomTx_members:
  assumes "JoinRoomTx e m d = (Inr (), d')"
  obtains d1 where "upsert_member m d = Inr d1" "t_members d' = t_members d1"
  using assms
  by (auto simp: JoinRoomTx_def tx_commit_failed_def split: option.splits sum.splits if_splits
      dest!: tx_exec_ok tx_commit_ok recount_members_same)

lemma JoinRoomTx_active:
  assumes "db_ok d" "JoinRoomTx e m d = (Inr (), d')"
  shows "active_member d' (rm_room_id m) (rm_user_id m)"
proof -
  obtain d1 where up: "upsert_member m d = Inr d1" and mem: "t_members d' = t_members d1"
    using assms(2) by (rule JoinRoomTx_members)
  obtain x where x: "sql_row (is_key (rm_room_id m) (rm_user_id m)) (t_members d1) = Some x" "rm_left_at x = None"
    using upsert_member_row [OF assms(1) up] by (auto simp: member_row_def split: option.splits)
  then show ?thesis using sql_row_SomeD [OF x(1)] mem by (auto simp: active_member_def)
qed

lemma plan_open: "(\<And>x. plan_join e r u d \<noteq> Refuse x) \<Longrightarrow> open_room d r"
  by (cases "RoomRepo_GetByID e r d") (auto simp: plan_join_def intro: GetByID_open)

lemma GetMember_row:
  assumes "db_ok d" "x \<in> set (t_members d)" "is_key r u x" "GetMember e r u d = Inr m"
  shows "m = x \<and> rm_left_at m = None"
proof -
  have "m \<in> set (t_members d)" "is_key r u m" "rm_left_at m = None"
    using assms(4) by (auto simp: GetMember_def dest!: db_query_ok sql_row_SomeD)
  then show ?thesis
    using member_key_row [OF assms(1), of m r u] member_key_row [OF assms(1-3)] by simp
qed

lemma plan_already: "plan_join e r u d = Already \<Longrightarrow> active_member d r u"
  by (auto simp: plan_join_def GetMember_def active_member_def dest!: db_query_ok sql_row_SomeD split: sum.splits if_splits)

text \<open>
  Joining, when it succeeds, happens in a room that exists and is not archived, and makes the user an
  active member of it; a user who already is one stays one and nothing is written.
\<close>

theorem JoinRoom_joins:
  assumes "db_ok (w_db w)" "JoinRoom cache ps e r u w = (Inr (), w')"
  shows "open_room (w_db w) r \<and> active_member (w_db w') r u \<and>
    (plan_join e r u (w_db w) = Already \<longrightarrow> w' = w)"
proof (cases "plan_join e r u (w_db w)")
  case (Refuse x)
  then show ?thesis using assms by (simp add: JoinRoom_def)
next
  case Already
  then have "w' = w" "open_room (w_db w) r" "active_member (w_db w) r u"
    using assms plan_open [of e r u "w_db w"] plan_already [of e r u "w_db w"] by (simp_all add: JoinRoom_def)
  then show ?thesis by simp
next
  case Rejoin
  then have tx: "JoinRoomTx e (new_member e ''join_room'' r u RoleMember) (w_db w) = (Inr (), w_db w')"
    using assms by (auto simp: JoinRoom_def on_db_def split_beta prod_eq_iff split: sum.splits)
  have "open_room (w_db w) r" using Rejoin plan_open [of e r u "w_db w"] by simp
  then show ?thesis using JoinRoomTx_active [OF assms(1) tx] Rejoin by (simp add: new_member_def)
qed

text \<open>
  C35. A user whose membership record carries a ban cannot join, whether or not the user has left the room
  since, as long as the lookup of the record succeeds; nothing is written.
\<close>

theorem banned_cannot_join:
  assumes "db_ok (w_db w)" "x \<in> set (t_members (w_db w))" "is_key r u x" "rm_banned_at x \<noteq> None"
    and "db_fault e ''get_member_record'' = None"
  shows "\<exists>y. JoinRoom cache ps e r u w = (Inl y, w)"
proof -
  have row: "sql_row (is_key r u) (t_members (w_db w)) = Some x"
    using member_key_row assms(1-3) by blast
  then have rcd: "GetMemberRecord e r u (w_db w) = Inr x"
    using assms(5) by (simp add: GetMemberRecord_def db_query_def)
  note member = GetMember_row [OF assms(1-3)]
  have "\<exists>y. plan_join e r u (w_db w) = Refuse y"
    using rcd member assms(4) by (auto simp: plan_join_def split: sum.splits)
  then show ?thesis by (auto simp: JoinRoom_def)
qed

text \<open>
  The ban check fails open: when the lookup of the record of a banned user who has left fails, the user
  is let in.
\<close>

theorem ban_check_fails_open:
  assumes "db_ok (w_db w)" "open_room (w_db w) r" "x \<in> set (t_members (w_db w))" "is_key r u x"
    and "rm_banned_at x \<noteq> None" "rm_left_at x \<noteq> None"
    and "db_fault e = (\<lambda>q. if q = ''get_member_record'' then Some (Rejected (Err ''timeout'')) else None)"
  shows "\<exists>w'. JoinRoom cache ps e r u w = (Inr (), w') \<and> active_member (w_db w') r u"
proof -
  let ?m = "new_member e ''join_room'' r u RoleMember"
  obtain y where "sql_row (\<lambda>z. r_id z = r \<and> r_archived_at z = None) (t_rooms (w_db w)) = Some y"
    using assms(2) by (metis (mono_tags, lifting) not_None_eq open_room_def sql_row_None_iff)
  then have room: "RoomRepo_GetByID e r (w_db w) = Inr y"
    by (simp add: RoomRepo_GetByID_def db_query_def assms(7))
  have "\<not> is_ok (GetMember e r u (w_db w))"
    using GetMember_row [OF assms(1,3,4)] assms(6) by (auto simp: is_ok_iff)
  moreover have "\<not> is_ok (GetMemberRecord e r u (w_db w))"
    by (simp add: GetMemberRecord_def db_query_def assms(7) is_ok_iff)
  ultimately have plan: "plan_join e r u (w_db w) = Rejoin"
    using room by (auto simp: plan_join_def is_ok_iff split: sum.splits)
  have n: "rm_room_id ?m = r" "rm_user_id ?m = u" by (simp_all add: new_member_def)
  have "sql_exists (is_key r u) (t_members (w_db w))" using assms(3,4) by (auto simp: sql_exists_iff)
  then obtain d1 where up: "upsert_member ?m (w_db w) = Inr d1" by (auto simp: upsert_member_def n)
  from upsert_member_row [OF assms(1) up] have "\<exists>z. sql_row (is_key r u) (t_members d1) = Some z" by (simp add: n)
  then obtain z where z: "sql_row (is_key r u) (t_members d1) = Some z" ..
  have q: "db_fault e (''join_room_tx'' @ s) = None" for s by (simp add: assms(7))
  have "\<exists>d'. JoinRoomTx e ?m (w_db w) = (Inr (), d')"
    using q [of "''.begin''"] q [of "''.member''"] q [of "''.joined_at''"] q [of "''.count''"] q [of "''.commit''"]
    by (auto simp: JoinRoomTx_def tx_begin_def tx_exec_def db_query_def tx_commit_def up z n recount_members_def row_result_def)
  then obtain d' where tx: "JoinRoomTx e ?m (w_db w) = (Inr (), d')" ..
  then have "\<exists>w'. JoinRoom cache ps e r u w = (Inr (), w') \<and> w_db w' = d'"
    by (simp add: JoinRoom_def plan on_db_def)
  then show ?thesis using JoinRoomTx_active [OF assms(1) tx] n by auto
qed

text \<open>
  Leaving, when it succeeds, was done by an active member, ends the membership and leaves the stored
  count of the room equal to the number of its active members.
\<close>

theorem LeaveRoom_leaves:
  assumes "db_ok (w_db w)" "LeaveRoom cache ps e r u w = (Inr (), w')"
  shows "active_member (w_db w) r u \<and> \<not> active_member (w_db w') r u \<and> counted (w_db w') r"
proof -
  obtain m where "GetMember e r u (w_db w) = Inr m"
    using assms(2) by (auto simp: LeaveRoom_def split: sum.splits)
  then have m: "m \<in> set (t_members (w_db w))" "is_key r u m" "rm_left_at m = None"
    by (auto simp: GetMember_def dest!: db_query_ok sql_row_SomeD)
  have "w_db w' = snd (LeaveRoomTx e r u (w_db w))" "fst (LeaveRoomTx e r u (w_db w)) = Inr ()"
    using assms(2)
    by (auto simp: LeaveRoom_def on_db_def on_bus_def split_beta split: sum.splits option.splits)
  then have tx: "LeaveRoomTx e r u (w_db w) = (Inr (), w_db w')" by (simp add: prod_eq_iff)
  have "RoomRepo_IsMember (quiet_env 0) r u (w_db w') \<noteq> Inr True" "counted (w_db w') r"
    using LeaveRoomTx_gone [OF tx] LeaveRoomTx_counted [OF tx] by auto
  then show ?thesis using m by (auto simp: RoomRepo_IsMember_def active_member_def sql_exists_iff)
qed

section \<open>Examples\<close>

lemma eve_joins:
  "\<exists>w'. JoinRoom (Some ref_api) (Some ref_api) (quiet_env 7000) ''r1'' ''eve'' sample_world = (Inr (), w')"
proof -
  let ?m = "new_member (quiet_env 7000) ''join_room'' ''r1'' ''eve'' RoleMember"
  have m: "?m = sample_member ''eve'' RoleMember 7000" by (simp add: new_member_def sample_member_def)
  have "GetMember (quiet_env t) ''r1'' ''eve'' sample_db = Inl ErrNoRows"
      "GetMemberRecord (quiet_env t) ''r1'' ''eve'' sample_db = Inl ErrNoRows" for t
    by (simp_all add: GetMember_def GetMemberRecord_def sql_row_def is_key_def sample_db_def sample_member_def row_result_def)
  moreover have "RoomRepo_GetByID (quiet_env t) ''r1'' sample_db = Inr sample_room" for t
    by (simp add: RoomRepo_GetByID_def sql_row_def sample_db_def sample_room_def)
  ultimately have plan: "plan_join (quiet_env t) ''r1'' ''eve'' sample_db = Rejoin" for t
    by (simp add: plan_join_def)
  obtain d' where "JoinRoomTx (quiet_env 7000) ?m sample_db = (Inr (), d')"
    using eve_joins_tx by (auto simp: m)
  then show ?thesis by (simp add: JoinRoom_def plan on_db_def)
qed

lemma JoinRoom_joins_witness:
  "\<exists>w'. JoinRoom (Some ref_api) (Some ref_api) (quiet_env 7000) ''r1'' ''eve'' sample_world = (Inr (), w') \<and>
     active_member (w_db w') ''r1'' ''eve''"
proof -
  obtain w' where run: "JoinRoom (Some ref_api) (Some ref_api) (quiet_env 7000) ''r1'' ''eve'' sample_world = (Inr (), w')"
    using eve_joins by blast
  have "db_ok (w_db sample_world)" by (simp add: sample_db_ok)
  from JoinRoom_joins [OF this run] run show ?thesis by blast
qed

text \<open>The same room with \<open>bob\<close> banned and gone.\<close>

definition banned_bob :: room_member where
  "banned_bob = (sample_member ''bob'' RoleMember 0)\<lparr>rm_left_at := Some 0, rm_banned_at := Some 0\<rparr>"

definition banned_world :: "ref_redis world" where
  "banned_world = sample_world\<lparr>w_db := sample_db\<lparr>t_members := [sample_member ''ann'' RoleOwner 0, banned_bob]\<rparr>\<rparr>"

lemma banned_world_facts:
  "db_ok (w_db banned_world)" "banned_bob \<in> set (t_members (w_db banned_world))" "is_key ''r1'' ''bob'' banned_bob"
  "rm_banned_at banned_bob \<noteq> None" "rm_left_at banned_bob \<noteq> None" "open_room (w_db banned_world) ''r1''"
proof -
  show "db_ok (w_db banned_world)"
    using sample_db_ok
    by (simp add: db_ok_def banned_world_def) (simp add: sample_db_def banned_bob_def member_key_def sample_member_def)
  show "open_room (w_db banned_world) ''r1''"
    by (simp add: open_room_def banned_world_def sample_db_def sample_room_def)
qed (simp_all add: banned_world_def banned_bob_def is_key_def sample_member_def)

lemma banned_cannot_join_witness:
  "\<exists>y. JoinRoom (Some ref_api) None (quiet_env 0) ''r1'' ''bob'' banned_world = (Inl y, banned_world)"
  using banned_cannot_join [OF banned_world_facts(1-4)] by simp

lemma ban_check_fails_open_witness:
  "\<exists>w'. JoinRoom (Some ref_api) None ((quiet_env 0)\<lparr>db_fault := (\<lambda>q. if q = ''get_member_record''
     then Some (Rejected (Err ''timeout'')) else None)\<rparr>) ''r1'' ''bob'' banned_world = (Inr (), w') \<and>
     active_member (w_db w') ''r1'' ''bob''"
  by (rule ban_check_fails_open [OF banned_world_facts(1,6,2,3,4,5)]) simp

lemma LeaveRoom_leaves_witness:
  "\<exists>w'. LeaveRoom (Some ref_api) None (quiet_env 7000) ''r1'' ''bob'' sample_world = (Inr (), w') \<and>
     \<not> active_member (w_db w') ''r1'' ''bob''"
proof -
  have "GetMember (quiet_env 7000) ''r1'' ''bob'' sample_db = Inr (sample_member ''bob'' RoleMember 0)"
    by (simp add: GetMember_def sql_row_def is_key_def sample_db_def sample_member_def)
  then obtain w' where run: "LeaveRoom (Some ref_api) None (quiet_env 7000) ''r1'' ''bob'' sample_world = (Inr (), w')"
    by (simp add: LeaveRoom_def on_db_def bob_leaves)
  have "db_ok (w_db sample_world)" by (simp add: sample_db_ok)
  from LeaveRoom_leaves [OF this run] run show ?thesis by blast
qed

end
