(* ===== verification/Room_Cache.thy ===== *)
theory Room_Cache
  imports Room_Properties
begin

text \<open>
  The cache of rooms: what a service needs of a cache, as a locale that the Redis cache satisfies, and that
  through it a room is always read as the database has it.
\<close>

section \<open>The interface\<close>

text \<open>
  What is read back is what was put last, as its encoding keeps it (\<open>norm\<close>), or nothing; what was deleted
  is gone; a failed put may or may not have happened.
\<close>

locale object_cache =
  fixes get :: "env \<Rightarrow> string \<Rightarrow> 'b \<Rightarrow> 'o result" and put :: "env \<Rightarrow> string \<Rightarrow> 'o \<Rightarrow> 'b \<Rightarrow> 'b"
    and del :: "env \<Rightarrow> string \<Rightarrow> 'b \<Rightarrow> 'b" and norm :: "'o \<Rightarrow> 'o"
  assumes get_put: "get e k (put e0 k v b) = Inr x \<Longrightarrow> x = norm v \<or> get e k b = Inr x"
    and get_put_other: "k \<noteq> k' \<Longrightarrow> get e k' (put e0 k v b) = get e k' b"
    and get_del: "no_faults e0 \<Longrightarrow> \<not> is_ok (get e k (del e0 k b))"
    and get_del_other: "k \<noteq> k' \<Longrightarrow> get e k' (del e0 k b) = get e k' b"
begin

text \<open>Every object that can be read satisfies \<open>P\<close>.\<close>

definition agrees :: "(string \<Rightarrow> 'o \<Rightarrow> bool) \<Rightarrow> 'b \<Rightarrow> bool" where
  "agrees P b \<longleftrightarrow> (\<forall>e k x. get e k b = Inr x \<longrightarrow> P k x)"

lemma agrees_put: "agrees P b \<Longrightarrow> P k (norm v) \<Longrightarrow> agrees P (put e0 k v b)"
  unfolding agrees_def by (metis get_put get_put_other)

lemma agrees_del:
  assumes "agrees P b" "no_faults e0" "\<And>k' x. k' \<noteq> k \<Longrightarrow> P k' x \<Longrightarrow> Q k' x"
  shows "agrees Q (del e0 k b)"
  unfolding agrees_def
proof (intro allI impI)
  fix e k' x assume "get e k' (del e0 k b) = Inr x"
  then show "Q k' x"
    using assms get_del [OF assms(2), of e k b] get_del_other [of k k' e e0 b]
    by (cases "k' = k") (auto simp: is_ok_iff agrees_def)
qed

lemma agrees_mono: "agrees P b \<Longrightarrow> (\<And>k x. P k x \<Longrightarrow> Q k x) \<Longrightarrow> agrees Q b"
  by (auto simp: agrees_def)

end

section \<open>The Redis cache\<close>

text \<open>A codec that the decoder inverts up to \<open>norm\<close>.\<close>

context redis_server
begin

lemma GetObject_SetObject:
  assumes "\<And>v. dec (enc v) = Some (norm v)" "GetObject api e dec k (snd (SetObject api e0 k (enc v) ttl b)) = Inr x" "0 < ttl"
  shows "x = norm v \<or> GetObject api e dec k b = Inr x"
  using assms
  by (auto simp: GetObject_def SetObject_def set_key_def cache_get_def get_key_def redis_read_def redis_write_def look_put
      split: option.splits fault.splits if_splits)

lemma GetObject_store: "store b = store b' \<Longrightarrow> GetObject api e dec k b = GetObject api e dec k b'"
  by (simp add: GetObject_def cache_get_def get_key_def redis_read_def cong: option.case_cong)

lemma GetObject_look:
  "(\<And>t. cmd_get api t k (store b) = cmd_get api t k (store b')) \<Longrightarrow> GetObject api e dec k b = GetObject api e dec k b'"
  by (simp add: GetObject_def cache_get_def get_key_def redis_read_def cong: option.case_cong)

lemma write_look:
  assumes "\<And>s. cmd_get api t k (f s) = cmd_get api t k s"
  shows "cmd_get api t k (store (snd (redis_write e q f b))) = cmd_get api t k (store b)"
  using assms by (auto simp: redis_write_def split: option.splits fault.splits)

lemma GetObject_SetObject_other: "k \<noteq> k' \<Longrightarrow> GetObject api e dec k' (snd (SetObject api e0 k j ttl b)) = GetObject api e dec k' b"
  by (rule GetObject_look) (simp add: SetObject_def set_key_def write_look look_put_other)

lemma GetObject_del_other: "k \<noteq> k' \<Longrightarrow> GetObject api e dec k' (snd (cache_del api e0 k b)) = GetObject api e dec k' b"
  by (rule GetObject_look) (simp add: cache_del_def del_key_def write_look look_drop_other)

lemma GetObject_del: "no_faults e0 \<Longrightarrow> \<not> is_ok (GetObject api e dec k (snd (cache_del api e0 k b)))"
  by (simp add: is_ok_iff GetObject_def cache_get_def get_key_def redis_read_def cache_del_def del_key_def look_drop
      split: option.splits)

end

sublocale redis_server \<subseteq> rooms: object_cache "\<lambda>e k. GetObject api e room_of_json k"
    "\<lambda>e k v b. snd (SetObject api e k (room_json v) (5 * minute) b)" "\<lambda>e k b. snd (cache_del api e k b)" "\<lambda>r. r"
proof
  show "x = v \<or> GetObject api e room_of_json k b = Inr x"
    if "GetObject api e room_of_json k (snd (SetObject api e0 k (room_json v) (5 * minute) b)) = Inr x" for e k e0 v b x
    using GetObject_SetObject [of room_of_json room_json "\<lambda>r. r", OF room_roundtrip that] by (simp add: time_units)
qed (auto simp: GetObject_SetObject_other GetObject_del_other GetObject_del)

sublocale redis_server \<subseteq> users: object_cache "\<lambda>e k. GetObject api e user_of_json k"
    "\<lambda>e k v b. snd (SetObject api e k (user_json v) (5 * minute) b)" "\<lambda>e k b. snd (cache_del api e k b)"
    "\<lambda>u. u\<lparr>u_password_hash := []\<rparr>"
proof
  show "x = v\<lparr>u_password_hash := []\<rparr> \<or> GetObject api e user_of_json k b = Inr x"
    if "GetObject api e user_of_json k (snd (SetObject api e0 k (user_json v) (5 * minute) b)) = Inr x" for e k e0 v b x
    using GetObject_SetObject [of user_of_json user_json "\<lambda>u. u\<lparr>u_password_hash := []\<rparr>", OF user_roundtrip that]
    by (simp add: time_units)
qed (auto simp: GetObject_SetObject_other GetObject_del_other GetObject_del)

section \<open>The row of a room\<close>

definition room_row :: "db \<Rightarrow> string \<Rightarrow> room option" where
  "room_row d r = sql_row (\<lambda>y. r_id y = r \<and> r_archived_at y = None) (t_rooms d)"

lemma sql_row_update_other:
  "(\<And>y. q y \<Longrightarrow> \<not> p y \<and> \<not> p (f y)) \<Longrightarrow> sql_row p (sql_update q f t) = sql_row p t"
  unfolding sql_row_def sql_update_def by (induction t) auto

lemma room_row_update:
  "r \<noteq> r' \<Longrightarrow> (\<And>y. r_id (f y) = r_id y) \<Longrightarrow> room_row (d\<lparr>t_rooms := sql_update (\<lambda>y. r_id y = r) f (t_rooms d)\<rparr>) r' = room_row d r'"
  by (auto simp: room_row_def intro!: sql_row_update_other)

lemma room_row_rooms: "t_rooms d = t_rooms d' \<Longrightarrow> room_row d r = room_row d' r"
  by (simp add: room_row_def)

lemma recount_row: "recount_members r t d = Inr d' \<Longrightarrow> r \<noteq> r' \<Longrightarrow> room_row d' r' = room_row d r'"
  by (auto simp: recount_members_def room_row_update)

lemma JoinRoomTx_row: "JoinRoomTx e m d = (x, d') \<Longrightarrow> rm_room_id m \<noteq> r' \<Longrightarrow> room_row d' r' = room_row d r'"
  by (auto simp: JoinRoomTx_def tx_commit_failed_def recount_row room_row_rooms [OF upsert_member_rooms]
      split: option.splits sum.splits if_splits dest!: tx_exec_ok tx_commitD)

lemma LeaveRoomTx_row: "LeaveRoomTx e r u d = (x, d') \<Longrightarrow> r \<noteq> r' \<Longrightarrow> room_row d' r' = room_row d r'"
  by (auto simp: LeaveRoomTx_def recount_row room_row_rooms [OF mark_left_rooms]
      split: option.splits sum.splits dest!: tx_exec_ok tx_commitD)

lemma insert_room_row: "insert_room x d = Inr d' \<Longrightarrow> room_row d r = Some z \<Longrightarrow> room_row d' r = Some z"
  by (auto simp: insert_room_def room_row_def sql_row_append_hit split: if_splits)

lemma insert_member_row: "insert_member m d = Inr d' \<Longrightarrow> room_row d' r = room_row d r"
  by (auto simp: insert_member_def room_row_def split: if_splits)

lemma CreateRoomWithOwner_row:
  "CreateRoomWithOwner e x m d = (res, y, d') \<Longrightarrow> room_row d r = Some z \<Longrightarrow> room_row d' r = Some z"
  by (auto simp: CreateRoomWithOwner_def Let_def insert_member_row
      split: option.splits sum.splits prod.splits dest!: tx_exec_ok tx_commitD dest: insert_room_row)

section \<open>Agreement\<close>

text \<open>
  The calls of the room service. Room ids are UUIDs: the statement is about ids without a colon, for which
  the key of the cached room differs from the keys of the subscriber sets.
\<close>

datatype room_call =
    CCreate string room_type string string | CGet string | CUpdate room | CDelete string
  | CAdd string string member_role | CRemove string string | CJoin string string | CLeave string string
  | CMarkRead string string string

fun run_call :: "'r redis_api \<Rightarrow> env \<Rightarrow> room_call \<Rightarrow> 'r world \<Rightarrow> 'r world" where
  "run_call api e (CCreate n t ds u) w = snd (RoomService_Create e n t ds u w)"
| "run_call api e (CGet r) w = snd (RoomService_GetByID (Some api) e r w)"
| "run_call api e (CUpdate x) w = snd (RoomService_Update (Some api) e x w)"
| "run_call api e (CDelete r) w = snd (RoomService_Delete (Some api) e r w)"
| "run_call api e (CAdd r u role) w = snd (RoomService_AddMember (Some api) e r u role w)"
| "run_call api e (CRemove r u) w = snd (RoomService_RemoveMember (Some api) e r u w)"
| "run_call api e (CJoin r u) w = snd (JoinRoom (Some api) (Some api) e r u w)"
| "run_call api e (CLeave r u) w = snd (LeaveRoom (Some api) (Some api) e r u w)"
| "run_call api e (CMarkRead r u m) w = snd (RoomService_MarkRead e r u m w)"

definition caches_row :: "db \<Rightarrow> string \<Rightarrow> room \<Rightarrow> bool" where
  "caches_row d k x \<longleftrightarrow> (\<forall>r. CHR '':'' \<notin> set r \<longrightarrow> k = room_key r \<longrightarrow> room_row d r = Some x)"

definition room_cache_ok :: "'r redis_api \<Rightarrow> 'r world \<Rightarrow> bool" where
  "room_cache_ok api w \<longleftrightarrow>
     (\<forall>e k x. GetObject api e room_of_json k (w_bus w) = Inr x \<longrightarrow> caches_row (w_db w) k x)"

lemma room_key_inj [simp]: "room_key r = room_key r' \<longleftrightarrow> r = r'"
  by (simp add: room_key_def)

lemma caches_row_other: "(\<And>r'. r' \<noteq> r \<Longrightarrow> room_row d' r' = room_row d r') \<Longrightarrow> k \<noteq> room_key r \<Longrightarrow> caches_row d k x \<Longrightarrow> caches_row d' k x"
  unfolding caches_row_def by metis

context redis_server
begin

lemma cache_ok_agrees: "room_cache_ok api w \<longleftrightarrow> rooms.agrees (caches_row (w_db w)) (w_bus w)"
  by (simp add: room_cache_ok_def rooms.agrees_def)

text \<open>A change of the row of one room, followed by forgetting it.\<close>

lemma change_and_forget:
  assumes "room_cache_ok api w" "no_faults e" "w_bus w' = w_bus w"
    and "\<And>r'. r' \<noteq> r \<Longrightarrow> room_row (w_db w') r' = room_row (w_db w) r'"
  shows "room_cache_ok api (forget_room (Some api) e r w')"
proof -
  have "rooms.agrees (caches_row (w_db w')) (snd (cache_del api e (room_key r) (w_bus w)))"
    using assms(1,2) caches_row_other [OF assms(4)] unfolding cache_ok_agrees by (rule rooms.agrees_del)
  then show ?thesis
    by (simp add: cache_ok_agrees) (simp add: forget_room_def on_bus_def split_beta assms(3))
qed

lemma subscriber_key: "CHR '':'' \<notin> set r \<Longrightarrow> room_key r \<noteq> subscribers_key r'"
  by (auto simp: room_key_def subscribers_key_def)

lemma set_write_ok:
  assumes "room_cache_ok api w" "k = subscribers_key r"
    and "w_db w' = w_db w" "\<And>t k'. k' \<noteq> k \<Longrightarrow> cmd_get api t k' (store (w_bus w')) = cmd_get api t k' (store (w_bus w))"
  shows "room_cache_ok api w'"
  unfolding room_cache_ok_def
proof (intro allI impI)
  fix e k' x assume get: "GetObject api e room_of_json k' (w_bus w') = Inr x"
  show "caches_row (w_db w') k' x"
  proof (cases "k' = k")
    case True
    then show ?thesis using assms(2) subscriber_key [of _ r] by (metis caches_row_def)
  next
    case False
    then have "GetObject api e room_of_json k' (w_bus w') = GetObject api e room_of_json k' (w_bus w)"
      using assms(4) by (intro GetObject_look) blast
    then show ?thesis using get assms(1,3) by (simp add: room_cache_ok_def)
  qed
qed

lemma subscribe_ok: "room_cache_ok api w \<Longrightarrow> room_cache_ok api (subscribe_room (Some api) e r u w)"
  by (erule set_write_ok [OF _ refl, where r = r])
    (auto simp: subscribe_room_def on_bus_def SubscribeToRoom_def Let_def split_beta write_look get_sadd split: sum.splits)

lemma unsubscribe_ok: "room_cache_ok api w \<Longrightarrow> room_cache_ok api (snd (on_bus (UnsubscribeFromRoom api e r u) w))"
  by (erule set_write_ok [OF _ refl, where r = r])
    (auto simp: on_bus_def UnsubscribeFromRoom_def Let_def split_beta write_look get_srem split: sum.splits)

lemma same_rows_ok:
  assumes "room_cache_ok api w" "w_bus w' = w_bus w" "\<And>r x. room_row (w_db w) r = Some x \<Longrightarrow> room_row (w_db w') r = Some x"
  shows "room_cache_ok api w'"
  using assms unfolding room_cache_ok_def caches_row_def by metis

lemma snd_created: "snd (case p of ((Inl x, _), w1) \<Rightarrow> (Inl x, w1) | ((Inr _, r), w1) \<Rightarrow> (Inr r, w1)) = snd p"
  by (simp split: prod.splits sum.splits)

lemma create_ok:
  assumes "room_cache_ok api w"
  shows "room_cache_ok api (snd (RoomService_Create e n t ds u w))"
proof -
  obtain x m where "w_db (snd (RoomService_Create e n t ds u w)) = snd (snd (CreateRoomWithOwner e x m (w_db w)))"
      "w_bus (snd (RoomService_Create e n t ds u w)) = w_bus w"
    unfolding RoomService_Create_def Let_def snd_created by (simp add: split_beta)
  then show ?thesis
    using CreateRoomWithOwner_row [of e x m "w_db w"]
    by (intro same_rows_ok [OF assms]) (simp_all add: prod_eq_iff)
qed

lemma get_ok:
  assumes "room_cache_ok api w" "no_faults e"
  shows "room_cache_ok api (snd (RoomService_GetByID (Some api) e r w))"
proof (cases "GetObject api e room_of_json (room_key r) (w_bus w)")
  case (Inr x)
  then show ?thesis using assms by (simp add: RoomService_GetByID_def)
next
  case (Inl y)
  show ?thesis
  proof (cases "RoomRepo_GetByID e r (w_db w)")
    case (Inr x)
    then have "caches_row (w_db w) (room_key r) x"
      using assms(2) by (simp add: RoomRepo_GetByID_def caches_row_def room_row_def)
    then have "rooms.agrees (caches_row (w_db w)) (snd (SetObject api e (room_key r) (room_json x) (5 * minute) (w_bus w)))"
      using assms(1) by (simp add: cache_ok_agrees rooms.agrees_put)
    then show ?thesis
      using Inl Inr by (simp add: RoomService_GetByID_def cache_ok_agrees on_bus_def split_beta)
  next
    case (Inl z)
    then show ?thesis using \<open>GetObject api e room_of_json (room_key r) (w_bus w) = Inl y\<close> assms(1) by (simp add: RoomService_GetByID_def)
  qed
qed

lemma join_ok:
  assumes "room_cache_ok api w" "no_faults e"
  shows "room_cache_ok api (snd (JoinRoom (Some api) (Some api) e r u w))"
proof (cases "plan_join e r u (w_db w)")
  case Rejoin
  obtain x d' where tx: "JoinRoomTx e (new_member e ''join_room'' r u RoleMember) (w_db w) = (x, d')" by fastforce
  have rows: "room_row d' r' = room_row (w_db w) r'" if "r' \<noteq> r" for r'
    using JoinRoomTx_row [OF tx] that by (simp add: new_member_def)
  show ?thesis
  proof (cases x)
    case (Inl y)
    then have "d' = w_db w"
      using tx assms(2) by (auto simp: JoinRoomTx_def tx_commit_failed_def split: sum.splits if_splits)
    then show ?thesis using assms(1) Inl Rejoin tx by (simp add: JoinRoom_def on_db_def)
  next
    case (Inr y)
    have "room_cache_ok api (forget_room (Some api) e r (w\<lparr>w_db := d'\<rparr>))"
      using rows by (intro change_and_forget [OF assms]) simp_all
    then show ?thesis using Inr Rejoin tx by (simp add: JoinRoom_def on_db_def subscribe_ok)
  qed
qed (use assms in \<open>simp_all add: JoinRoom_def\<close>)

lemma leave_ok:
  assumes "room_cache_ok api w" "no_faults e"
  shows "room_cache_ok api (snd (LeaveRoom (Some api) (Some api) e r u w))"
proof (cases "GetMember e r u (w_db w)")
  case (Inr m)
  obtain x d' where tx: "LeaveRoomTx e r u (w_db w) = (x, d')" by fastforce
  show ?thesis
  proof (cases x)
    case (Inl y)
    then have "d' = w_db w"
      using tx assms(2) by (auto simp: LeaveRoomTx_def split: sum.splits)
    then show ?thesis using assms(1) Inl Inr tx by (simp add: LeaveRoom_def on_db_def)
  next
    case (Inr y)
    have "room_cache_ok api (forget_room (Some api) e r (w\<lparr>w_db := d'\<rparr>))"
      using LeaveRoomTx_row [OF tx] by (intro change_and_forget [OF assms]) simp_all
    then show ?thesis using \<open>GetMember e r u (w_db w) = Inr m\<close> Inr tx by (simp add: LeaveRoom_def on_db_def unsubscribe_ok)
  qed
qed (use assms in \<open>simp add: LeaveRoom_def\<close>)

text \<open>The remaining writes, whose single statement either fails and changes nothing or succeeds.\<close>

lemma write_ok:
  assumes "room_cache_ok api w" "no_faults e" "f (w_db w) = (x, d')"
    and "\<And>y. x = Inl y \<Longrightarrow> d' = w_db w" "\<And>r'. r' \<noteq> r \<Longrightarrow> room_row d' r' = room_row (w_db w) r'"
  shows "room_cache_ok api (snd (case on_db f w of (Inl z, w1) \<Rightarrow> (Inl z, w1) | (Inr _, w1) \<Rightarrow> (Inr (), forget_room (Some api) e r w1)))"
proof (cases x)
  case (Inl y)
  then show ?thesis using assms(1,3,4) by (simp add: on_db_def)
next
  case (Inr y)
  have "room_cache_ok api (forget_room (Some api) e r (w\<lparr>w_db := d'\<rparr>))"
    using assms(5) by (intro change_and_forget [OF assms(1,2)]) simp_all
  then show ?thesis using Inr assms(3) by (simp add: on_db_def)
qed

lemma run_call_ok:
  assumes "room_cache_ok api w" "no_faults e"
  shows "room_cache_ok api (run_call api e c w)"
proof (cases c)
  case (CUpdate x)
  show ?thesis
    using assms(2) unfolding CUpdate run_call.simps RoomService_Update_def
    by (auto simp: RoomRepo_Update_def update_room_def room_row_update intro!: write_ok [OF assms])
next
  case (CDelete r)
  show ?thesis
    using assms(2) unfolding CDelete run_call.simps RoomService_Delete_def
    by (auto simp: RoomRepo_Delete_def room_row_update intro!: write_ok [OF assms])
next
  case (CAdd r u role)
  show ?thesis
    using assms(2) unfolding CAdd run_call.simps RoomService_AddMember_def
    by (cases "upsert_member (new_member e ''add_member'' r u role) (w_db w)")
      (auto simp: RoomRepo_AddMember_def room_row_rooms [OF upsert_member_rooms] intro!: write_ok [OF assms])
next
  case (CRemove r u)
  show ?thesis
    using assms(2) unfolding CRemove run_call.simps RoomService_RemoveMember_def
    by (auto simp: RoomRepo_RemoveMember_def mark_left_def room_row_def intro!: write_ok [OF assms])
next
  case (CMarkRead r u m)
  have "t_rooms (snd (RoomRepo_MarkRead e r u m (w_db w))) = t_rooms (w_db w)"
    using assms(2) by (auto simp: RoomRepo_MarkRead_def upsert_receipt_def split: sum.splits if_splits)
  then show ?thesis
    using CMarkRead by (auto simp: RoomService_MarkRead_def room_row_def split: sum.splits bool.splits intro!: same_rows_ok [OF assms(1)] assms(1))
qed (use assms create_ok get_ok join_ok leave_ok in simp_all)

end


section \<open>Examples\<close>

lemma sample_cache_ok: "room_cache_ok ref_api sample_world"
  by (auto simp: room_cache_ok_def GetObject_def cache_get_def get_key_def redis_read_def ref_api_def ref_empty_def
      split: option.splits)


end
