(* ===== verification/Sanitization.thy ===== *)
theory Sanitization
  imports Go_Strings
begin

text \<open>
  \<open>pkg/sanitization/xss.go\<close>: the three regular expressions as deterministic matchers on bytes, the
  sanitizers built from them, and what their output can contain. Go's \<open>(?i)\<close> folds by Unicode, so
  the letter s of \<open>script\<close> also matches the long s (bytes C5 BF) and the class \<open>\w\<close> also matches the
  long s and the Kelvin sign (bytes E2 84 AA).
\<close>

section \<open>Case-insensitive literals\<close>

definition long_s :: string where
  "long_s = map char_of [0xC5 :: nat, 0xBF]"

definition kelvin :: string where
  "kelvin = map char_of [0xE2 :: nat, 0x84, 0xAA]"

definition fold_alts :: "char \<Rightarrow> string list" where
  "fold_alts c = [c] # (if is_lower c then [[to_upper c]] else []) @
     (if c = CHR ''s'' then [long_s] else if c = CHR ''k'' then [kelvin] else [])"

text \<open>The number of bytes of \<open>s\<close> that match the lower-case literal, if it matches at the start.\<close>

fun match_lit :: "string \<Rightarrow> string \<Rightarrow> nat option" where
  "match_lit [] s = Some 0"
| "match_lit (p # ps) s =
     (case find (\<lambda>w. prefix w s) (fold_alts p) of None \<Rightarrow> None
      | Some w \<Rightarrow> map_option (\<lambda>n. length w + n) (match_lit ps (drop (length w) s)))"

section \<open>The script tag: \<open>(?i)<script[^>]*>.*?</script>\<close>\<close>

text \<open>The end of the first closing tag; \<open>.\<close> does not match a newline.\<close>

fun find_close :: "string \<Rightarrow> nat option" where
  "find_close [] = None"
| "find_close (c # cs) =
     (case match_lit ''</script>'' (c # cs) of Some n \<Rightarrow> Some n
      | None \<Rightarrow> if c = CHR 10 then None else map_option Suc (find_close cs))"

definition script_match :: "char option \<Rightarrow> string \<Rightarrow> nat option" where
  "script_match prev s =
     (case match_lit ''<script'' s of None \<Rightarrow> None
      | Some n \<Rightarrow>
        (case IndexByte (drop n s) (CHR ''>'') of None \<Rightarrow> None
         | Some m \<Rightarrow> map_option (\<lambda>k. n + m + 1 + k) (find_close (drop (n + m + 1) s))))"

section \<open>Event handlers: \<open>(?i)\bon\w+\s*=\<close>\<close>

definition is_word_byte :: "char \<Rightarrow> bool" where
  "is_word_byte c \<longleftrightarrow> is_alpha c \<or> is_digit c \<or> c = CHR ''_''"

text \<open>The number of bytes taken by a maximal run of \<open>\w\<close>.\<close>

function word_run :: "string \<Rightarrow> nat" where
  "word_run s =
     (case s of [] \<Rightarrow> 0
      | c # cs \<Rightarrow> if is_word_byte c then 1 + word_run cs
                 else if prefix long_s s then 2 + word_run (drop 2 s)
                 else if prefix kelvin s then 3 + word_run (drop 3 s)
                 else 0)"
  by pat_completeness auto
termination
  by (relation "measure length") auto

declare word_run.simps [simp del]

definition is_re_space :: "char \<Rightarrow> bool" where
  "is_re_space c \<longleftrightarrow> c \<in> set (map char_of [9 :: nat, 10, 12, 13, 32])"

definition js_event_match :: "char option \<Rightarrow> string \<Rightarrow> nat option" where
  "js_event_match prev s =
     (if (case prev of None \<Rightarrow> False | Some c \<Rightarrow> is_word_byte c) then None
      else case match_lit ''on'' s of None \<Rightarrow> None
      | Some n \<Rightarrow>
        (let w = word_run (drop n s);
             sp = length (takeWhile is_re_space (drop (n + w) s));
             r = drop (n + w + sp) s
         in if w = 0 then None
            else case r of [] \<Rightarrow> None | c # _ \<Rightarrow> if c = CHR ''='' then Some (n + w + sp + 1) else None))"

section \<open>Other patterns\<close>

text \<open>\<open><[^>]*>\<close>\<close>

definition html_tag_match :: "char option \<Rightarrow> string \<Rightarrow> nat option" where
  "html_tag_match prev s =
     (case s of [] \<Rightarrow> None
      | c # cs \<Rightarrow> if c = CHR ''<'' then map_option (\<lambda>m. m + 2) (IndexByte cs (CHR ''>'')) else None)"

text \<open>\<open>https?://[^\s]+\<close>, unanchored.\<close>

definition url_at :: "string \<Rightarrow> bool" where
  "url_at s \<longleftrightarrow>
     (let r = (if prefix ''https://'' s then drop 8 s else if prefix ''http://'' s then drop 7 s else [])
      in r \<noteq> [] \<and> \<not> is_re_space (hd r))"

definition url_matches :: "string \<Rightarrow> bool" where
  "url_matches s \<longleftrightarrow> list_ex (\<lambda>i. url_at (drop i s)) [0..<length s]"

section \<open>ReplaceAllString with the empty replacement\<close>

text \<open>
  Matches are taken leftmost first and do not overlap; \<open>prev\<close> is the byte before the position, which
  is all that \<open>\b\<close> looks at.
\<close>

definition match_len :: "nat option \<Rightarrow> nat" where
  "match_len r = (case r of None \<Rightarrow> 0 | Some n \<Rightarrow> n)"

function remove_all :: "(char option \<Rightarrow> string \<Rightarrow> nat option) \<Rightarrow> char option \<Rightarrow> string \<Rightarrow> string" where
  "remove_all m prev s =
     (case s of [] \<Rightarrow> []
      | c # cs \<Rightarrow>
        (let n = match_len (m prev s) in
         if n = 0 then c # remove_all m (Some c) cs
         else remove_all m (Some (last (take n s))) (drop n s)))"
  by pat_completeness auto
termination
  by (relation "measure (\<lambda>(m, prev, s). length s)") auto

declare remove_all.simps [simp del]

lemma remove_all_Nil [simp]: "remove_all m prev [] = []"
  by (simp add: remove_all.simps)

lemma remove_all_skip:
  "match_len (m prev (c # cs)) = 0 \<Longrightarrow> remove_all m prev (c # cs) = c # remove_all m (Some c) cs"
  by (simp add: remove_all.simps [of m prev])

lemma remove_all_hit:
  "match_len (m prev (c # cs)) = Suc n \<Longrightarrow>
   remove_all m prev (c # cs) = remove_all m (Some (last (c # take n cs))) (drop n cs)"
  by (simp add: remove_all.simps [of m prev])

lemma remove_all_subseq: "subseq (remove_all m prev s) s"
proof (induction "length s" arbitrary: prev s rule: less_induct)
  case less
  show ?case
  proof (cases s)
    case (Cons c cs)
    show ?thesis
    proof (cases "match_len (m prev s)")
      case 0
      then show ?thesis using Cons less by (simp add: remove_all_skip)
    next
      case (Suc n)
      have "subseq (remove_all m (Some (last (c # take n cs))) (drop n cs)) (drop n cs)"
        using less Cons by simp
      then have "subseq (remove_all m (Some (last (c # take n cs))) (drop n cs)) cs"
        using subseq_order.order_trans [OF _ suffix_imp_subseq [OF suffix_drop]] by blast
      then show ?thesis using Suc Cons by (simp add: remove_all_hit list_emb_Cons)
    qed
  qed simp
qed

section \<open>The sanitizers\<close>

definition SanitizeHTML :: "string \<Rightarrow> string" where
  "SanitizeHTML input =
     (let i1 = remove_all script_match None input;
          i2 = remove_all js_event_match None i1
      in EscapeString i2)"

definition StripHTML :: "string \<Rightarrow> string" where
  "StripHTML input = remove_all html_tag_match None input"

definition SanitizeMessage :: "string \<Rightarrow> string" where
  "SanitizeMessage input =
     (let i0 = TrimSpace input;
          i1 = remove_all script_match None i0;
          i2 = remove_all js_event_match None i1;
          i3 = EscapeString i2
      in RemoveByte (CHR 0x00) i3)"

definition SanitizeUsername :: "string \<Rightarrow> string" where
  "SanitizeUsername input = RemoveByte (CHR 0x00) (EscapeString (TrimSpace input))"

definition ValidateAndSanitizeURL :: "string \<Rightarrow> string" where
  "ValidateAndSanitizeURL url = (if \<not> url_matches url then [] else url)"

text \<open>\<open>string(b)\<close> of a byte is the UTF-8 encoding of that code point.\<close>

definition rune_of_byte :: "char \<Rightarrow> string" where
  "rune_of_byte c =
     (let n = (of_char c :: nat) in
      if n < 128 then [c] else [char_of (192 + n div 64), char_of (128 + n mod 64)])"

definition MaskEmail :: "string \<Rightarrow> string" where
  "MaskEmail email =
     (case Split (CHR ''@'') email of
        [username, domain] \<Rightarrow>
          (if length username \<le> 2 then ''**@'' @ domain
           else rune_of_byte (username ! 0) @ replicate (length username - 2) (CHR ''*'') @
                rune_of_byte (username ! (length username - 1)) @ ''@'' @ domain)
      | _ \<Rightarrow> email)"

section \<open>What the sanitizers guarantee\<close>

text \<open>Text without \<open><\<close> and without the letter o has nothing for the two patterns to remove.\<close>

lemma script_match_miss: "c \<noteq> CHR ''<'' \<Longrightarrow> script_match prev (c # cs) = None"
  by (simp add: script_match_def fold_alts_def is_lower_def)

lemma upper_o: "char_of (79 :: nat) = CHR ''O''"
  by (simp add: char_of_def bit_0)

lemma js_event_match_miss: "c \<notin> {CHR ''o'', CHR ''O''} \<Longrightarrow> js_event_match prev (c # cs) = None"
  by (auto simp: js_event_match_def fold_alts_def is_lower_def to_upper_def upper_o)

lemma remove_all_id: "(\<And>prev c cs. c \<in> set s \<Longrightarrow> m prev (c # cs) = None) \<Longrightarrow> remove_all m prev s = s"
  by (induction s arbitrary: prev) (simp_all add: remove_all_skip match_len_def)

lemma SanitizeMessage_plain:
  assumes "\<forall>c \<in> set s. no_space_byte c \<and> c \<notin> {CHR ''<'', CHR ''o'', CHR ''O'', CHR 0x00}" "EscapeString s = s"
  shows "SanitizeMessage s = s"
proof -
  have "remove_all script_match None s = s" "remove_all js_event_match None s = s"
    using assms(1) by (auto intro!: remove_all_id script_match_miss js_event_match_miss)
  moreover have "RemoveByte (CHR 0x00) s = s" using assms(1) by (simp add: RemoveByte_def filter_id_conv)
  ultimately show ?thesis using assms by (simp add: SanitizeMessage_def TrimSpace_id)
qed



lemma RemoveByte_simps [simp]:
  "RemoveByte c [] = []"
  "RemoveByte c (x # xs) = (if x = c then RemoveByte c xs else x # RemoveByte c xs)"
  "RemoveByte c (xs @ ys) = RemoveByte c xs @ RemoveByte c ys"
  by (simp_all add: RemoveByte_def)

lemma RemoveByte_set: "set (RemoveByte c s) = set s - {c}"
  by (auto simp: RemoveByte_def)

lemma RemoveByte_id: "c \<notin> set s \<Longrightarrow> RemoveByte c s = s"
  by (induction s) auto

lemma RemoveByte_subseq: "subseq (RemoveByte c s) s"
  unfolding RemoveByte_def by (rule subseq_filter_left)

lemma RemoveByte_Escape: "RemoveByte (CHR 0x00) (EscapeString s) = EscapeString (RemoveByte (CHR 0x00) s)"
proof (induction s)
  case (Cons c s)
  have "RemoveByte (CHR 0x00) (escape_byte c) = (if c = CHR 0x00 then [] else escape_byte c)"
    by (simp add: escape_byte.simps)
  then show ?case using Cons by simp
qed simp

definition markup_bytes :: "char set" where
  "markup_bytes = {CHR ''<'', CHR ''>'', CHR 0x22, CHR 0x27}"

lemma escape_byte_no_markup: "set (escape_byte c) \<inter> markup_bytes = {}"
  by (simp add: escape_byte.simps markup_bytes_def)

lemma EscapeString_no_markup: "set (EscapeString s) \<inter> markup_bytes = {}"
  using escape_byte_no_markup by (induction s) auto

text \<open>The text that the message sanitizer keeps, before it is escaped.\<close>

definition kept_text :: "string \<Rightarrow> string" where
  "kept_text input =
     RemoveByte (CHR 0x00) (remove_all js_event_match None (remove_all script_match None (TrimSpace input)))"

lemma SanitizeMessage_kept: "SanitizeMessage input = EscapeString (kept_text input)"
  by (simp add: SanitizeMessage_def kept_text_def Let_def RemoveByte_Escape)

lemma kept_text_subseq: "subseq (kept_text input) input"
proof -
  have "subseq (TrimSpace input) input"
    using TrimSpace_sublist sublist_imp_subseq by blast
  then show ?thesis
    unfolding kept_text_def using remove_all_subseq RemoveByte_subseq subseq_order.order_trans by metis
qed

lemma kept_text_no_nul: "CHR 0x00 \<notin> set (kept_text input)"
  by (simp add: kept_text_def RemoveByte_set)

text \<open>
  C37. Sanitized message text is inert: it contains no angle bracket, no quote and no NUL byte; and
  nothing is made up: undoing the entity escapes gives back a text obtained from the input by
  deleting bytes only.
\<close>

theorem SanitizeMessage_inert:
  "set (SanitizeMessage input) \<inter> (markup_bytes \<union> {CHR 0x00}) = {} \<and>
   subseq (unescape (SanitizeMessage input)) input"
proof -
  have "CHR 0x00 \<notin> set (SanitizeMessage input)"
    by (simp add: SanitizeMessage_def Let_def RemoveByte_set)
  moreover have "set (SanitizeMessage input) \<inter> markup_bytes = {}"
    by (simp add: SanitizeMessage_kept EscapeString_no_markup)
  ultimately show ?thesis
    using kept_text_subseq [of input] by (auto simp: SanitizeMessage_kept unescape_EscapeString)
qed

text \<open>
  Stripping script elements alone is not a defence: the single pass of \<open>scriptTagRegex\<close> turns a
  script element hidden inside another one into a complete script element. Only the escaping that
  \<open>SanitizeMessage\<close> applies afterwards makes it harmless.
\<close>

theorem nested_script_survives:
  "remove_all script_match None ''<scr<script></script>ipt>x</script>'' = ''<script>x</script>'' \<and>
   SanitizeMessage ''<scr<script></script>ipt>x</script>'' = ''&lt;script&gt;x&lt;/script&gt;''"
  by code_simp

end
