(* ===== verification/Validator.thy ===== *)
theory Validator
  imports Sanitization
begin

text \<open>
  \<open>pkg/validator/validator.go\<close>. The two anchored regular expressions are kept as regular expressions
  over byte classes, matched by derivatives; \<open>matches_iff\<close> ties the matcher to the language it
  denotes, from which the shape of accepted usernames and email addresses follows.
\<close>

section \<open>Regular expressions over bytes\<close>

datatype re = Zero | One | Cls "char \<Rightarrow> bool" | Alt re re | Seq re re | Star re

fun lang :: "re \<Rightarrow> string set" where
  "lang Zero = {}"
| "lang One = {[]}"
| "lang (Cls p) = {[c] | c. p c}"
| "lang (Alt r s) = lang r \<union> lang s"
| "lang (Seq r s) = {u @ v | u v. u \<in> lang r \<and> v \<in> lang s}"
| "lang (Star r) = {concat ws | ws. set ws \<subseteq> lang r}"

fun accepts_empty :: "re \<Rightarrow> bool" where
  "accepts_empty Zero = False"
| "accepts_empty One = True"
| "accepts_empty (Cls p) = False"
| "accepts_empty (Alt r s) = (accepts_empty r \<or> accepts_empty s)"
| "accepts_empty (Seq r s) = (accepts_empty r \<and> accepts_empty s)"
| "accepts_empty (Star r) = True"

fun after :: "char \<Rightarrow> re \<Rightarrow> re" where
  "after c Zero = Zero"
| "after c One = Zero"
| "after c (Cls p) = (if p c then One else Zero)"
| "after c (Alt r s) = Alt (after c r) (after c s)"
| "after c (Seq r s) =
     (if accepts_empty r then Alt (Seq (after c r) s) (after c s) else Seq (after c r) s)"
| "after c (Star r) = Seq (after c r) (Star r)"

fun matches :: "re \<Rightarrow> string \<Rightarrow> bool" where
  "matches r [] = accepts_empty r"
| "matches r (c # cs) = matches (after c r) cs"

lemma accepts_empty_iff: "accepts_empty r \<longleftrightarrow> [] \<in> lang r"
  by (induction r) (auto intro: exI [of _ "[]"])

lemma Star_Cons_iff: "c # w \<in> lang (Star r) \<longleftrightarrow> (\<exists>u v. w = u @ v \<and> c # u \<in> lang r \<and> v \<in> lang (Star r))"
proof
  assume "c # w \<in> lang (Star r)"
  then obtain ws where ws: "c # w = concat ws" "set ws \<subseteq> lang r" by auto
  then show "\<exists>u v. w = u @ v \<and> c # u \<in> lang r \<and> v \<in> lang (Star r)"
  proof (induction ws)
    case (Cons x ws)
    then show ?case by (cases x) auto
  qed simp
next
  assume "\<exists>u v. w = u @ v \<and> c # u \<in> lang r \<and> v \<in> lang (Star r)"
  then obtain u ws where "w = u @ concat ws" "c # u \<in> lang r" "set ws \<subseteq> lang r" by auto
  then have "c # w = concat ((c # u) # ws) \<and> set ((c # u) # ws) \<subseteq> lang r" by auto
  then show "c # w \<in> lang (Star r)" by (simp only: lang.simps mem_Collect_eq) blast
qed

lemma Seq_Cons_iff:
  "c # w \<in> lang (Seq r s) \<longleftrightarrow>
   (\<exists>u v. w = u @ v \<and> c # u \<in> lang r \<and> v \<in> lang s) \<or> ([] \<in> lang r \<and> c # w \<in> lang s)"
  by (auto simp: Cons_eq_append_conv)

lemma after_iff: "w \<in> lang (after c r) \<longleftrightarrow> c # w \<in> lang r"
proof (induction r arbitrary: w)
  case (Seq r s)
  then show ?case by (auto simp: Seq_Cons_iff accepts_empty_iff simp del: lang.simps(5)) 
     (auto simp: Seq)
next
  case (Star r)
  then show ?case by (auto simp: Star_Cons_iff simp del: lang.simps(6)) 
qed auto

lemma matches_iff: "matches r s \<longleftrightarrow> s \<in> lang r"
  by (induction s arbitrary: r) (auto simp: accepts_empty_iff after_iff)

section \<open>Repetition\<close>

fun exactly :: "nat \<Rightarrow> re \<Rightarrow> re" where
  "exactly 0 r = One"
| "exactly (Suc n) r = Seq r (exactly n r)"

fun at_most :: "nat \<Rightarrow> re \<Rightarrow> re" where
  "at_most 0 r = One"
| "at_most (Suc n) r = Alt One (Seq r (at_most n r))"

definition Plus :: "re \<Rightarrow> re" where
  "Plus r = Seq r (Star r)"

definition Lit :: "char \<Rightarrow> re" where
  "Lit c = Cls (\<lambda>x. x = c)"

lemma Seq_Cls_iff [simp]:
  "[] \<notin> lang (Seq (Cls p) r)"
  "c # w \<in> lang (Seq (Cls p) r) \<longleftrightarrow> p c \<and> w \<in> lang r"
  by (auto simp: Seq_Cons_iff simp del: lang.simps(5)) (auto intro: exI [of _ "[]"])

lemma Star_Nil [simp]: "[] \<in> lang (Star r)"
  by (auto intro: exI [of _ "[]"])

lemma Star_Cls_iff: "s \<in> lang (Star (Cls p)) \<longleftrightarrow> list_all p s"
  by (induction s) (auto simp: Star_Cons_iff simp del: lang.simps(6))

lemma Plus_Cls_iff: "s \<in> lang (Plus (Cls p)) \<longleftrightarrow> s \<noteq> [] \<and> list_all p s"
  unfolding Plus_def by (cases s) (simp_all add: Star_Cls_iff del: lang.simps)

lemma exactly_Cls_iff: "s \<in> lang (exactly n (Cls p)) \<longleftrightarrow> length s = n \<and> list_all p s"
proof (induction n arbitrary: s)
  case (Suc n)
  then show ?case by (cases s) (auto simp del: lang.simps(5))
qed auto

lemma at_most_Cls_iff: "s \<in> lang (at_most n (Cls p)) \<longleftrightarrow> length s \<le> n \<and> list_all p s"
proof (induction n arbitrary: s)
  case (Suc n)
  then show ?case by (cases s) (auto simp del: lang.simps(5))
qed auto

lemma Lit_Seq_iff: "s \<in> lang (Seq (Lit c) r) \<longleftrightarrow> (\<exists>w. s = c # w \<and> w \<in> lang r)"
  unfolding Lit_def by (cases s) (auto simp del: lang.simps(5))

lemma Seq_iff: "s \<in> lang (Seq r t) \<longleftrightarrow> (\<exists>u v. s = u @ v \<and> u \<in> lang r \<and> v \<in> lang t)"
  by auto

lemma bounded_Cls_iff:
  "s \<in> lang (Seq (exactly m (Cls p)) (at_most n (Cls p))) \<longleftrightarrow>
   m \<le> length s \<and> length s \<le> m + n \<and> list_all p s"
proof
  assume "s \<in> lang (Seq (exactly m (Cls p)) (at_most n (Cls p)))"
  then show "m \<le> length s \<and> length s \<le> m + n \<and> list_all p s"
    by (auto simp only: Seq_iff exactly_Cls_iff at_most_Cls_iff) auto
next
  assume h: "m \<le> length s \<and> length s \<le> m + n \<and> list_all p s"
  then have "s = take m s @ drop m s \<and> length (take m s) = m \<and> list_all p (take m s) \<and>
      length (drop m s) \<le> n \<and> list_all p (drop m s)"
    by (auto simp: list_all_iff dest: in_set_takeD in_set_dropD)
  then show "s \<in> lang (Seq (exactly m (Cls p)) (at_most n (Cls p)))"
    unfolding Seq_iff exactly_Cls_iff at_most_Cls_iff by blast
qed

lemma at_least_Cls_iff:
  "s \<in> lang (Seq (exactly m (Cls p)) (Star (Cls p))) \<longleftrightarrow> m \<le> length s \<and> list_all p s"
proof
  assume "s \<in> lang (Seq (exactly m (Cls p)) (Star (Cls p)))"
  then show "m \<le> length s \<and> list_all p s"
    by (auto simp only: Seq_iff exactly_Cls_iff Star_Cls_iff) auto
next
  assume h: "m \<le> length s \<and> list_all p s"
  then have "s = take m s @ drop m s \<and> length (take m s) = m \<and> list_all p (take m s) \<and> list_all p (drop m s)"
    by (auto simp: list_all_iff dest: in_set_takeD in_set_dropD)
  then show "s \<in> lang (Seq (exactly m (Cls p)) (Star (Cls p)))"
    unfolding Seq_iff exactly_Cls_iff Star_Cls_iff by blast
qed

section \<open>The validators\<close>

definition username_byte :: "char \<Rightarrow> bool" where
  "username_byte c \<longleftrightarrow> is_alpha c \<or> is_digit c \<or> c = CHR ''_'' \<or> c = CHR ''-''"

definition local_byte :: "char \<Rightarrow> bool" where
  "local_byte c \<longleftrightarrow> is_alpha c \<or> is_digit c \<or> c \<in> set ''._%+-''"

definition domain_byte :: "char \<Rightarrow> bool" where
  "domain_byte c \<longleftrightarrow> is_alpha c \<or> is_digit c \<or> c = CHR ''.'' \<or> c = CHR ''-''"

text \<open>\<open>^[a-zA-Z0-9._%+-]+@[a-zA-Z0-9.-]+\.[a-zA-Z]{2,}$\<close>\<close>

definition emailRegex :: re where
  "emailRegex =
     Seq (Plus (Cls local_byte))
       (Seq (Lit (CHR ''@''))
         (Seq (Plus (Cls domain_byte))
           (Seq (Lit (CHR ''.'')) (Seq (exactly 2 (Cls is_alpha)) (Star (Cls is_alpha))))))"

text \<open>\<open>^[a-zA-Z0-9_-]{3,30}$\<close>\<close>

definition usernameRegex :: re where
  "usernameRegex = Seq (exactly 3 (Cls username_byte)) (at_most 27 (Cls username_byte))"

definition ValidateEmail :: "string \<Rightarrow> unit result" where
  "ValidateEmail email = (if \<not> matches emailRegex email then Inl ErrInvalidEmail else Inr ())"

definition ValidateUsername :: "string \<Rightarrow> unit result" where
  "ValidateUsername username =
     (if length username < 3 then Inl ErrTooShort
      else if length username > 30 then Inl ErrTooLong
      else if \<not> matches usernameRegex username then Inl ErrInvalidUsername
      else Inr ())"

definition ValidatePassword :: "string \<Rightarrow> unit result" where
  "ValidatePassword password =
     (if length password < 8 then Inl ErrTooShort
      else if length password > 128 then Inl ErrTooLong
      else Inr ())"

definition ValidateRoomName :: "string \<Rightarrow> unit result" where
  "ValidateRoomName name =
     (if length name < 1 then Inl ErrTooShort
      else if length name > 100 then Inl ErrTooLong
      else Inr ())"

definition ValidateMessageContent :: "string \<Rightarrow> unit result" where
  "ValidateMessageContent content = (if length content > 4000 then Inl ErrTooLong else Inr ())"

definition SanitizeString :: "string \<Rightarrow> string" where
  "SanitizeString s = RemoveByte (CHR 0x00) (TrimSpace s)"

section \<open>What they accept\<close>

lemma matches_username:
  "matches usernameRegex u \<longleftrightarrow> 3 \<le> length u \<and> length u \<le> 30 \<and> list_all username_byte u"
  unfolding matches_iff usernameRegex_def bounded_Cls_iff by simp

lemma ValidateUsername_ok:
  "ValidateUsername u = Inr () \<longleftrightarrow> 3 \<le> length u \<and> length u \<le> 30 \<and> list_all username_byte u"
  by (auto simp: ValidateUsername_def matches_username)

lemma email_lang:
  "e \<in> lang emailRegex \<longleftrightarrow>
   (\<exists>l d t. e = l @ CHR ''@'' # d @ CHR ''.'' # t \<and> l \<noteq> [] \<and> list_all local_byte l \<and>
      d \<noteq> [] \<and> list_all domain_byte d \<and> 2 \<le> length t \<and> list_all is_alpha t)"
proof -
  let ?T = "Seq (Lit (CHR ''.'')) (Seq (exactly 2 (Cls is_alpha)) (Star (Cls is_alpha)))"
  have t: "x \<in> lang ?T \<longleftrightarrow> (\<exists>t. x = CHR ''.'' # t \<and> 2 \<le> length t \<and> list_all is_alpha t)" for x
    by (simp only: Lit_Seq_iff at_least_Cls_iff)
  have d: "x \<in> lang (Seq (Plus (Cls domain_byte)) ?T) \<longleftrightarrow>
      (\<exists>d t. x = d @ CHR ''.'' # t \<and> d \<noteq> [] \<and> list_all domain_byte d \<and> 2 \<le> length t \<and> list_all is_alpha t)" for x
    unfolding Seq_iff [of x "Plus (Cls domain_byte)"] Plus_Cls_iff t by blast
  show ?thesis
    unfolding emailRegex_def Seq_iff [of e "Plus (Cls local_byte)"] Plus_Cls_iff Lit_Seq_iff d by blast
qed

text \<open>
  C38. The email check accepts exactly the strings local@domain.tld over the three byte classes, with
  a non-empty local part and domain and a top-level part of at least two letters.
\<close>

theorem ValidateEmail_iff:
  "ValidateEmail e = Inr () \<longleftrightarrow>
   (\<exists>l d t. e = l @ ''@'' @ d @ ''.'' @ t \<and> l \<noteq> [] \<and> list_all local_byte l \<and>
      d \<noteq> [] \<and> list_all domain_byte d \<and> 2 \<le> length t \<and> list_all is_alpha t)"
  unfolding ValidateEmail_def matches_iff email_lang by auto

lemma username_byte_not_special:
  "username_byte c \<Longrightarrow> c \<noteq> CHR ''&'' \<and> c \<noteq> CHR ''<'' \<and> c \<noteq> CHR ''>'' \<and> c \<noteq> CHR 0x22 \<and> c \<noteq> CHR 0x27"
  by (auto simp: username_byte_def is_upper_def is_lower_def is_digit_def)

lemma escape_byte_username:
  "list_all username_byte (escape_byte c) \<Longrightarrow> escape_byte c = [c] \<and> username_byte c"
  using username_byte_not_special [of "CHR ''&''"] by (auto simp: escape_byte.simps split: if_splits)

lemma EscapeString_username:
  "list_all username_byte (EscapeString s) \<Longrightarrow> EscapeString s = s"
proof (induction s)
  case (Cons c s)
  then show ?case using escape_byte_username [of c] by (auto simp: list_all_append)
qed simp

text \<open>
  A username that passes registration is 3 to 30 bytes of letters, digits, underscore and
  hyphen, and it is what the user typed up to surrounding white space and NUL bytes: escaping never
  changed it.
\<close>

theorem registered_username:
  assumes "ValidateUsername (SanitizeUsername input) = Inr ()"
  shows "SanitizeUsername input = RemoveByte (CHR 0x00) (TrimSpace input) \<and>
    3 \<le> length (SanitizeUsername input) \<and> length (SanitizeUsername input) \<le> 30 \<and>
    list_all username_byte (SanitizeUsername input)"
proof -
  have e: "SanitizeUsername input = EscapeString (RemoveByte (CHR 0x00) (TrimSpace input))"
    by (simp add: SanitizeUsername_def RemoveByte_Escape)
  have ok: "3 \<le> length (SanitizeUsername input) \<and> length (SanitizeUsername input) \<le> 30 \<and>
      list_all username_byte (SanitizeUsername input)"
    using assms by (simp only: ValidateUsername_ok)
  then show ?thesis using EscapeString_username e by metis
qed

theorem registered_username_witness:
  "SanitizeUsername '' ann_b '' = ''ann_b'' \<and> list_all username_byte (SanitizeUsername '' ann_b '')"
proof -
  have s: "SanitizeUsername '' ann_b '' = ''ann_b''" by code_simp
  have v: "ValidateUsername (SanitizeUsername '' ann_b '') = Inr ()"
    unfolding s by (simp add: ValidateUsername_ok username_byte_def is_lower_def)
  show ?thesis using registered_username [OF v] s by blast
qed

end
