(* ===== verification/Message_Service.thy ===== *)
theory Message_Service
  imports World Sanitization Validator
begin

text \<open>
  \<open>internal/service/message_service.go\<close>: sending with deduplication, editing, deleting and reacting.
  \<open>ps\<close> is the pub/sub of the service, \<^const>\<open>None\<close> for a nil interface.
\<close>

section \<open>Deduplication\<close>

definition dedupTTL :: gotime where
  "dedupTTL = 5 * minute"

definition dedup_key :: "string \<Rightarrow> string \<Rightarrow> string" where
  "dedup_key userID clientID = userID @ '':'' @ clientID"

text \<open>\<open>checkDedup\<close>: the message sent before, \<^const>\<open>None\<close> for "not a duplicate".\<close>

definition checkDedup ::
    "'r redis_api option \<Rightarrow> env \<Rightarrow> string \<Rightarrow> string \<Rightarrow> 'r world \<Rightarrow> message option \<times> 'r world" where
  "checkDedup ps e userID clientID w =
     (let key = dedup_key userID clientID in
      case ps of
        Some api \<Rightarrow>
          ((case GetDedup api e key (w_bus w) of
              Inl _ \<Rightarrow> None
            | Inr msgID \<Rightarrow>
               (if msgID = [] then None
                else case MessageRepo_GetByID e msgID (w_db w) of Inl _ \<Rightarrow> None | Inr m \<Rightarrow> Some m)), w)
      | None \<Rightarrow>
          (case w_dedup w key of
             None \<Rightarrow> (None, w)
           | Some (msgID, stored) \<Rightarrow>
              (case (if now e ''check_dedup'' - stored < dedupTTL
                     then MessageRepo_GetByID e msgID (w_db w) else Inl (Err ''expired'')) of
                 Inr m \<Rightarrow> (Some m, w)
               | Inl _ \<Rightarrow> (None, w\<lparr>w_dedup := (w_dedup w)(key := None)\<rparr>))))"

definition markDedup ::
    "'r redis_api option \<Rightarrow> env \<Rightarrow> string \<Rightarrow> string \<Rightarrow> string \<Rightarrow> 'r world \<Rightarrow> 'r world" where
  "markDedup ps e userID clientID msgID w =
     (let key = dedup_key userID clientID in
      case ps of
        Some api \<Rightarrow> snd (on_bus (SetDedup api e key msgID dedupTTL) w)
      | None \<Rightarrow> w\<lparr>w_dedup := (w_dedup w)(key \<mapsto> (msgID, now e ''mark_dedup''))\<rparr>)"

section \<open>Sending\<close>

record send_input =
  in_room :: string
  in_user :: string
  in_content :: string
  in_type :: content_type
  in_parent :: "string option"
  in_client :: string

definition new_message :: "send_input \<Rightarrow> string \<Rightarrow> message" where
  "new_message inp content = \<lparr>m_id = [], m_room_id = in_room inp, m_user_id = in_user inp, m_content = content,
     m_content_type = in_type inp, m_parent_id = in_parent inp, m_thread_count = 0, m_edited_at = None,
     m_deleted_at = None, m_deleted_by = None, m_reactions = None, m_attachments = None,
     m_metadata = \<lparr>md_client_id = [], md_reply_to = None, md_forwarded_from = None, md_custom_data = None\<rparr>,
     m_created_at = zero_time, m_client_timestamp = None\<rparr>"

definition new_message_event :: "message \<Rightarrow> json" where
  "new_message_event m = JObj [(''room_id'', JStr (m_room_id m)), (''message'', message_json m)]"

text \<open>The content as it is stored: sanitized, then trimmed.\<close>

definition clean_content :: "string \<Rightarrow> string" where
  "clean_content s = TrimSpace (SanitizeMessage s)"

text \<open>The part of \<open>SendMessage\<close> after the duplicate check.\<close>

definition send_new :: "'r redis_api option \<Rightarrow> env \<Rightarrow> send_input \<Rightarrow> 'r world \<Rightarrow> message result \<times> 'r world" where
  "send_new ps e inp w =
     (let content = clean_content (in_content inp) in
      if content = [] then (Inl (Err ''content cannot be empty''), w)
      else case ValidateMessageContent content of
        Inl x \<Rightarrow> (Inl x, w)
      | Inr _ \<Rightarrow>
         (case RoomRepo_GetByID e (in_room inp) (w_db w) of
            Inl _ \<Rightarrow> (Inl (Err ''room not found''), w)
          | Inr _ \<Rightarrow>
             (case RoomRepo_IsMember e (in_room inp) (in_user inp) (w_db w) of
                Inl x \<Rightarrow> (Inl x, w)
              | Inr False \<Rightarrow> (Inl (Err ''unauthorized: not a member of this room''), w)
              | Inr True \<Rightarrow>
                 (case on_db (\<lambda>d. let (r, m, d') = MessageRepo_Create e (new_message inp content) d in ((r, m), d')) w of
                    ((Inl x, _), w1) \<Rightarrow> (Inl x, w1)
                  | ((Inr _, m), w1) \<Rightarrow>
                     let w2 = (if in_client inp \<noteq> [] then markDedup ps e (in_user inp) (in_client inp) (m_id m) w1 else w1)
                     in (Inr m, publish_room ps e (m_room_id m) (new_message_event m) w2)))))"

definition SendMessage :: "'r redis_api option \<Rightarrow> env \<Rightarrow> send_input \<Rightarrow> 'r world \<Rightarrow> message result \<times> 'r world" where
  "SendMessage ps e inp w =
     (if in_client inp \<noteq> [] then
        (case checkDedup ps e (in_user inp) (in_client inp) w of
           (Some existing, w1) \<Rightarrow> (Inr existing, w1)
         | (None, w1) \<Rightarrow> send_new ps e inp w1)
      else send_new ps e inp w)"

definition GetMessage :: "env \<Rightarrow> string \<Rightarrow> 'r world \<Rightarrow> message result" where
  "GetMessage e i w = MessageRepo_GetByID e i (w_db w)"

definition GetRoomMessages :: "env \<Rightarrow> string \<Rightarrow> int \<Rightarrow> gotime option \<Rightarrow> 'r world \<Rightarrow> message list result" where
  "GetRoomMessages e r n before w = GetByRoom e r n before (w_db w)"

section \<open>Editing\<close>

text \<open>
  \<open>EditMessage\<close> reads the message and checks the requester, then writes the message it has read: the two
  halves are named, because other requests can run between them.
\<close>

definition edit_check :: "env \<Rightarrow> string \<Rightarrow> string \<Rightarrow> string \<Rightarrow> 'r world \<Rightarrow> message result" where
  "edit_check e msgID requesterID text w =
     (let content = clean_content text in
      if content = [] then Inl (Err ''content cannot be empty'')
      else case ValidateMessageContent content of
        Inl x \<Rightarrow> Inl x
      | Inr _ \<Rightarrow>
         (case MessageRepo_GetByID e msgID (w_db w) of
            Inl x \<Rightarrow> Inl x
          | Inr msg \<Rightarrow>
             (if m_deleted_at msg \<noteq> None then Inl (Err ''cannot edit deleted message'')
              else if m_user_id msg \<noteq> requesterID then Inl (Err ''unauthorized: only message author can edit this message'')
              else case RoomRepo_IsMember e (m_room_id msg) requesterID (w_db w) of
                Inr True \<Rightarrow> Inr (msg\<lparr>m_content := content\<rparr>)
              | _ \<Rightarrow> Inl (Err ''unauthorized: not a member of this room''))))"

definition edited_event :: "message \<Rightarrow> json" where
  "edited_event m = JObj [(''room_id'', JStr (m_room_id m)), (''message'', message_json m), (''action'', JStr ''edited'')]"

definition edit_write :: "'r redis_api option \<Rightarrow> env \<Rightarrow> message \<Rightarrow> 'r world \<Rightarrow> unit result \<times> 'r world" where
  "edit_write ps e msg w =
     (case on_db (\<lambda>d. let (r, m, d') = MessageRepo_Update e msg d in ((r, m), d')) w of
        ((Inl x, _), w1) \<Rightarrow> (Inl x, w1)
      | ((Inr _, m), w1) \<Rightarrow> (Inr (), publish_room ps e (m_room_id m) (edited_event m) w1))"

definition EditMessage :: "'r redis_api option \<Rightarrow> env \<Rightarrow> string \<Rightarrow> string \<Rightarrow> string \<Rightarrow> 'r world \<Rightarrow> unit result \<times> 'r world" where
  "EditMessage ps e msgID requesterID text w =
     (case edit_check e msgID requesterID text w of Inl x \<Rightarrow> (Inl x, w) | Inr msg \<Rightarrow> edit_write ps e msg w)"

section \<open>Deleting\<close>

definition may_moderate :: "member_role \<Rightarrow> bool" where
  "may_moderate role \<longleftrightarrow> \<not> (role \<noteq> RoleOwner \<and> role \<noteq> RoleAdmin \<and> role \<noteq> RoleModerator)"

definition deleted_event :: "string \<Rightarrow> string \<Rightarrow> json" where
  "deleted_event room i = JObj [(''room_id'', JStr room), (''message_id'', JStr i), (''action'', JStr ''deleted'')]"

definition delete_check :: "env \<Rightarrow> string \<Rightarrow> string \<Rightarrow> 'r world \<Rightarrow> message result" where
  "delete_check e msgID requesterID w =
     (case MessageRepo_GetByID e msgID (w_db w) of
        Inl x \<Rightarrow> Inl x
      | Inr msg \<Rightarrow>
         (if m_deleted_at msg \<noteq> None then Inl (Err ''message already deleted'')
          else case RoomRepo_IsMember e (m_room_id msg) requesterID (w_db w) of
            Inr True \<Rightarrow>
             (if m_user_id msg \<noteq> requesterID then
                (case GetMember e (m_room_id msg) requesterID (w_db w) of
                   Inl _ \<Rightarrow> Inl (Err ''unauthorized: permission denied to delete this message'')
                 | Inr member \<Rightarrow>
                    (if may_moderate (rm_role member) then Inr msg
                     else Inl (Err ''unauthorized: only author or room moderator/admin can delete this message'')))
              else Inr msg)
          | _ \<Rightarrow> Inl (Err ''unauthorized: not a member of this room'')))"

definition DeleteMessage :: "'r redis_api option \<Rightarrow> env \<Rightarrow> string \<Rightarrow> string \<Rightarrow> 'r world \<Rightarrow> unit result \<times> 'r world" where
  "DeleteMessage ps e msgID requesterID w =
     (case delete_check e msgID requesterID w of
        Inl x \<Rightarrow> (Inl x, w)
      | Inr msg \<Rightarrow>
         (case on_db (MessageRepo_Delete e msgID requesterID) w of
            (Inl x, w1) \<Rightarrow> (Inl x, w1)
          | (Inr _, w1) \<Rightarrow> (Inr (), publish_room ps e (m_room_id msg) (deleted_event (m_room_id msg) msgID) w1)))"

definition MessageService_GetThread :: "env \<Rightarrow> string \<Rightarrow> int \<Rightarrow> 'r world \<Rightarrow> message list result" where
  "MessageService_GetThread e p n w = GetThread e p n (w_db w)"

section \<open>Reactions\<close>

text \<open>A missing key of the map reads as the nil slice.\<close>

definition reacted_users :: "reactions \<Rightarrow> string \<Rightarrow> string list" where
  "reacted_users current emoji = (case map_of current emoji of None \<Rightarrow> [] | Some us \<Rightarrow> us)"

definition add_user :: "string \<Rightarrow> string \<Rightarrow> reactions \<Rightarrow> reactions" where
  "add_user emoji userID current =
     (if userID \<in> set (reacted_users current emoji) then current
      else AList.update emoji (reacted_users current emoji @ [userID]) current)"

definition remove_user :: "string \<Rightarrow> string \<Rightarrow> reactions \<Rightarrow> reactions" where
  "remove_user emoji userID current =
     (if userID \<in> set (reacted_users current emoji) then
        (let us = remove1 userID (reacted_users current emoji)
         in if us = [] then AList.delete emoji current else AList.update emoji us current)
      else current)"

definition reaction_check :: "env \<Rightarrow> string \<Rightarrow> string \<Rightarrow> string \<Rightarrow> 'r world \<Rightarrow> unit result" where
  "reaction_check e deleted_msg msgID userID w =
     (case MessageRepo_GetByID e msgID (w_db w) of
        Inl x \<Rightarrow> Inl x
      | Inr msg \<Rightarrow>
         (if m_deleted_at msg \<noteq> None then Inl (Err deleted_msg)
          else case RoomRepo_IsMember e (m_room_id msg) userID (w_db w) of
            Inr True \<Rightarrow> Inr ()
          | _ \<Rightarrow> Inl (Err ''unauthorized: not a member of this room'')))"

definition AddReaction :: "env \<Rightarrow> string \<Rightarrow> string \<Rightarrow> string \<Rightarrow> 'r world \<Rightarrow> unit result \<times> 'r world" where
  "AddReaction e msgID emoji userID w =
     (case reaction_check e ''cannot react to deleted message'' msgID userID w of
        Inl x \<Rightarrow> (Inl x, w)
      | Inr _ \<Rightarrow> on_db (UpdateReactionsTx e msgID (\<lambda>current. Inr (add_user emoji userID current))) w)"

definition RemoveReaction :: "env \<Rightarrow> string \<Rightarrow> string \<Rightarrow> string \<Rightarrow> 'r world \<Rightarrow> unit result \<times> 'r world" where
  "RemoveReaction e msgID emoji userID w =
     (case reaction_check e ''cannot remove reaction from deleted message'' msgID userID w of
        Inl x \<Rightarrow> (Inl x, w)
      | Inr _ \<Rightarrow> on_db (UpdateReactionsTx e msgID (\<lambda>current. Inr (remove_user emoji userID current))) w)"

end
