(* ===== verification/User_Service.thy ===== *)
theory User_Service
  imports Room_Cache
begin

text \<open>
  \<open>internal/service/user_service.go\<close> and \<open>presence_service.go\<close>: users read through the cache, and presence
  over pub/sub (\<^const>\<open>None\<close> for a nil interface).
\<close>

section \<open>Users\<close>

definition user_key :: "string \<Rightarrow> string" where
  "user_key i = ''user:'' @ i"

definition UserService_GetByID :: "'r redis_api \<Rightarrow> env \<Rightarrow> string \<Rightarrow> 'r world \<Rightarrow> user result \<times> 'r world" where
  "UserService_GetByID api e i w =
     (case GetObject api e user_of_json (user_key i) (w_bus w) of
        Inr cached \<Rightarrow> (Inr cached, w)
      | Inl _ \<Rightarrow>
         (case UserRepo_GetByID e i (w_db w) of
            Inl x \<Rightarrow> (Inl x, w)
          | Inr u \<Rightarrow> (Inr u, snd (on_bus (SetObject api e (user_key i) (user_json u) (5 * minute)) w))))"

definition UserService_GetByUsername :: "env \<Rightarrow> string \<Rightarrow> 'r world \<Rightarrow> user result" where
  "UserService_GetByUsername e n w = UserRepo_GetByUsername e n (w_db w)"

definition UserService_Update :: "'r redis_api \<Rightarrow> env \<Rightarrow> user \<Rightarrow> 'r world \<Rightarrow> unit result \<times> 'r world" where
  "UserService_Update api e u w =
     (case on_db (\<lambda>d. let (r, _, d') = UserRepo_Update e u d in (r, d')) w of
        (Inl x, w1) \<Rightarrow> (Inl x, w1)
      | (Inr _, w1) \<Rightarrow> (Inr (), snd (on_bus (cache_del api e (user_key (u_id u))) w1)))"

definition UserService_Search :: "env \<Rightarrow> string \<Rightarrow> int \<Rightarrow> 'r world \<Rightarrow> user list result" where
  "UserService_Search e q n w =
     (case UserRepo_Search e q n (w_db w) of
        Inl x \<Rightarrow> Inl x
      | Inr us \<Rightarrow> Inr (map (\<lambda>u. u\<lparr>u_password_hash := []\<rparr>) us))"

definition UpdateStatus :: "env \<Rightarrow> string \<Rightarrow> string \<Rightarrow> 'r world \<Rightarrow> unit result \<times> 'r world" where
  "UpdateStatus e i status w =
     (case UserRepo_GetByID e i (w_db w) of
        Inl x \<Rightarrow> (Inl x, w)
      | Inr u \<Rightarrow>
         (let u1 = u\<lparr>u_status := status\<rparr>;
              u2 = (if status = status_text StatusOffline then u1\<lparr>u_last_seen_at := Some (now e ''update_status'')\<rparr> else u1)
          in on_db (\<lambda>d. let (r, _, d') = UserRepo_Update e u2 d in (r, d')) w))"

section \<open>Presence\<close>

definition PresenceService_SetPresence ::
    "'r redis_api option \<Rightarrow> env \<Rightarrow> string \<Rightarrow> string \<Rightarrow> client_info \<Rightarrow> 'r world \<Rightarrow> unit result \<times> 'r world" where
  "PresenceService_SetPresence ps e u status info w =
     (case ps of
        None \<Rightarrow> (Inr (), w)
      | Some api \<Rightarrow> on_bus (SetPresence api e u \<lparr>p_user_id = u, p_status = status, p_last_active = now e ''last_active'',
          p_current_room = None, p_client_info = info\<rparr>) w)"

definition PresenceService_GetPresence :: "'r redis_api option \<Rightarrow> env \<Rightarrow> string \<Rightarrow> 'r world \<Rightarrow> presence option result" where
  "PresenceService_GetPresence ps e u w = (case ps of None \<Rightarrow> Inr None | Some api \<Rightarrow> GetPresence api e u (w_bus w))"

definition PresenceService_GetPresences ::
    "'r redis_api option \<Rightarrow> env \<Rightarrow> string list \<Rightarrow> 'r world \<Rightarrow> (string \<rightharpoonup> presence) result" where
  "PresenceService_GetPresences ps e us w =
     (case ps of None \<Rightarrow> Inr Map.empty | Some api \<Rightarrow> GetPresences api e us (w_bus w))"

definition SetAndBroadcast ::
    "'r redis_api option \<Rightarrow> env \<Rightarrow> string \<Rightarrow> string \<Rightarrow> client_info \<Rightarrow> 'r world \<Rightarrow> unit result \<times> 'r world" where
  "SetAndBroadcast ps e u status info = PresenceService_SetPresence ps e u status info"

section \<open>What the cache of users shows\<close>

lemma UpdateStatus_frame: "w_bus (snd (UpdateStatus e i st w)) = w_bus w"
  by (auto simp: UpdateStatus_def Let_def split: sum.splits)

lemma UserRepo_Update_ok:
  "UserRepo_Update e u d = (Inr (), u', d') \<Longrightarrow> update_user (u\<lparr>u_updated_at := now e ''update_user''\<rparr>) d = Inr d'"
  using db_exec_ok [of e "''update_user''" "update_user (u\<lparr>u_updated_at := now e ''update_user''\<rparr>)" d "()" d']
  by (auto simp: UserRepo_Update_def Let_def split_beta prod_eq_iff)

lemma update_user_status:
  "update_user v d = Inr d' \<Longrightarrow> u \<in> set (t_users d) \<Longrightarrow> u_id u = u_id v \<Longrightarrow>
   \<exists>row \<in> set (t_users d'). u_id row = u_id v \<and> u_status row = u_status v"
  by (rule bexI [of _ "u\<lparr>u_username := u_username v, u_email := u_email v, u_display_name := u_display_name v,
      u_avatar_url := u_avatar_url v, u_status := u_status v, u_last_seen_at := map_option pg_time (u_last_seen_at v),
      u_updated_at := pg_time (u_updated_at v), u_metadata := u_metadata v\<rparr>"])
    (auto simp: update_user_def set_sql_update image_iff split: if_splits intro!: bexI [of _ u])

lemma UpdateStatus_row:
  assumes "UpdateStatus e i st w = (Inr (), w')"
  shows "\<exists>row \<in> set (t_users (w_db w')). u_id row = i \<and> u_status row = st"
proof -
  obtain u where u: "UserRepo_GetByID e i (w_db w) = Inr u"
    using assms by (auto simp: UpdateStatus_def split: sum.splits)
  then have row: "u \<in> set (t_users (w_db w))" "u_id u = i"
    by (auto simp: UserRepo_GetByID_def dest!: db_query_ok sql_row_SomeD)
  let ?u = "if st = status_text StatusOffline then u\<lparr>u_status := st, u_last_seen_at := Some (now e ''update_status'')\<rparr> else u\<lparr>u_status := st\<rparr>"
  have "UserRepo_Update e ?u (w_db w) = (Inr (), fst (snd (UserRepo_Update e ?u (w_db w))), w_db w')"
    using assms u by (auto simp: UpdateStatus_def Let_def on_db_def split_beta prod_eq_iff split: if_splits)
  from UserRepo_Update_ok [OF this] have "update_user (?u\<lparr>u_updated_at := now e ''update_user''\<rparr>) (w_db w) = Inr (w_db w')" .
  then show ?thesis
    using row update_user_status [of "?u\<lparr>u_updated_at := now e ''update_user''\<rparr>" "w_db w" "w_db w'" u] by (auto split: if_splits)
qed

lemma presence_roundtrip_bus:
  assumes "redis_server api zmap" "no_faults e" "no_faults e'"
    "redis_now e' (''GET presence:'' @ u) < redis_now e (''SET presence:'' @ u) + 5 * minute"
  shows "GetPresence api e' u (snd (SetPresence api e u p b)) = Inr (Some p)"
proof -
  have pos: "0 < 5 * minute" by (simp add: time_units)
  have "cmd_get api t (''presence:'' @ u) (store (snd (SetPresence api e u p b))) =
      (if t < redis_now e (''SET presence:'' @ u) + 5 * minute then Some (Json (presence_json p)) else None)" for t
    using assms(2) expiring_store.look_put [OF redis_server.axioms(1) [OF assms(1)] pos]
    by (simp add: SetPresence_def Let_def set_key_def split_beta)
  then show ?thesis
    using assms(3,4) by (simp add: GetPresence_def get_key_def unmarshal_presence_def)
qed

text \<open>
  \<open>UpdateStatus\<close> leaves the cached user alone: a user that was read from the database, and so cached, is
  still read with the old status after its status has been changed, until the entry expires after five minutes,
  while the row has the new status.
\<close>

theorem UpdateStatus_stale:
  assumes "redis_server api zmap" "no_faults e1" "no_faults e3"
    and "GetObject api e1 user_of_json (user_key i) (w_bus w) = Inl x" "UserService_GetByID api e1 i w = (Inr u, w1)"
    and "UpdateStatus e2 i status w1 = (Inr (), w2)"
    and "redis_now e3 (''GET user:'' @ i) < redis_now e1 (''SET user:'' @ i) + 5 * minute"
  shows "UserService_GetByID api e3 i w2 = (Inr (u\<lparr>u_password_hash := []\<rparr>), w2) \<and>
    (\<exists>row \<in> set (t_users (w_db w2)). u_id row = i \<and> u_status row = status)"
proof -
  have pos: "0 < 5 * minute" by (simp add: time_units)
  have "w_bus w1 = snd (SetObject api e1 (user_key i) (user_json u) (5 * minute) (w_bus w))"
    using assms(4,5) by (auto simp: UserService_GetByID_def on_bus_def split_beta split: sum.splits)
  moreover have "w_bus w2 = w_bus w1" using UpdateStatus_frame [of e2 i status w1] assms(6) by simp
  ultimately have "GetObject api e3 user_of_json (user_key i) (w_bus w2) = Inr (u\<lparr>u_password_hash := []\<rparr>)"
    using assms(2,3,7) expiring_store.look_put [OF redis_server.axioms(1) [OF assms(1)] pos]
    by (simp add: GetObject_def cache_get_def get_key_def SetObject_def set_key_def user_key_def)
  then show ?thesis using UpdateStatus_row [OF assms(6)] by (simp add: UserService_GetByID_def)
qed

lemma UpdateStatus_stale_witness:
  "\<exists>w1 w2. UserService_GetByID ref_api (quiet_env 7000) ''bob'' sample_world = (Inr (sample_user ''bob''), w1) \<and>
     UpdateStatus (quiet_env 8000) ''bob'' ''away'' w1 = (Inr (), w2) \<and>
     UserService_GetByID ref_api (quiet_env 9000) ''bob'' w2 = (Inr ((sample_user ''bob'')\<lparr>u_password_hash := []\<rparr>), w2) \<and>
     (\<exists>row \<in> set (t_users (w_db w2)). u_id row = ''bob'' \<and> u_status row = ''away'')"
proof -
  have miss: "GetObject ref_api (quiet_env 7000) user_of_json (user_key ''bob'') (w_bus sample_world) = Inl (Err ''redis: nil'')"
    by (simp add: GetObject_def cache_get_def get_key_def ref_api_def ref_empty_def)
  let ?w1 = "snd (on_bus (SetObject ref_api (quiet_env 7000) (user_key ''bob'') (user_json (sample_user ''bob'')) (5 * minute)) sample_world)"
  have row: "UserRepo_GetByID (quiet_env t) ''bob'' sample_db = Inr (sample_user ''bob'')" for t
    by (simp add: UserRepo_GetByID_def sql_row_def sample_db_def sample_user_def)
  have first: "UserService_GetByID ref_api (quiet_env 7000) ''bob'' sample_world = (Inr (sample_user ''bob''), ?w1)"
    using miss row by (simp add: UserService_GetByID_def)
  have db: "w_db ?w1 = sample_db" by (simp add: on_bus_def split_beta)
  then obtain w2 where second: "UpdateStatus (quiet_env 8000) ''bob'' ''away'' ?w1 = (Inr (), w2)"
    using row by (simp add: UpdateStatus_def Let_def on_db_def UserRepo_Update_def update_user_def sql_exists_def sample_db_def
        sample_user_def)
  from UpdateStatus_stale [OF ref.redis_server_axioms _ _ miss first second, of "quiet_env 9000"]
  show ?thesis using first second by (simp add: time_units)
qed

end
