(* ===== verification/Protocol.thy ===== *)
theory Protocol
  imports Model Go_Strings
begin

text \<open>
  \<open>internal/protocol/message.go\<close>: the frames between client and server, how the data of a client frame
  unmarshals, and how a server frame is made. Bytes that are not JSON are the caller's case; the id of a server
  frame and its time come from the caller.
\<close>

section \<open>Frames\<close>

datatype client_msg_type = ClientMsgSubscribe | ClientMsgUnsubscribe | ClientMsgMessage | ClientMsgTyping
  | ClientMsgReadReceipt | ClientMsgReaction | ClientMsgEdit | ClientMsgDelete | ClientMsgPresence | ClientMsgPing

fun client_type_text :: "client_msg_type \<Rightarrow> string" where
  "client_type_text ClientMsgSubscribe = ''subscribe''"
| "client_type_text ClientMsgUnsubscribe = ''unsubscribe''"
| "client_type_text ClientMsgMessage = ''message''"
| "client_type_text ClientMsgTyping = ''typing''"
| "client_type_text ClientMsgReadReceipt = ''read_receipt''"
| "client_type_text ClientMsgReaction = ''reaction''"
| "client_type_text ClientMsgEdit = ''edit''"
| "client_type_text ClientMsgDelete = ''delete''"
| "client_type_text ClientMsgPresence = ''presence''"
| "client_type_text ClientMsgPing = ''ping''"

definition client_types :: "client_msg_type list" where
  "client_types = [ClientMsgSubscribe, ClientMsgUnsubscribe, ClientMsgMessage, ClientMsgTyping, ClientMsgReadReceipt,
     ClientMsgReaction, ClientMsgEdit, ClientMsgDelete, ClientMsgPresence, ClientMsgPing]"

text \<open>\<open>ClientMessageType\<close> is a string type; a \<open>switch\<close> on it compares with the constants.\<close>

definition client_type_of :: "string \<Rightarrow> client_msg_type option" where
  "client_type_of s = find (\<lambda>t. client_type_text t = s) client_types"

datatype server_msg_type = ServerMsgConnection | ServerMsgAck | ServerMsgError | ServerMsgNewMessage
  | ServerMsgMessageUpdated | ServerMsgTyping | ServerMsgPresence | ServerMsgReadReceipt | ServerMsgReaction
  | ServerMsgRoomUpdated | ServerMsgMemberJoined | ServerMsgMemberLeft | ServerMsgSystem | ServerMsgPong

fun server_type_text :: "server_msg_type \<Rightarrow> string" where
  "server_type_text ServerMsgConnection = ''connection''"
| "server_type_text ServerMsgAck = ''ack''"
| "server_type_text ServerMsgError = ''error''"
| "server_type_text ServerMsgNewMessage = ''new_message''"
| "server_type_text ServerMsgMessageUpdated = ''message_updated''"
| "server_type_text ServerMsgTyping = ''typing''"
| "server_type_text ServerMsgPresence = ''presence''"
| "server_type_text ServerMsgReadReceipt = ''read_receipt''"
| "server_type_text ServerMsgReaction = ''reaction''"
| "server_type_text ServerMsgRoomUpdated = ''room_updated''"
| "server_type_text ServerMsgMemberJoined = ''member_joined''"
| "server_type_text ServerMsgMemberLeft = ''member_left''"
| "server_type_text ServerMsgSystem = ''system''"
| "server_type_text ServerMsgPong = ''pong''"

text \<open>\<open>json.RawMessage\<close>: nil when the key is missing, and then unmarshalling it is an error.\<close>

record client_message =
  cm_id :: string
  cm_type :: string
  cm_timestamp :: gotime
  cm_data :: "json option"

definition client_message_of_json :: "json \<Rightarrow> client_message option" where
  "client_message_of_json j =
     (if \<not> is_struct j then None
      else case (str_field ''id'' j, str_field ''type'' j, time_field ''timestamp'' j) of
        (Some i, Some t, Some s) \<Rightarrow> Some \<lparr>cm_id = i, cm_type = t, cm_timestamp = s, cm_data = field ''data'' j\<rparr>
      | _ \<Rightarrow> None)"

definition client_message_json :: "client_message \<Rightarrow> json" where
  "client_message_json m = JObj ([(''id'', JStr (cm_id m)), (''type'', JStr (cm_type m)),
     (''timestamp'', JTime (cm_timestamp m))] @ (case cm_data m of None \<Rightarrow> [] | Some d \<Rightarrow> [(''data'', d)]))"

record server_message =
  sm_id :: string
  sm_type :: server_msg_type
  sm_timestamp :: gotime
  sm_data :: json

text \<open>\<open>ToJSON\<close>, and \<open>NewServerMessage\<close> with the id of \<open>generateID\<close> and the time.\<close>

definition server_message_json :: "server_message \<Rightarrow> json" where
  "server_message_json m = JObj [(''id'', JStr (sm_id m)), (''type'', JStr (server_type_text (sm_type m))),
     (''timestamp'', JTime (sm_timestamp m)), (''data'', sm_data m)]"

definition NewServerMessage :: "string \<Rightarrow> gotime \<Rightarrow> server_msg_type \<Rightarrow> json \<Rightarrow> server_message" where
  "NewServerMessage i t ty d = \<lparr>sm_id = i, sm_type = ty, sm_timestamp = t, sm_data = d\<rparr>"

section \<open>Data of client frames\<close>

text \<open>A list of strings: null is the nil slice, and null inside the list is the empty string.\<close>

fun str_elems :: "json list \<Rightarrow> string list option" where
  "str_elems [] = Some []"
| "str_elems (JStr s # js) = map_option (Cons s) (str_elems js)"
| "str_elems (JNull # js) = map_option (Cons []) (str_elems js)"
| "str_elems (_ # js) = None"

definition str_list_field :: "string \<Rightarrow> json \<Rightarrow> string list option" where
  "str_list_field k j =
     (case field k j of None \<Rightarrow> Some [] | Some JNull \<Rightarrow> Some [] | Some (JArr js) \<Rightarrow> str_elems js | Some _ \<Rightarrow> None)"

record subscribe_data =
  RoomIDs :: "string list"
  PresenceSubscribe :: "string list"

definition subscribe_data_of :: "json \<Rightarrow> subscribe_data option" where
  "subscribe_data_of j =
     (if \<not> is_struct j then None
      else case (str_list_field ''room_ids'' j, str_list_field ''presence_subscribe'' j) of
        (Some r, Some p) \<Rightarrow> Some \<lparr>RoomIDs = r, PresenceSubscribe = p\<rparr> | _ \<Rightarrow> None)"

record message_data =
  md_room :: string
  md_content :: string
  md_client :: string
  md_parent :: "string option"

definition message_data_of :: "json \<Rightarrow> message_data option" where
  "message_data_of j =
     (if \<not> is_struct j then None
      else case (str_field ''room_id'' j, str_field ''content'' j, str_field ''client_id'' j, str_ptr_field ''parent_id'' j) of
        (Some r, Some c, Some i, Some p) \<Rightarrow> Some \<lparr>md_room = r, md_content = c, md_client = i, md_parent = p\<rparr> | _ \<Rightarrow> None)"

record typing_data =
  td_room :: string
  td_user :: string

definition typing_data_of :: "json \<Rightarrow> typing_data option" where
  "typing_data_of j =
     (if \<not> is_struct j then None
      else case (str_field ''room_id'' j, str_field ''user_id'' j) of
        (Some r, Some u) \<Rightarrow> Some \<lparr>td_room = r, td_user = u\<rparr> | _ \<Rightarrow> None)"

definition typing_data_json :: "typing_data \<Rightarrow> json" where
  "typing_data_json d = JObj [(''room_id'', JStr (td_room d)), (''user_id'', JStr (td_user d))]"

record receipt_data =
  rd_room :: string
  rd_message :: string
  rd_user :: string

definition receipt_data_of :: "json \<Rightarrow> receipt_data option" where
  "receipt_data_of j =
     (if \<not> is_struct j then None
      else case (str_field ''room_id'' j, str_field ''message_id'' j, str_field ''user_id'' j) of
        (Some r, Some m, Some u) \<Rightarrow> Some \<lparr>rd_room = r, rd_message = m, rd_user = u\<rparr> | _ \<Rightarrow> None)"

record reaction_data =
  re_room :: string
  re_message :: string
  re_emoji :: string
  re_action :: string
  re_user :: string

definition reaction_data_of :: "json \<Rightarrow> reaction_data option" where
  "reaction_data_of j =
     (if \<not> is_struct j then None
      else case (str_field ''room_id'' j, str_field ''message_id'' j, str_field ''emoji'' j, str_field ''action'' j,
                 str_field ''user_id'' j) of
        (Some r, Some m, Some e, Some a, Some u) \<Rightarrow>
          Some \<lparr>re_room = r, re_message = m, re_emoji = e, re_action = a, re_user = u\<rparr>
      | _ \<Rightarrow> None)"

record edit_data =
  ed_room :: string
  ed_message :: string
  ed_content :: string

definition edit_data_of :: "json \<Rightarrow> edit_data option" where
  "edit_data_of j =
     (if \<not> is_struct j then None
      else case (str_field ''room_id'' j, str_field ''message_id'' j, str_field ''content'' j) of
        (Some r, Some m, Some c) \<Rightarrow> Some \<lparr>ed_room = r, ed_message = m, ed_content = c\<rparr> | _ \<Rightarrow> None)"

record delete_data =
  dd_room :: string
  dd_message :: string

definition delete_data_of :: "json \<Rightarrow> delete_data option" where
  "delete_data_of j =
     (if \<not> is_struct j then None
      else case (str_field ''room_id'' j, str_field ''message_id'' j) of
        (Some r, Some m) \<Rightarrow> Some \<lparr>dd_room = r, dd_message = m\<rparr> | _ \<Rightarrow> None)"

definition presence_status_of :: "json \<Rightarrow> string option" where
  "presence_status_of j = (if \<not> is_struct j then None else str_field ''status'' j)"

section \<open>Data of server frames\<close>

definition ack_json :: "string \<Rightarrow> string \<Rightarrow> string \<Rightarrow> json" where
  "ack_json client_id server_id status = JObj ([(''client_msg_id'', JStr client_id)] @
     nonempty_str ''server_msg_id'' server_id @ [(''status'', JStr status)])"

definition error_json :: "string \<Rightarrow> string \<Rightarrow> string \<Rightarrow> json" where
  "error_json client_id code msg = JObj (nonempty_str ''client_msg_id'' client_id @
     [(''code'', JStr code), (''message'', JStr msg)])"

section \<open>Round trips\<close>

lemma client_type_roundtrip [simp]: "client_type_of (client_type_text t) = Some t"
  by (cases t) (simp_all add: client_type_of_def client_types_def)

lemma client_type_of_Some: "client_type_of s = Some t \<longleftrightarrow> s = client_type_text t"
proof
  show "client_type_of s = Some t \<Longrightarrow> s = client_type_text t"
    by (auto simp: client_type_of_def find_Some_iff)
qed simp

lemma client_message_roundtrip: "client_message_of_json (client_message_json m) = Some m"
  by (cases "cm_data m") (simp_all add: client_message_of_json_def client_message_json_def json_fields)

end
