(* ===== verification/Hub.thy ===== *)
theory Hub
  imports Model
begin

text \<open>
  \<open>Hub\<close> and the connection part of \<open>Client\<close> in \<open>internal/server/server.go\<close>: the registries of clients,
  users and rooms, the channels between the goroutines, and the atomic steps of the goroutines. A pointer to a
  client is its connection id (\<open>uuid.New()\<close>). A frame that is sent to a client is kept as the JSON it
  marshals. Sending on a closed channel panics, which ends the program.
\<close>

section \<open>State\<close>

record client =
  c_user :: string
  c_rooms :: "string list"
  c_send :: "json list"
  c_closed :: bool
  c_draining :: bool
  c_cancelled :: bool
  c_reading :: bool
  c_writing :: bool
  c_wire :: "json list"
  c_ip :: "string option"

text \<open>
  \<open>c_closed\<close> is \<open>closed\<close>, \<open>c_draining\<close> is \<open>closedInProgress\<close> (after which \<open>send\<close> is closed), \<open>c_cancelled\<close>
  is \<open>ctx.Err() != nil\<close>; \<open>c_reading\<close> and \<open>c_writing\<close> say that \<open>ReadPump\<close> and \<open>WritePump\<close> still run, and
  \<open>c_wire\<close> is what went out on the connection.
\<close>

definition NewClient :: "string \<Rightarrow> string option \<Rightarrow> client" where
  "NewClient u ip = \<lparr>c_user = u, c_rooms = [], c_send = [], c_closed = False, c_draining = False, c_cancelled = False,
     c_reading = True, c_writing = True, c_wire = [], c_ip = ip\<rparr>"

definition isClosed :: "client \<Rightarrow> bool" where
  "isClosed c \<longleftrightarrow> c_closed c \<or> c_draining c"

text \<open>The goroutine of the hub: waiting, delivering a message to the clients that are left, between the check and the send, over.\<close>

datatype hub_pc = Waiting | Delivering "string list" json | Sending string "string list" json | Stopped

record hub =
  h_client :: "string \<Rightarrow> client"
  h_made :: "string set"
  h_clients :: "string set"
  h_users :: "string \<rightharpoonup> string set"
  h_rooms :: "string \<rightharpoonup> string set"
  h_register :: "string list"
  h_unregister :: "string list"
  h_broadcast :: "(string \<times> json) list"
  h_closed :: bool
  h_pc :: hub_pc
  h_panicked :: bool
  WebsocketConnectionsActive :: int
  RoomSubscriptionsActive :: int

definition NewHub :: hub where
  "NewHub = \<lparr>h_client = (\<lambda>_. NewClient [] None), h_made = {}, h_clients = {}, h_users = Map.empty, h_rooms = Map.empty,
     h_register = [], h_unregister = [], h_broadcast = [], h_closed = False, h_pc = Waiting, h_panicked = False,
     WebsocketConnectionsActive = 0, RoomSubscriptionsActive = 0\<rparr>"

definition sendCap :: nat where "sendCap = 256"
definition queueCap :: nat where "queueCap = 100"

definition on_client :: "string \<Rightarrow> (client \<Rightarrow> client) \<Rightarrow> hub \<Rightarrow> hub" where
  "on_client i f h = h\<lparr>h_client := (h_client h)(i := f (h_client h i))\<rparr>"

section \<open>Registries\<close>

text \<open>A \<open>map[string]map[string]bool\<close> whose inner maps are removed when they get empty.\<close>

definition ids_of :: "(string \<rightharpoonup> string set) \<Rightarrow> string \<Rightarrow> string set" where
  "ids_of m k = (case m k of None \<Rightarrow> {} | Some s \<Rightarrow> s)"

definition add_id :: "string \<Rightarrow> string \<Rightarrow> (string \<rightharpoonup> string set) \<Rightarrow> (string \<rightharpoonup> string set)" where
  "add_id k i m = m(k \<mapsto> insert i (ids_of m k))"

definition del_id :: "string \<Rightarrow> string \<Rightarrow> (string \<rightharpoonup> string set) \<Rightarrow> (string \<rightharpoonup> string set)" where
  "del_id k i m = (case m k of None \<Rightarrow> m | Some s \<Rightarrow> if s - {i} = {} then m(k := None) else m(k \<mapsto> s - {i}))"

lemma ids_of_add [simp]: "ids_of (add_id k i m) k' = (if k' = k then insert i (ids_of m k) else ids_of m k')"
  by (simp add: add_id_def ids_of_def)

lemma ids_of_del [simp]: "ids_of (del_id k i m) k' = (if k' = k then ids_of m k - {i} else ids_of m k')"
  by (auto simp: del_id_def ids_of_def split: option.splits)

lemma no_empty_add: "{} \<notin> ran m \<Longrightarrow> {} \<notin> ran (add_id k i m)"
  by (auto simp: add_id_def ran_def)

lemma no_empty_del: "{} \<notin> ran m \<Longrightarrow> {} \<notin> ran (del_id k i m)"
  by (auto simp: del_id_def ran_def split: option.splits if_splits)

text \<open>The loop over \<open>client.rooms\<close>, which counts the rooms of the registry it meets.\<close>

fun drop_rooms :: "string \<Rightarrow> string list \<Rightarrow> (string \<rightharpoonup> string set) \<times> int \<Rightarrow> (string \<rightharpoonup> string set) \<times> int" where
  "drop_rooms i [] (m, n) = (m, n)"
| "drop_rooms i (r # rs) (m, n) = drop_rooms i rs (if m r \<noteq> None then (del_id r i m, n + 1) else (m, n))"

lemma ids_of_None: "m r = None \<Longrightarrow> ids_of m r = {}"
  by (simp add: ids_of_def)

lemma ids_of_drop_rooms: "ids_of (fst (drop_rooms i rs (m, n))) r = (if r \<in> set rs then ids_of m r - {i} else ids_of m r)"
proof (induction rs arbitrary: m n)
  case (Cons x rs)
  then show ?case
    by (cases "m x = None"; cases "r = x"; cases "r \<in> set rs") (simp_all add: ids_of_None)
qed simp

lemma no_empty_drop_rooms: "{} \<notin> ran m \<Longrightarrow> {} \<notin> ran (fst (drop_rooms i rs (m, n)))"
  by (induction rs arbitrary: m n) (auto simp: no_empty_del)

lemma drop_rooms_count:
  "distinct rs \<Longrightarrow> \<forall>r \<in> set rs. i \<in> ids_of m r \<Longrightarrow> snd (drop_rooms i rs (m, n)) = n + int (length rs)"
proof (induction rs arbitrary: m n)
  case (Cons x rs)
  then have "m x \<noteq> None" "\<forall>r \<in> set rs. i \<in> ids_of (del_id x i m) r"
    using ids_of_None [of m x] by auto
  then show ?case using Cons.prems by (simp add: Cons.IH)
qed simp

section \<open>The operations of the hub\<close>

definition register_client :: "string \<Rightarrow> hub \<Rightarrow> hub" where
  "register_client i h = h\<lparr>h_clients := insert i (h_clients h), h_users := add_id (c_user (h_client h i)) i (h_users h),
     WebsocketConnectionsActive := WebsocketConnectionsActive h + 1\<rparr>"

text \<open>Removal from the three registries.\<close>

definition drop_client :: "string \<Rightarrow> hub \<Rightarrow> int \<times> hub" where
  "drop_client i h =
     (let c = h_client h i; (rooms, n) = drop_rooms i (c_rooms c) (h_rooms h, 0)
      in (n, h\<lparr>h_clients := h_clients h - {i}, h_users := del_id (c_user c) i (h_users h), h_rooms := rooms\<rparr>))"

definition dec_gauges :: "int \<Rightarrow> hub \<Rightarrow> hub" where
  "dec_gauges n h = h\<lparr>WebsocketConnectionsActive := WebsocketConnectionsActive h - 1,
     RoomSubscriptionsActive := RoomSubscriptionsActive h - n\<rparr>"

definition close_client :: "client \<Rightarrow> client" where
  "close_client c = c\<lparr>c_closed := True\<rparr>"

definition close_and_cancel :: "client \<Rightarrow> client" where
  "close_and_cancel c = (if c_closed c then c else c\<lparr>c_closed := True, c_cancelled := True\<rparr>)"

definition cleanupClient :: "string \<Rightarrow> hub \<Rightarrow> hub" where
  "cleanupClient i h =
     (let alreadyClosed = c_closed (h_client h i);
          (n, h1) = (if i \<in> h_clients h
             then (let (n, h') = drop_client i h in (n, if alreadyClosed then h' else on_client i close_client h'))
             else (0, h))
      in if alreadyClosed then h1 else dec_gauges n h1)"

text \<open>
  \<open>broadcastMessage\<close>: the ids of the subscribers, in the order in which the range over the map meets them;
  then for each id the lookup and the check, and the send. A client whose buffer is full is closed and removed.
\<close>

definition deliver_check :: "string \<Rightarrow> hub \<Rightarrow> bool" where
  "deliver_check i h \<longleftrightarrow> i \<in> h_clients h \<and> \<not> isClosed (h_client h i)"

definition remove_slow :: "string \<Rightarrow> hub \<Rightarrow> hub" where
  "remove_slow i h =
     (if i \<in> h_clients h then (let (n, h') = drop_client i (on_client i close_and_cancel h) in dec_gauges n h') else h)"

definition push :: "json \<Rightarrow> client \<Rightarrow> client" where
  "push d c = c\<lparr>c_send := c_send c @ [d]\<rparr>"

definition deliver_send :: "string \<Rightarrow> json \<Rightarrow> hub \<Rightarrow> hub" where
  "deliver_send i d h =
     (if c_draining (h_client h i) then h\<lparr>h_panicked := True\<rparr>
      else if length (c_send (h_client h i)) < sendCap then on_client i (push d) h
      else remove_slow i h)"

definition deliver :: "json \<Rightarrow> string \<Rightarrow> hub \<Rightarrow> hub" where
  "deliver d i h = (if deliver_check i h then deliver_send i d h else h)"

definition broadcastMessage :: "string list \<Rightarrow> json \<Rightarrow> hub \<Rightarrow> hub" where
  "broadcastMessage ids d h = fold (deliver d) ids h"

definition Hub_SubscribeToRoom :: "string \<Rightarrow> string \<Rightarrow> hub \<Rightarrow> hub" where
  "Hub_SubscribeToRoom i r h =
     (if isClosed (h_client h i) then h
      else on_client i (\<lambda>c. c\<lparr>c_rooms := List.insert r (c_rooms c)\<rparr>)
        (if i \<in> ids_of (h_rooms h) r then h
         else h\<lparr>h_rooms := add_id r i (h_rooms h), RoomSubscriptionsActive := RoomSubscriptionsActive h + 1\<rparr>))"

definition Hub_UnsubscribeFromRoom :: "string \<Rightarrow> string \<Rightarrow> hub \<Rightarrow> hub" where
  "Hub_UnsubscribeFromRoom i r h =
     on_client i (\<lambda>c. c\<lparr>c_rooms := removeAll r (c_rooms c)\<rparr>)
       (h\<lparr>h_rooms := del_id r i (h_rooms h),
          RoomSubscriptionsActive := RoomSubscriptionsActive h - (if i \<in> ids_of (h_rooms h) r then 1 else 0)\<rparr>)"

definition CloseAll :: "hub \<Rightarrow> hub" where
  "CloseAll h = (if h_closed h then h
     else h\<lparr>h_closed := True,
            h_client := (\<lambda>i. if i \<in> h_clients h then close_and_cancel (h_client h i) else h_client h i)\<rparr>)"

section \<open>The operations of a client\<close>

text \<open>\<open>select { case c.send <- data: default: }\<close>\<close>

definition reply :: "string \<Rightarrow> json \<Rightarrow> hub \<Rightarrow> hub" where
  "reply i d h =
     (if c_draining (h_client h i) then h\<lparr>h_panicked := True\<rparr>
      else if length (c_send (h_client h i)) < sendCap then on_client i (push d) h
      else h)"

text \<open>\<open>select { case hub.broadcast <- msg: default: }\<close>\<close>

definition enqueue :: "string \<Rightarrow> json \<Rightarrow> hub \<Rightarrow> hub" where
  "enqueue r d h = (if length (h_broadcast h) < queueCap then h\<lparr>h_broadcast := h_broadcast h @ [(r, d)]\<rparr> else h)"

definition isSubscribed :: "string \<Rightarrow> string \<Rightarrow> hub \<Rightarrow> bool" where
  "isSubscribed i r h \<longleftrightarrow> i \<in> ids_of (h_rooms h) r"

definition drainAndClose :: "client \<Rightarrow> client" where
  "drainAndClose c = c\<lparr>c_draining := True\<rparr>"

text \<open>The deferred function of \<open>ReadPump\<close>.\<close>

definition reader_leaves :: "string \<Rightarrow> hub \<Rightarrow> hub" where
  "reader_leaves i h =
     (let h1 = on_client i (\<lambda>c. c\<lparr>c_cancelled := True, c_reading := False\<rparr>) h
      in if length (h_unregister h1) < queueCap then h1\<lparr>h_unregister := h_unregister h1 @ [i]\<rparr>
         else cleanupClient i h1)"

end
