(* ===== verification/Hub_Steps.thy ===== *)
theory Hub_Steps
  imports Hub
begin

text \<open>
  The goroutines of the server as a step relation on the hub: one step for each access under the lock, each
  channel operation and each turn of a pump. Any order of the steps is a run. The invariant of the registries,
  the channels and the gauges holds in every reachable state.
\<close>

section \<open>Steps\<close>

text \<open>
  \<open>connect\<close> is the end of \<open>handleWebSocket\<close>; \<open>take_...\<close>, \<open>check_next\<close>, \<open>send_next\<close> and \<open>quits\<close> are
  \<open>Hub.Run\<close>, whose \<open>select\<close> takes any channel that is ready; \<open>subscribes\<close>, \<open>unsubscribes\<close> and \<open>replies\<close>
  are calls of the handlers and of \<open>subscribeToPresence\<close>, \<open>enqueues\<close> of the handlers and of
  \<open>subscribeToRoomMessages\<close>; \<open>write_...\<close> are the turns of \<open>WritePump\<close>, \<open>reader_ends\<close> is the end of
  \<open>ReadPump\<close>. After a panic there is no step.
\<close>

inductive hub_step :: "hub \<Rightarrow> hub \<Rightarrow> bool" where
  connect: "\<not> h_panicked h \<Longrightarrow> i \<notin> h_made h \<Longrightarrow> length (h_register h) < queueCap \<Longrightarrow>
    hub_step h (on_client i (\<lambda>_. NewClient u ip) (h\<lparr>h_made := insert i (h_made h), h_register := h_register h @ [i]\<rparr>))"
| take_register: "\<not> h_panicked h \<Longrightarrow> h_pc h = Waiting \<Longrightarrow> h_register h = i # q \<Longrightarrow>
    hub_step h (register_client i (h\<lparr>h_register := q\<rparr>))"
| take_unregister: "\<not> h_panicked h \<Longrightarrow> h_pc h = Waiting \<Longrightarrow> h_unregister h = i # q \<Longrightarrow>
    hub_step h (cleanupClient i (h\<lparr>h_unregister := q\<rparr>))"
| take_broadcast: "\<not> h_panicked h \<Longrightarrow> h_pc h = Waiting \<Longrightarrow> h_broadcast h = (r, d) # q \<Longrightarrow>
    set ids = ids_of (h_rooms h) r \<Longrightarrow> distinct ids \<Longrightarrow>
    hub_step h (h\<lparr>h_broadcast := q, h_pc := Delivering ids d\<rparr>)"
| check_next: "\<not> h_panicked h \<Longrightarrow> h_pc h = Delivering (i # ids) d \<Longrightarrow>
    hub_step h (h\<lparr>h_pc := if deliver_check i h then Sending i ids d else Delivering ids d\<rparr>)"
| send_next: "\<not> h_panicked h \<Longrightarrow> h_pc h = Sending i ids d \<Longrightarrow>
    hub_step h ((deliver_send i d h)\<lparr>h_pc := Delivering ids d\<rparr>)"
| delivered: "\<not> h_panicked h \<Longrightarrow> h_pc h = Delivering [] d \<Longrightarrow> hub_step h (h\<lparr>h_pc := Waiting\<rparr>)"
| quits: "\<not> h_panicked h \<Longrightarrow> h_pc h = Waiting \<Longrightarrow> h_closed h \<Longrightarrow> hub_step h (h\<lparr>h_pc := Stopped\<rparr>)"
| subscribes: "\<not> h_panicked h \<Longrightarrow> i \<in> h_made h \<Longrightarrow> c_reading (h_client h i) \<Longrightarrow> hub_step h (Hub_SubscribeToRoom i r h)"
| unsubscribes: "\<not> h_panicked h \<Longrightarrow> i \<in> h_made h \<Longrightarrow> c_reading (h_client h i) \<Longrightarrow> hub_step h (Hub_UnsubscribeFromRoom i r h)"
| replies: "\<not> h_panicked h \<Longrightarrow> i \<in> h_made h \<Longrightarrow> hub_step h (reply i d h)"
| enqueues: "\<not> h_panicked h \<Longrightarrow> hub_step h (enqueue r d h)"
| write_next: "\<not> h_panicked h \<Longrightarrow> c_writing (h_client h i) \<Longrightarrow> c_send (h_client h i) = d # q \<Longrightarrow>
    hub_step h (on_client i (\<lambda>c. c\<lparr>c_send := q, c_wire := c_wire c @ [d]\<rparr>) h)"
| write_fails: "\<not> h_panicked h \<Longrightarrow> c_writing (h_client h i) \<Longrightarrow> q \<in> {c_send (h_client h i), tl (c_send (h_client h i))} \<Longrightarrow>
    hub_step h (on_client i (\<lambda>c. c\<lparr>c_send := q, c_writing := False\<rparr>) h)"
| write_ends: "\<not> h_panicked h \<Longrightarrow> c_writing (h_client h i) \<Longrightarrow> c_cancelled (h_client h i) \<Longrightarrow>
    hub_step h (on_client i (\<lambda>c. (drainAndClose c)\<lparr>c_writing := False\<rparr>) h)"
| reader_ends: "\<not> h_panicked h \<Longrightarrow> i \<in> h_made h \<Longrightarrow> c_reading (h_client h i) \<Longrightarrow> hub_step h (reader_leaves i h)"
| closes: "\<not> h_panicked h \<Longrightarrow> hub_step h (CloseAll h)"

definition hub_reachable :: "hub \<Rightarrow> bool" where
  "hub_reachable h \<longleftrightarrow> hub_step\<^sup>*\<^sup>* NewHub h"

inductive_cases hub_stepE: "hub_step h h'"

section \<open>The invariant\<close>

definition registries_ok :: "hub \<Rightarrow> bool" where
  "registries_ok h \<longleftrightarrow>
     finite (h_made h) \<and> h_clients h \<subseteq> h_made h \<and> {} \<notin> ran (h_users h) \<and> {} \<notin> ran (h_rooms h) \<and>
     (\<forall>i. distinct (c_rooms (h_client h i))) \<and>
     (\<forall>u i. i \<in> ids_of (h_users h) u \<longleftrightarrow> i \<in> h_clients h \<and> c_user (h_client h i) = u) \<and>
     (\<forall>r i. i \<in> ids_of (h_rooms h) r \<longleftrightarrow>
        i \<in> h_made h \<and> r \<in> set (c_rooms (h_client h i)) \<and> (i \<in> h_clients h \<or> \<not> c_closed (h_client h i)))"

definition channels_ok :: "hub \<Rightarrow> bool" where
  "channels_ok h \<longleftrightarrow>
     distinct (h_register h) \<and> set (h_register h) \<subseteq> h_made h - h_clients h \<and>
     (\<forall>i \<in> set (h_register h). \<not> c_closed (h_client h i)) \<and>
     distinct (h_unregister h) \<and> set (h_unregister h) \<subseteq> h_made h \<and>
     (\<forall>i \<in> set (h_unregister h). \<not> c_reading (h_client h i)) \<and>
     length (h_register h) \<le> queueCap \<and> length (h_unregister h) \<le> queueCap \<and> length (h_broadcast h) \<le> queueCap \<and>
     (\<forall>i. length (c_send (h_client h i)) \<le> sendCap)"

definition subscriptions :: "hub \<Rightarrow> (string \<times> string) set" where
  "subscriptions h = {(r, i). i \<in> ids_of (h_rooms h) r}"

definition gauges_ok :: "hub \<Rightarrow> bool" where
  "gauges_ok h \<longleftrightarrow> h_closed h \<or>
     (\<forall>i \<in> h_clients h. \<not> c_closed (h_client h i)) \<and>
     RoomSubscriptionsActive h = int (card (subscriptions h)) \<and>
     WebsocketConnectionsActive h \<le> int (card (h_clients h))"

definition hub_ok :: "hub \<Rightarrow> bool" where
  "hub_ok h \<longleftrightarrow> registries_ok h \<and> channels_ok h \<and> gauges_ok h"

lemmas hub_oks = hub_ok_def registries_ok_def channels_ok_def gauges_ok_def

lemma on_client_simps [simp]:
  "h_client (on_client i f h) = (h_client h)(i := f (h_client h i))"
  "h_made (on_client i f h) = h_made h" "h_clients (on_client i f h) = h_clients h"
  "h_users (on_client i f h) = h_users h" "h_rooms (on_client i f h) = h_rooms h"
  "h_register (on_client i f h) = h_register h" "h_unregister (on_client i f h) = h_unregister h"
  "h_broadcast (on_client i f h) = h_broadcast h" "h_closed (on_client i f h) = h_closed h"
  "h_pc (on_client i f h) = h_pc h" "h_panicked (on_client i f h) = h_panicked h"
  "WebsocketConnectionsActive (on_client i f h) = WebsocketConnectionsActive h"
  "RoomSubscriptionsActive (on_client i f h) = RoomSubscriptionsActive h"
  "subscriptions (on_client i f h) = subscriptions h"
  by (simp_all add: on_client_def subscriptions_def)

lemma subscriptions_finite: "registries_ok h \<Longrightarrow> finite (subscriptions h)"
proof -
  assume ok: "registries_ok h"
  have "subscriptions h \<subseteq> (\<Union>i \<in> h_made h. (\<lambda>r. (r, i)) ` set (c_rooms (h_client h i)))"
    using ok by (auto simp: subscriptions_def registries_ok_def)
  then show ?thesis using ok finite_subset by (fastforce simp: registries_ok_def)
qed

lemma NewHub_ok: "hub_ok NewHub"
  by (simp add: hub_oks NewHub_def NewClient_def ids_of_def subscriptions_def)

text \<open>A change of a client that the invariant does not depend on.\<close>

definition harmless :: "(client \<Rightarrow> client) \<Rightarrow> client \<Rightarrow> bool" where
  "harmless f c \<longleftrightarrow> c_user (f c) = c_user c \<and> c_rooms (f c) = c_rooms c \<and> c_closed (f c) = c_closed c \<and>
     (c_reading (f c) \<longrightarrow> c_reading c) \<and> length (c_send (f c)) \<le> sendCap"

lemma on_client_ok: "hub_ok h \<Longrightarrow> harmless f (h_client h i) \<Longrightarrow> hub_ok (on_client i f h)"
  by (auto simp: hub_oks harmless_def)

lemma pc_ok [simp]: "hub_ok (h\<lparr>h_pc := p\<rparr>) = hub_ok h" "hub_ok (h\<lparr>h_panicked := b\<rparr>) = hub_ok h"
  by (simp_all add: hub_oks subscriptions_def)

lemma connect_ok:
  assumes "hub_ok h" "i \<notin> h_made h" "length (h_register h) < queueCap"
  shows "hub_ok (on_client i (\<lambda>_. NewClient u ip) (h\<lparr>h_made := insert i (h_made h), h_register := h_register h @ [i]\<rparr>))"
proof -
  have "subscriptions (h\<lparr>h_made := M, h_register := q\<rparr>) = subscriptions h" for M q by (simp add: subscriptions_def)
  then show ?thesis
  using assms by (auto simp: hub_oks NewClient_def)
qed

lemma register_ok:
  assumes "hub_ok h" "h_register h = i # q"
  shows "hub_ok (register_client i (h\<lparr>h_register := q\<rparr>))"
proof -
  have i: "i \<in> h_made h" "i \<notin> h_clients h" "\<not> c_closed (h_client h i)" "finite (h_clients h)"
    using assms by (auto simp: hub_oks intro: finite_subset)
  then show ?thesis
    using assms no_empty_add by (auto simp: hub_oks register_client_def subscriptions_def)
qed

lemma drop_client_simps:
  "snd (drop_client i h) = h\<lparr>h_clients := h_clients h - {i}, h_users := del_id (c_user (h_client h i)) i (h_users h),
     h_rooms := fst (drop_rooms i (c_rooms (h_client h i)) (h_rooms h, 0))\<rparr>"
  "fst (drop_client i h) = snd (drop_rooms i (c_rooms (h_client h i)) (h_rooms h, 0))"
  by (simp_all add: drop_client_def Let_def split_beta)

text \<open>Removing a client and closing it, as \<open>cleanupClient\<close> and the delivery to a full buffer do.\<close>

lemma drop_registries:
  assumes "registries_ok h" "c_closed (f (h_client h i))" "c_user (f (h_client h i)) = c_user (h_client h i)"
    "c_rooms (f (h_client h i)) = c_rooms (h_client h i)"
  shows "registries_ok (on_client i f (snd (drop_client i h)))"
  using assms by (auto simp: registries_ok_def drop_client_simps ids_of_drop_rooms no_empty_del no_empty_drop_rooms)

lemma drop_subscriptions:
  assumes "registries_ok h" "i \<in> h_clients h"
  shows "int (card (subscriptions (snd (drop_client i h)))) = int (card (subscriptions h)) - fst (drop_client i h)"
proof -
  let ?R = "(\<lambda>r. (r, i)) ` set (c_rooms (h_client h i))"
  have sub: "?R \<subseteq> subscriptions h" and mem: "\<forall>r \<in> set (c_rooms (h_client h i)). i \<in> ids_of (h_rooms h) r"
    using assms by (auto simp: registries_ok_def subscriptions_def)
  have "subscriptions (snd (drop_client i h)) = subscriptions h - ?R"
    by (auto simp: subscriptions_def drop_client_simps ids_of_drop_rooms split: if_splits)
  moreover have "card ?R = length (c_rooms (h_client h i))"
    using assms by (simp add: card_image inj_on_def distinct_card registries_ok_def)
  moreover have "fst (drop_client i h) = int (length (c_rooms (h_client h i)))"
    using assms mem by (simp add: drop_client_simps drop_rooms_count registries_ok_def)
  ultimately show ?thesis
    using card_Diff_subset [OF finite_subset [OF sub] sub] card_mono [OF _ sub] subscriptions_finite [OF assms(1)] by simp
qed

lemma drop_ok:
  assumes "hub_ok h" "i \<in> h_clients h" "c_closed (f (h_client h i))" "c_user (f (h_client h i)) = c_user (h_client h i)"
    "c_rooms (f (h_client h i)) = c_rooms (h_client h i)" "c_reading (f (h_client h i)) = c_reading (h_client h i)"
    "c_send (f (h_client h i)) = c_send (h_client h i)"
    and n: "h_closed h \<or> (n = fst (drop_client i h) \<and> m = 1)"
  shows "hub_ok ((on_client i f (snd (drop_client i h)))\<lparr>
    WebsocketConnectionsActive := WebsocketConnectionsActive h - m, RoomSubscriptionsActive := RoomSubscriptionsActive h - n\<rparr>)"
    (is "hub_ok ?h")
proof -
  let ?d = "on_client i f (snd (drop_client i h))"
  have reg: "registries_ok h" using assms(1) by (simp add: hub_ok_def)
  have same: "registries_ok ?h = registries_ok ?d" "channels_ok ?h = channels_ok ?d" "subscriptions ?h = subscriptions (snd (drop_client i h))"
    by (simp_all add: registries_ok_def channels_ok_def subscriptions_def)
  have fin: "finite (h_clients h)" using reg finite_subset by (auto simp: registries_ok_def)
  have "channels_ok ?d"
    using assms(1-7) by (auto simp: hub_ok_def channels_ok_def drop_client_simps)
  moreover have "gauges_ok ?h"
    using assms(1,2) n drop_subscriptions [OF reg assms(2)] fin same(3)
    by (auto simp: gauges_ok_def hub_ok_def drop_client_simps card_Diff_singleton)
  ultimately show ?thesis
    using drop_registries [where f = f and i = i, OF reg assms(3-5)] same by (simp add: hub_ok_def)
qed

lemma cleanup_ok:
  assumes "hub_ok h" "\<not> c_reading (h_client h i)"
  shows "hub_ok (cleanupClient i h)"
proof (cases "i \<in> h_clients h")
  case True
  let ?n = "fst (drop_client i h)"
  show ?thesis
  proof (cases "c_closed (h_client h i)")
    case True
    then have "h_closed h" using assms \<open>i \<in> h_clients h\<close> by (auto simp: hub_ok_def gauges_ok_def)
    then show ?thesis
      using drop_ok [where f = "\<lambda>c. c" and n = 0 and m = 0, OF assms(1) \<open>i \<in> h_clients h\<close>] True \<open>i \<in> h_clients h\<close>
      by (simp add: cleanupClient_def Let_def split_beta drop_client_simps on_client_def)
  next
    case False
    then show ?thesis
      using drop_ok [where f = close_client and n = ?n and m = 1, OF assms(1) \<open>i \<in> h_clients h\<close>] \<open>i \<in> h_clients h\<close>
      by (simp add: cleanupClient_def Let_def split_beta close_client_def dec_gauges_def drop_client_simps on_client_def)
  qed
next
  case False
  then show ?thesis
    using assms by (auto simp: cleanupClient_def dec_gauges_def hub_oks subscriptions_def)
qed

lemma remove_slow_ok: "hub_ok h \<Longrightarrow> hub_ok (remove_slow i h)"
proof (cases "i \<in> h_clients h")
  case True
  assume ok: "hub_ok h"
  have "drop_client i (on_client i close_and_cancel h) =
      (fst (drop_client i h), on_client i close_and_cancel (snd (drop_client i h)))"
    by (simp add: drop_client_def Let_def split_beta on_client_def close_and_cancel_def)
  then show ?thesis
    using drop_ok [where f = close_and_cancel and n = "fst (drop_client i h)" and m = 1, OF ok True] True
    by (simp add: remove_slow_def close_and_cancel_def dec_gauges_def drop_client_simps)
qed (simp add: remove_slow_def)

lemma push_ok: "hub_ok h \<Longrightarrow> length (c_send (h_client h i)) < sendCap \<Longrightarrow> hub_ok (on_client i (push d) h)"
  by (rule on_client_ok) (simp_all add: harmless_def push_def)

lemma deliver_send_ok: "hub_ok h \<Longrightarrow> hub_ok (deliver_send i d h)"
  by (simp add: deliver_send_def push_ok remove_slow_ok)

lemma reply_ok: "hub_ok h \<Longrightarrow> hub_ok (reply i d h)"
  by (simp add: reply_def push_ok)

lemma enqueue_ok: "hub_ok h \<Longrightarrow> hub_ok (enqueue r d h)"
  by (auto simp: enqueue_def hub_oks subscriptions_def)

lemma hub_subscribe_ok:
  assumes "hub_ok h" "i \<in> h_made h"
  shows "hub_ok (Hub_SubscribeToRoom i r h)"
proof -
  have fin: "finite (subscriptions h)" using assms subscriptions_finite by (simp add: hub_ok_def)
  have sub: "subscriptions (h\<lparr>h_rooms := add_id r i (h_rooms h), RoomSubscriptionsActive := n\<rparr>) = insert (r, i) (subscriptions h)" for n
    by (auto simp: subscriptions_def split: if_splits)
  show ?thesis
    using assms sub fin no_empty_add
    by (auto simp: Hub_SubscribeToRoom_def hub_oks isClosed_def) (auto simp: subscriptions_def)
qed

lemma hub_unsubscribe_ok:
  assumes "hub_ok h"
  shows "hub_ok (Hub_UnsubscribeFromRoom i r h)"
proof -
  have fin: "finite (subscriptions h)" using assms subscriptions_finite by (simp add: hub_ok_def)
  have sub: "subscriptions (h\<lparr>h_rooms := del_id r i (h_rooms h), RoomSubscriptionsActive := n\<rparr>) = subscriptions h - {(r, i)}" for n
    by (auto simp: subscriptions_def split: if_splits)
  have count: "int (card (subscriptions h - {(r, i)})) =
      int (card (subscriptions h)) - (if i \<in> ids_of (h_rooms h) r then 1 else 0)"
    using fin card_Diff_singleton [of "(r, i)" "subscriptions h"] card_gt_0_iff [of "subscriptions h"]
    by (auto simp: subscriptions_def)
  show ?thesis
    using assms sub count no_empty_del by (auto simp: Hub_UnsubscribeFromRoom_def hub_oks distinct_removeAll split: if_splits)
qed

lemma CloseAll_ok: "hub_ok h \<Longrightarrow> hub_ok (CloseAll h)"
  by (auto simp: CloseAll_def hub_oks close_and_cancel_def)

lemma reader_leaves_ok:
  assumes "hub_ok h" "i \<in> h_made h" "c_reading (h_client h i)"
  shows "hub_ok (reader_leaves i h)"
proof -
  let ?h = "on_client i (\<lambda>c. c\<lparr>c_cancelled := True, c_reading := False\<rparr>) h"
  have h: "hub_ok ?h" by (rule on_client_ok) (use assms in \<open>simp_all add: harmless_def hub_oks\<close>)
  have "hub_ok (?h\<lparr>h_unregister := h_unregister h @ [i]\<rparr>)" if "length (h_unregister h) < queueCap"
    using h assms that by (auto simp: hub_oks subscriptions_def)
  then show ?thesis using cleanup_ok [OF h] by (simp add: reader_leaves_def Let_def)
qed

section \<open>What every run keeps\<close>

lemma send_cap: "hub_ok h \<Longrightarrow> length (c_send (h_client h i)) \<le> sendCap"
  by (simp add: hub_oks)

lemma hub_step_ok: "hub_step h h' \<Longrightarrow> hub_ok h \<Longrightarrow> hub_ok h'"
proof (induction rule: hub_step.induct)
  case (take_unregister h i q)
  have "hub_ok (h\<lparr>h_unregister := q\<rparr>)" "\<not> c_reading (h_client h i)"
    using take_unregister by (auto simp: hub_oks subscriptions_def)
  then show ?case by (simp add: cleanup_ok)
next
  case (take_broadcast h r d q ids)
  then show ?case by (auto simp: hub_oks subscriptions_def)
next
  case (write_next h i d q)
  then show ?case using send_cap [of h i] write_next by (intro on_client_ok) (simp_all add: harmless_def)
next
  case (write_fails h i q)
  then show ?case using send_cap [of h i] write_fails by (intro on_client_ok) (auto simp: harmless_def)
next
  case (write_ends h i)
  then show ?case using send_cap [of h i] write_ends by (intro on_client_ok) (auto simp: harmless_def drainAndClose_def)
qed (simp_all add: connect_ok register_ok deliver_send_ok reply_ok enqueue_ok hub_subscribe_ok hub_unsubscribe_ok
    CloseAll_ok reader_leaves_ok)

lemma run_invariant:
  assumes "hub_step\<^sup>*\<^sup>* h h'" "P h" "\<And>x y. hub_step x y \<Longrightarrow> P x \<Longrightarrow> P y"
  shows "P h'"
  using assms by (induction rule: rtranclp_induct) auto

text \<open>
  C5. In every reachable state of the hub, whatever the order in which its goroutines run, the three
  registries agree: a user has exactly the connections that are registered for it, and a connection is in the
  registry of a room exactly when the room is in its own set and it has not been removed; no empty entry stays
  behind. No channel exceeds its capacity. Until the hub is closed the gauge of subscriptions is the number of
  subscriptions, and the gauge of connections does not exceed the number of registered connections.
\<close>

theorem hub_invariant:
  assumes "hub_reachable h"
  shows "hub_ok h"
  using assms run_invariant [of NewHub h hub_ok] hub_step_ok NewHub_ok by (auto simp: hub_reachable_def)

section \<open>Delivery\<close>

lemma drop_client_frame:
  "h_client (snd (drop_client i h)) = h_client h" "h_clients (snd (drop_client i h)) = h_clients h - {i}"
  "h_panicked (snd (drop_client i h)) = h_panicked h" "h_made (snd (drop_client i h)) = h_made h"
  "h_unregister (snd (drop_client i h)) = h_unregister h"
  by (simp_all add: drop_client_simps)

lemma remove_slow_frame:
  "h_client (remove_slow i h) = (if i \<in> h_clients h then (h_client h)(i := close_and_cancel (h_client h i)) else h_client h)"
  "h_clients (remove_slow i h) = h_clients h - {i}" "h_panicked (remove_slow i h) = h_panicked h"
  "h_made (remove_slow i h) = h_made h" "h_unregister (remove_slow i h) = h_unregister h"
  by (auto simp: remove_slow_def split_beta dec_gauges_def drop_client_frame)

lemma deliver_frame:
  "i \<noteq> j \<Longrightarrow> h_client (deliver d j h) i = h_client h i" "i \<noteq> j \<Longrightarrow> i \<in> h_clients (deliver d j h) \<longleftrightarrow> i \<in> h_clients h"
  "h_panicked (deliver d j h) = h_panicked h"
  by (auto simp: deliver_def deliver_send_def deliver_check_def isClosed_def remove_slow_frame)

lemma deliver_ok: "hub_ok h \<Longrightarrow> hub_ok (deliver d i h)"
  by (simp add: deliver_def deliver_send_ok)

definition receives :: "string \<Rightarrow> hub \<Rightarrow> bool" where
  "receives i h \<longleftrightarrow> i \<in> h_clients h \<and> \<not> isClosed (h_client h i) \<and> length (c_send (h_client h i)) < sendCap"

definition too_slow :: "string \<Rightarrow> hub \<Rightarrow> bool" where
  "too_slow i h \<longleftrightarrow> i \<in> h_clients h \<and> \<not> isClosed (h_client h i) \<and> \<not> length (c_send (h_client h i)) < sendCap"

lemma deliver_self:
  "c_send (h_client (deliver d i h) i) = c_send (h_client h i) @ (if receives i h then [d] else [])"
  "i \<in> h_clients (deliver d i h) \<longleftrightarrow> i \<in> h_clients h \<and> \<not> too_slow i h"
  "too_slow i h \<Longrightarrow> c_closed (h_client (deliver d i h) i) \<and> c_cancelled (h_client (deliver d i h) i)"
  by (auto simp: deliver_def deliver_send_def deliver_check_def isClosed_def receives_def too_slow_def remove_slow_frame
      push_def close_and_cancel_def)

lemma broadcast_outcome:
  assumes "distinct ids"
  shows "(i \<notin> set ids \<longrightarrow> h_client (broadcastMessage ids d h) i = h_client h i \<and>
      (i \<in> h_clients (broadcastMessage ids d h) \<longleftrightarrow> i \<in> h_clients h)) \<and>
    c_send (h_client (broadcastMessage ids d h) i) = c_send (h_client h i) @ (if i \<in> set ids \<and> receives i h then [d] else []) \<and>
    (i \<in> h_clients (broadcastMessage ids d h) \<longleftrightarrow> i \<in> h_clients h \<and> \<not> (i \<in> set ids \<and> too_slow i h)) \<and>
    (i \<in> set ids \<and> too_slow i h \<longrightarrow> c_closed (h_client (broadcastMessage ids d h) i) \<and> c_cancelled (h_client (broadcastMessage ids d h) i)) \<and>
    h_panicked (broadcastMessage ids d h) = h_panicked h"
  using assms
proof (induction ids arbitrary: h)
  case (Cons j ids)
  have step: "broadcastMessage (j # ids) d h = broadcastMessage ids d (deliver d j h)"
    by (simp add: broadcastMessage_def)
  have IH: "distinct ids" "j \<notin> set ids" using Cons.prems by auto
  note ih = Cons.IH [OF IH(1), of "deliver d j h"]
  show ?case
  proof (cases "i = j")
    case True
    then show ?thesis using ih IH(2) deliver_self [where d = d and i = j and h = h] deliver_frame(3) [where d = d and j = j and h = h] by (auto simp: step)
  next
    case False
    then have "receives i (deliver d j h) \<longleftrightarrow> receives i h" "too_slow i (deliver d j h) \<longleftrightarrow> too_slow i h"
      by (simp_all add: receives_def too_slow_def deliver_frame)
    then show ?thesis using ih False by (auto simp: step deliver_frame)
  qed
qed (simp add: broadcastMessage_def)

lemma broadcast_ok: "hub_ok h \<Longrightarrow> hub_ok (broadcastMessage ids d h)"
  unfolding broadcastMessage_def by (induction ids arbitrary: h) (simp_all add: deliver_ok)

text \<open>
  C18. Delivering a message to a room puts it once at the end of the buffer of every open, registered
  subscriber whose buffer has space, and of nobody else; the subscribers whose buffer is full are closed,
  cancelled and removed, and only they are; every other client is as before; the order in which the range
  over the map meets the subscribers does not matter, nothing panics, and the invariant is kept.
\<close>

theorem broadcast_delivers:
  assumes "hub_ok h" "set ids = ids_of (h_rooms h) r" "distinct ids"
  shows "hub_ok (broadcastMessage ids d h) \<and> h_panicked (broadcastMessage ids d h) = h_panicked h \<and>
    (\<forall>i. c_send (h_client (broadcastMessage ids d h) i) =
      c_send (h_client h i) @ (if i \<in> ids_of (h_rooms h) r \<and> receives i h then [d] else [])) \<and>
    h_clients (broadcastMessage ids d h) = {i \<in> h_clients h. \<not> (i \<in> ids_of (h_rooms h) r \<and> too_slow i h)} \<and>
    (\<forall>i. i \<in> ids_of (h_rooms h) r \<and> too_slow i h \<longrightarrow>
      c_closed (h_client (broadcastMessage ids d h) i) \<and> c_cancelled (h_client (broadcastMessage ids d h) i)) \<and>
    (\<forall>i. i \<notin> ids_of (h_rooms h) r \<longrightarrow> h_client (broadcastMessage ids d h) i = h_client h i)"
  using broadcast_ok [OF assms(1)] broadcast_outcome [where d = d and h = h, OF assms(3)] assms(2) by auto

section \<open>The steps of the hub and \<open>broadcastMessage\<close>\<close>

lemmas hub_defs = deliver_send_def deliver_check_def remove_slow_def drop_client_def dec_gauges_def on_client_def

lemma deliver_pc: "(deliver d i (h\<lparr>h_pc := p\<rparr>))\<lparr>h_pc := p'\<rparr> = (deliver d i h)\<lparr>h_pc := p'\<rparr>"
  by (simp add: deliver_def hub_defs Let_def split_beta)

lemma broadcast_pc: "(broadcastMessage ids d (h\<lparr>h_pc := p\<rparr>))\<lparr>h_pc := p'\<rparr> = (broadcastMessage ids d h)\<lparr>h_pc := p'\<rparr>"
proof (induction ids arbitrary: h p)
  case (Cons j ids)
  have "broadcastMessage ids d (deliver d j (h\<lparr>h_pc := p\<rparr>))\<lparr>h_pc := p'\<rparr> =
      broadcastMessage ids d ((deliver d j (h\<lparr>h_pc := p\<rparr>))\<lparr>h_pc := p'\<rparr>)\<lparr>h_pc := p'\<rparr>"
    by (simp add: Cons.IH)
  also have "\<dots> = broadcastMessage ids d (deliver d j h)\<lparr>h_pc := p'\<rparr>"
    by (simp add: deliver_pc Cons.IH)
  finally show ?case by (simp add: broadcastMessage_def)
qed (simp add: broadcastMessage_def)

lemma deliver_steps:
  assumes "\<not> h_panicked h" "h_pc h = Delivering (i # ids) d"
  shows "hub_step\<^sup>*\<^sup>* h ((deliver d i h)\<lparr>h_pc := Delivering ids d\<rparr>)"
proof (cases "deliver_check i h")
  case True
  let ?h1 = "h\<lparr>h_pc := Sending i ids d\<rparr>"
  have "hub_step h ?h1" using check_next [OF assms] True by simp
  moreover have "hub_step ?h1 ((deliver_send i d ?h1)\<lparr>h_pc := Delivering ids d\<rparr>)"
    by (rule send_next) (use assms in simp_all)
  moreover have "(deliver_send i d ?h1)\<lparr>h_pc := Delivering ids d\<rparr> = (deliver d i h)\<lparr>h_pc := Delivering ids d\<rparr>"
    using True by (simp add: deliver_def hub_defs Let_def split_beta)
  ultimately show ?thesis by (metis converse_rtranclp_into_rtranclp r_into_rtranclp)
next
  case False
  then show ?thesis using check_next [OF assms] by (simp add: deliver_def r_into_rtranclp)
qed

lemma delivering_steps:
  "\<not> h_panicked h \<Longrightarrow> h_pc h = Delivering ids d \<Longrightarrow>
   hub_step\<^sup>*\<^sup>* h ((broadcastMessage ids d h)\<lparr>h_pc := Waiting\<rparr>)"
proof (induction ids arbitrary: h)
  case Nil
  then show ?case using delivered [of h d] by (simp add: broadcastMessage_def r_into_rtranclp)
next
  case (Cons i ids)
  let ?h1 = "(deliver d i h)\<lparr>h_pc := Delivering ids d\<rparr>"
  have "hub_step\<^sup>*\<^sup>* h ?h1" using deliver_steps Cons.prems by blast
  moreover have "hub_step\<^sup>*\<^sup>* ?h1 ((broadcastMessage ids d ?h1)\<lparr>h_pc := Waiting\<rparr>)"
    by (rule Cons.IH) (use Cons.prems in \<open>simp_all add: deliver_frame\<close>)
  ultimately show ?case by (simp add: broadcast_pc) (simp add: broadcastMessage_def rtranclp_trans)
qed

text \<open>
  The goroutine of the hub, when nothing comes in between, carries out \<open>broadcastMessage\<close> on the
  message that is first in the queue and waits again.
\<close>

theorem hub_runs_broadcast:
  assumes "\<not> h_panicked h" "h_pc h = Waiting" "h_broadcast h = (r, d) # q"
    and "set ids = ids_of (h_rooms h) r" "distinct ids"
  shows "hub_step\<^sup>*\<^sup>* h ((broadcastMessage ids d (h\<lparr>h_broadcast := q\<rparr>))\<lparr>h_pc := Waiting\<rparr>)"
proof -
  let ?h1 = "h\<lparr>h_broadcast := q, h_pc := Delivering ids d\<rparr>"
  have "hub_step h ?h1" using take_broadcast [OF assms] .
  moreover have "hub_step\<^sup>*\<^sup>* ?h1 ((broadcastMessage ids d ?h1)\<lparr>h_pc := Waiting\<rparr>)"
    by (rule delivering_steps) (use assms in simp_all)
  moreover have "(broadcastMessage ids d ?h1)\<lparr>h_pc := Waiting\<rparr> = (broadcastMessage ids d (h\<lparr>h_broadcast := q\<rparr>))\<lparr>h_pc := Waiting\<rparr>"
    by (rule broadcast_pc)
  ultimately show ?thesis by simp
qed

section \<open>Two runs\<close>

lemma step_then: "hub_step h h' \<Longrightarrow> hub_step\<^sup>*\<^sup>* h' h'' \<Longrightarrow> hub_step\<^sup>*\<^sup>* h h''"
  by (rule converse_rtranclp_into_rtranclp)

lemma reach_step: "hub_reachable h \<Longrightarrow> hub_step h h' \<Longrightarrow> hub_reachable h'"
  by (simp add: hub_reachable_def)

text \<open>One connection \<open>a\<close> of \<open>ann\<close> in the room \<open>r1\<close>.\<close>

definition hub1 :: hub where
  "hub1 = on_client ''a'' (\<lambda>_. NewClient ''ann'' None) (NewHub\<lparr>h_made := {''a''}, h_register := [''a'']\<rparr>)"

definition hub2 :: hub where
  "hub2 = enqueue ''r1'' JNull (Hub_SubscribeToRoom ''a'' ''r1'' (register_client ''a'' (hub1\<lparr>h_register := []\<rparr>)))"

lemma hub1_reachable: "hub_reachable hub1"
proof -
  have "hub_step NewHub hub1"
    using connect [of NewHub "''a''" "''ann''" None] by (simp add: hub1_def NewHub_def queueCap_def)
  then show ?thesis by (simp add: hub_reachable_def r_into_rtranclp)
qed

lemmas hub_eval = hub1_def hub2_def NewHub_def NewClient_def on_client_def register_client_def Hub_SubscribeToRoom_def
  isClosed_def enqueue_def queueCap_def add_id_def ids_of_def

lemma hub2_reachable: "hub_reachable hub2"
proof -
  let ?h2 = "register_client ''a'' (hub1\<lparr>h_register := []\<rparr>)" and ?h3 = "Hub_SubscribeToRoom ''a'' ''r1'' (register_client ''a'' (hub1\<lparr>h_register := []\<rparr>))"
  have "hub_step hub1 ?h2" by (rule take_register) (simp_all add: hub_eval)
  moreover have "hub_step ?h2 ?h3" by (rule subscribes) (simp_all add: hub_eval)
  moreover have "hub_step ?h3 hub2" unfolding hub2_def by (rule enqueues) (simp add: hub_eval)
  ultimately show ?thesis using hub1_reachable reach_step by blast
qed

text \<open>
  A client that disconnects while a message is being delivered to it can end the whole program: between
  the check of \<open>isClosed\<close> and the send, \<open>ReadPump\<close> can cancel and \<open>WritePump\<close> can close the channel, and the
  send then panics. There is such a run in which the server is not shutting down.
\<close>

theorem disconnect_crashes:
  "\<exists>h. hub_reachable h \<and> h_panicked h \<and> \<not> h_closed h"
proof -
  let ?h5 = "hub2\<lparr>h_broadcast := [], h_pc := Delivering [''a''] JNull\<rparr>"
  let ?h6 = "?h5\<lparr>h_pc := Sending ''a'' [] JNull\<rparr>"
  let ?h7 = "reader_leaves ''a'' ?h6"
  let ?h8 = "on_client ''a'' (\<lambda>c. (drainAndClose c)\<lparr>c_writing := False\<rparr>) ?h7"
  let ?h9 = "(deliver_send ''a'' JNull ?h8)\<lparr>h_pc := Delivering [] JNull\<rparr>"
  have "hub_step hub2 ?h5" by (rule take_broadcast [where r = "''r1''"]) (simp_all add: hub_eval)
  moreover have "hub_step ?h5 ?h6"
    using check_next [of ?h5 "''a''" "[]" JNull] by (simp add: hub_eval deliver_check_def)
  moreover have "hub_step ?h6 ?h7" by (rule reader_ends) (simp_all add: hub_eval)
  moreover have "hub_step ?h7 ?h8" by (rule write_ends) (simp_all add: hub_eval reader_leaves_def)
  moreover have "hub_step ?h8 ?h9" by (rule send_next) (simp_all add: hub_eval reader_leaves_def drainAndClose_def)
  moreover have "h_panicked ?h9" "\<not> h_closed ?h9"
    by (simp_all add: hub_eval reader_leaves_def drainAndClose_def deliver_send_def)
  ultimately show ?thesis using hub2_reachable reach_step by blast
qed

definition ghost :: "string \<Rightarrow> hub \<Rightarrow> bool" where
  "ghost i h \<longleftrightarrow> i \<in> h_made h \<and> i \<in> h_clients h \<and> \<not> c_reading (h_client h i) \<and> \<not> c_writing (h_client h i) \<and>
     c_draining (h_client h i) \<and> i \<notin> set (h_unregister h) \<and> (\<forall>ids d. h_pc h \<noteq> Sending i ids d)"

lemma cleanup_ghost: "ghost i h \<Longrightarrow> j \<noteq> i \<Longrightarrow> ghost i (cleanupClient j h)"
  by (simp add: ghost_def cleanupClient_def Let_def split_beta drop_client_simps dec_gauges_def on_client_def)

lemma ghost_step: "hub_step h h' \<Longrightarrow> ghost i h \<Longrightarrow> ghost i h'"
proof (induction rule: hub_step.induct)
  case (take_unregister h j q)
  then have "ghost i (h\<lparr>h_unregister := q\<rparr>)" "j \<noteq> i" by (auto simp: ghost_def)
  then show ?case by (rule cleanup_ghost)
next
  case (reader_ends h j)
  let ?h = "on_client j (\<lambda>c. c\<lparr>c_cancelled := True, c_reading := False\<rparr>) h"
  have "j \<noteq> i" "ghost i ?h" using reader_ends by (auto simp: ghost_def)
  moreover have "ghost i (?h\<lparr>h_unregister := h_unregister h @ [j]\<rparr>)" using calculation by (simp add: ghost_def)
  ultimately show ?case using cleanup_ghost [of i ?h j] by (simp add: reader_leaves_def Let_def)
next
  case (send_next h j ids d)
  then have "j \<noteq> i" by (auto simp: ghost_def)
  then show ?case using send_next by (auto simp: ghost_def deliver_send_def remove_slow_frame push_def)
qed (auto simp: ghost_def deliver_check_def isClosed_def register_client_def Hub_SubscribeToRoom_def Hub_UnsubscribeFromRoom_def
    reply_def enqueue_def push_def drainAndClose_def CloseAll_def close_and_cancel_def)

text \<open>
  A connection that ends before the hub has registered it can stay in the registry for ever: the channels
  for registering and unregistering are two, the hub may take the second first, and then nothing removes the
  client. In the run below the gauge of connections says 0 and no later step changes that the client is there.
\<close>

theorem ghost_client:
  "\<exists>h i. hub_reachable h \<and> i \<in> h_clients h \<and> \<not> c_reading (h_client h i) \<and> \<not> c_writing (h_client h i) \<and>
    WebsocketConnectionsActive h = 0 \<and> {h'. hub_step\<^sup>*\<^sup>* h h'} \<subseteq> {h'. i \<in> h_clients h'}"
proof -
  let ?h2 = "reader_leaves ''a'' hub1"
  let ?h3 = "cleanupClient ''a'' (?h2\<lparr>h_unregister := []\<rparr>)"
  let ?h4 = "register_client ''a'' (?h3\<lparr>h_register := []\<rparr>)"
  let ?h5 = "on_client ''a'' (\<lambda>c. (drainAndClose c)\<lparr>c_writing := False\<rparr>) ?h4"
  have "hub_step hub1 ?h2" by (rule reader_ends) (simp_all add: hub_eval)
  moreover have "hub_step ?h2 ?h3" by (rule take_unregister) (simp_all add: hub_eval reader_leaves_def)
  moreover have "hub_step ?h3 ?h4"
    by (rule take_register) (simp_all add: hub_eval reader_leaves_def cleanupClient_def dec_gauges_def)
  moreover have "hub_step ?h4 ?h5"
    by (rule write_ends) (simp_all add: hub_eval reader_leaves_def cleanupClient_def dec_gauges_def)
  ultimately have reach: "hub_reachable ?h5" using hub1_reachable reach_step by blast
  have g: "ghost ''a'' ?h5" "WebsocketConnectionsActive ?h5 = 0"
    by (simp_all add: ghost_def hub_eval reader_leaves_def cleanupClient_def dec_gauges_def drainAndClose_def)
  have "''a'' \<in> h_clients h'" if "hub_step\<^sup>*\<^sup>* ?h5 h'" for h'
    using run_invariant [of ?h5 h' "ghost ''a''", OF that g(1) ghost_step] by (simp add: ghost_def)
  then show ?thesis
    using reach g by (intro exI [of _ ?h5] exI [of _ "''a''"]) (auto simp: ghost_def)
qed

section \<open>Examples\<close>

lemma hub_invariant_witness: "hub_reachable hub2 \<and> hub_ok hub2 \<and> ''a'' \<in> ids_of (h_rooms hub2) ''r1''"
  using hub_invariant [OF hub2_reachable] hub2_reachable by (simp add: hub_eval)

lemma hub2_ids: "ids_of (h_rooms hub2) ''r1'' = {''a''}"
  by (simp add: hub_eval)

lemma hub2_ok: "hub_ok hub2"
  using hub2_reachable run_invariant [of NewHub hub2 hub_ok] hub_step_ok NewHub_ok by (auto simp: hub_reachable_def)

lemma broadcast_delivers_witness:
  "c_send (h_client (broadcastMessage [''a''] (JBool True) hub2) ''a'') = [JBool True] \<and> hub_ok (broadcastMessage [''a''] (JBool True) hub2)"
  using broadcast_delivers [OF hub2_ok, of "[''a'']" "''r1''" "JBool True"] hub2_ids
  by (auto simp: receives_def hub_eval sendCap_def)

lemma hub_runs_broadcast_witness:
  "hub_step\<^sup>*\<^sup>* hub2 ((broadcastMessage [''a''] JNull (hub2\<lparr>h_broadcast := []\<rparr>))\<lparr>h_pc := Waiting\<rparr>)"
  by (rule hub_runs_broadcast [where r = "''r1''"]) (simp_all add: hub_eval)

end
