(* ===== verification/Client_Handlers.thy ===== *)
theory Client_Handlers
  imports Message_Service Room_Service User_Service Protocol Hub_Steps
begin

text \<open>
  The handlers of \<open>Client\<close> in \<open>internal/server/server.go\<close>: what a frame from a client does to the world and
  to the hub. A frame arrives as bytes; \<^const>\<open>None\<close> stands for bytes that are not JSON. \<open>ps\<close> is the pub/sub of
  the services. Logging and metrics are not modelled.
\<close>

section \<open>Replies\<close>

text \<open>The id of a frame is \<open>snowflake.Generate().String()\<close>.\<close>

definition frame :: "env \<Rightarrow> server_msg_type \<Rightarrow> json \<Rightarrow> json" where
  "frame e ty d = server_message_json (NewServerMessage (new_uuid e ''frame'') (now e ''frame'') ty d)"

definition sendError :: "env \<Rightarrow> string \<Rightarrow> string \<Rightarrow> string \<Rightarrow> string \<Rightarrow> hub \<Rightarrow> hub" where
  "sendError e i msgID code text = reply i (frame e ServerMsgError (error_json msgID code text))"

definition sendAck :: "env \<Rightarrow> string \<Rightarrow> string \<Rightarrow> string \<Rightarrow> string \<Rightarrow> hub \<Rightarrow> hub" where
  "sendAck e i msgID serverID status = reply i (frame e ServerMsgAck (ack_json msgID serverID status))"

type_synonym 'r server_state = "'r world \<times> hub"

text \<open>\<open>json.Unmarshal(msg.Data, &data)\<close>.\<close>

definition unmarshal :: "(json \<Rightarrow> 'a option) \<Rightarrow> client_message \<Rightarrow> 'a option" where
  "unmarshal dec msg = (case cm_data msg of None \<Rightarrow> None | Some j \<Rightarrow> dec j)"

definition maxRoomSubscriptions :: nat where
  "maxRoomSubscriptions = 50"

section \<open>Handlers\<close>

fun subscribe_loop :: "env \<Rightarrow> string \<Rightarrow> string list \<Rightarrow> 'r server_state \<Rightarrow> nat \<Rightarrow> nat \<times> hub" where
  "subscribe_loop e i [] (w, h) n = (n, h)"
| "subscribe_loop e i (r # rs) (w, h) n =
     (if RoomService_IsMember e r (c_user (h_client h i)) w = Inr True
      then subscribe_loop e i rs (w, Hub_SubscribeToRoom i r h) (n + 1)
      else subscribe_loop e i rs (w, h) n)"

definition handleSubscribe :: "env \<Rightarrow> string \<Rightarrow> client_message \<Rightarrow> 'r server_state \<Rightarrow> 'r server_state" where
  "handleSubscribe e i msg = (\<lambda>(w, h).
     case unmarshal subscribe_data_of msg of
       None \<Rightarrow> (w, h)
     | Some data \<Rightarrow>
        (if maxRoomSubscriptions < length (RoomIDs data)
         then (w, sendError e i (cm_id msg) ''INVALID_INPUT'' ''too many room_ids in subscribe (max 50)'' h)
         else let (subscribed, h1) = subscribe_loop e i (RoomIDs data) (w, h) 0;
                  status = (if subscribed = 0 \<and> RoomIDs data \<noteq> [] then ''not_subscribed'' else ''subscribed'')
              in (w, sendAck e i (cm_id msg) [] status h1)))"

definition handleUnsubscribe :: "string \<Rightarrow> client_message \<Rightarrow> 'r server_state \<Rightarrow> 'r server_state" where
  "handleUnsubscribe i msg = (\<lambda>(w, h).
     case unmarshal subscribe_data_of msg of
       None \<Rightarrow> (w, h)
     | Some data \<Rightarrow> (w, fold (Hub_UnsubscribeFromRoom i) (RoomIDs data) h))"

definition chat_input :: "message_data \<Rightarrow> string \<Rightarrow> send_input" where
  "chat_input data u = \<lparr>in_room = md_room data, in_user = u, in_content = md_content data, in_type = ContentTypeText,
     in_parent = md_parent data, in_client = md_client data\<rparr>"

definition handleChatMessage ::
    "'r redis_api option \<Rightarrow> env \<Rightarrow> string \<Rightarrow> client_message \<Rightarrow> 'r server_state \<Rightarrow> 'r server_state" where
  "handleChatMessage ps e i msg = (\<lambda>(w, h).
     let fail = (\<lambda>code text. sendError e i (cm_id msg) code text h); u = c_user (h_client h i) in
     case unmarshal message_data_of msg of
       None \<Rightarrow> (w, h)
     | Some data \<Rightarrow>
        (if md_room data = [] then (w, fail ''INVALID_INPUT'' ''room_id is required'')
         else if md_content data = [] then (w, fail ''INVALID_INPUT'' ''content cannot be empty'')
         else if 4000 < length (md_content data) then (w, fail ''CONTENT_TOO_LONG'' ''content exceeds 4000 characters'')
         else if RoomService_IsMember e (md_room data) u w \<noteq> Inr True
         then (w, fail ''FORBIDDEN'' ''not a member of this room'')
         else if \<not> isSubscribed i (md_room data) h
         then (w, fail ''NOT_SUBSCRIBED'' ''must subscribe to room before sending messages'')
         else case SendMessage ps e (chat_input data u) w of
           (Inl x, w1) \<Rightarrow> (w1, fail ''SEND_FAILED'' (Error x))
         | (Inr m, w1) \<Rightarrow> (w1, sendAck e i (cm_id msg) (m_id m) ''delivered'' h)))"

text \<open>Typing is told to the subscribers of the room, under the name of the sender.\<close>

definition handleTyping :: "env \<Rightarrow> string \<Rightarrow> client_message \<Rightarrow> 'r server_state \<Rightarrow> 'r server_state" where
  "handleTyping e i msg = (\<lambda>(w, h).
     case unmarshal typing_data_of msg of
       None \<Rightarrow> (w, h)
     | Some data \<Rightarrow>
        (if td_room data = [] then (w, h)
         else if RoomService_IsMember e (td_room data) (c_user (h_client h i)) w \<noteq> Inr True then (w, h)
         else if \<not> isSubscribed i (td_room data) h then (w, h)
         else (w, enqueue (td_room data)
                (frame e ServerMsgTyping (typing_data_json (data\<lparr>td_user := c_user (h_client h i)\<rparr>))) h)))"

definition handlePing :: "env \<Rightarrow> string \<Rightarrow> 'r server_state \<Rightarrow> 'r server_state" where
  "handlePing e i = (\<lambda>(w, h). (w, reply i (frame e ServerMsgPong JNull) h))"

definition validStatuses :: "string list" where
  "validStatuses = [''online'', ''away'', ''dnd'', ''offline'']"

definition handlePresence ::
    "'r redis_api option \<Rightarrow> env \<Rightarrow> string \<Rightarrow> client_message \<Rightarrow> 'r server_state \<Rightarrow> 'r server_state" where
  "handlePresence ps e i msg = (\<lambda>(w, h).
     case unmarshal presence_status_of msg of
       None \<Rightarrow> (w, h)
     | Some status \<Rightarrow>
        (if status \<notin> set validStatuses then (w, sendError e i (cm_id msg) ''INVALID_INPUT'' ''invalid status value'' h)
         else (snd (PresenceService_SetPresence ps e (c_user (h_client h i)) status
                 \<lparr>Platform = [], Version = [], DeviceID = []\<rparr> w), h)))"

definition handleReaction :: "env \<Rightarrow> string \<Rightarrow> client_message \<Rightarrow> 'r server_state \<Rightarrow> 'r server_state" where
  "handleReaction e i msg = (\<lambda>(w, h).
     case unmarshal reaction_data_of msg of
       None \<Rightarrow> (w, sendError e i (cm_id msg) ''INVALID_INPUT'' ''invalid reaction payload'' h)
     | Some data \<Rightarrow>
        (if re_message data = [] \<or> re_emoji data = []
         then (w, sendError e i (cm_id msg) ''INVALID_INPUT'' ''message_id and emoji required'' h)
         else case (if re_action data = ''remove''
                    then RemoveReaction e (re_message data) (re_emoji data) (c_user (h_client h i)) w
                    else AddReaction e (re_message data) (re_emoji data) (c_user (h_client h i)) w) of
           (Inl x, w1) \<Rightarrow> (w1, sendError e i (cm_id msg) ''REACTION_FAILED'' (Error x) h)
         | (Inr _, w1) \<Rightarrow> (w1, sendAck e i (cm_id msg) [] (''reaction_'' @ re_action data) h)))"

definition handleEdit ::
    "'r redis_api option \<Rightarrow> env \<Rightarrow> string \<Rightarrow> client_message \<Rightarrow> 'r server_state \<Rightarrow> 'r server_state" where
  "handleEdit ps e i msg = (\<lambda>(w, h).
     case unmarshal edit_data_of msg of
       None \<Rightarrow> (w, sendError e i (cm_id msg) ''INVALID_INPUT'' ''invalid edit payload'' h)
     | Some data \<Rightarrow>
        (if ed_message data = [] then (w, sendError e i (cm_id msg) ''INVALID_INPUT'' ''message_id required'' h)
         else case EditMessage ps e (ed_message data) (c_user (h_client h i)) (ed_content data) w of
           (Inl x, w1) \<Rightarrow> (w1, sendError e i (cm_id msg) ''EDIT_FAILED'' (Error x) h)
         | (Inr _, w1) \<Rightarrow> (w1, sendAck e i (cm_id msg) [] ''edited'' h)))"

definition handleDelete ::
    "'r redis_api option \<Rightarrow> env \<Rightarrow> string \<Rightarrow> client_message \<Rightarrow> 'r server_state \<Rightarrow> 'r server_state" where
  "handleDelete ps e i msg = (\<lambda>(w, h).
     case unmarshal delete_data_of msg of
       None \<Rightarrow> (w, sendError e i (cm_id msg) ''INVALID_INPUT'' ''invalid delete payload'' h)
     | Some data \<Rightarrow>
        (if dd_message data = [] then (w, sendError e i (cm_id msg) ''INVALID_INPUT'' ''message_id required'' h)
         else case DeleteMessage ps e (dd_message data) (c_user (h_client h i)) w of
           (Inl x, w1) \<Rightarrow> (w1, sendError e i (cm_id msg) ''DELETE_FAILED'' (Error x) h)
         | (Inr _, w1) \<Rightarrow> (w1, sendAck e i (cm_id msg) [] ''deleted'' h)))"

definition handleReadReceipt :: "env \<Rightarrow> string \<Rightarrow> client_message \<Rightarrow> 'r server_state \<Rightarrow> 'r server_state" where
  "handleReadReceipt e i msg = (\<lambda>(w, h).
     case unmarshal receipt_data_of msg of
       None \<Rightarrow> (w, h)
     | Some data \<Rightarrow>
        (if rd_message data = [] \<or> rd_room data = [] then (w, h)
         else (snd (RoomService_MarkRead e (rd_room data) (c_user (h_client h i)) (rd_message data) w), h)))"

definition handleMessage ::
    "'r redis_api option \<Rightarrow> env \<Rightarrow> string \<Rightarrow> json option \<Rightarrow> 'r server_state \<Rightarrow> 'r server_state" where
  "handleMessage ps e i data s =
     (case (case data of None \<Rightarrow> None | Some j \<Rightarrow> client_message_of_json j) of
        None \<Rightarrow> s
      | Some msg \<Rightarrow>
         (case client_type_of (cm_type msg) of
            Some ClientMsgSubscribe \<Rightarrow> handleSubscribe e i msg s
          | Some ClientMsgUnsubscribe \<Rightarrow> handleUnsubscribe i msg s
          | Some ClientMsgMessage \<Rightarrow> handleChatMessage ps e i msg s
          | Some ClientMsgTyping \<Rightarrow> handleTyping e i msg s
          | Some ClientMsgPing \<Rightarrow> handlePing e i s
          | Some ClientMsgPresence \<Rightarrow> handlePresence ps e i msg s
          | Some ClientMsgReaction \<Rightarrow> handleReaction e i msg s
          | Some ClientMsgEdit \<Rightarrow> handleEdit ps e i msg s
          | Some ClientMsgDelete \<Rightarrow> handleDelete ps e i msg s
          | Some ClientMsgReadReceipt \<Rightarrow> handleReadReceipt e i msg s
          | None \<Rightarrow> (fst s, sendError e i (cm_id msg) ''UNKNOWN_TYPE'' (''unknown message type: '' @ cm_type msg) (snd s))))"

end
