(* ===== verification/Config.thy ===== *)
theory Config
  imports Prelude Complex_Main
begin

text \<open>
  \<open>internal/config/config.go\<close>: the configuration, its defaults, how \<open>Load\<close> puts it together and what
  \<open>Validate\<close> refuses. The configuration file (read by viper), the environment variables, the files of the
  keys and the RSA key generator are parameters.
\<close>

section \<open>The configuration\<close>

record app_config =
  app_name :: string
  app_version :: string
  app_environment :: string

record websocket_config =
  ws_path :: string
  ReadBufferSize :: int
  WriteBufferSize :: int
  MaxMessageSize :: int
  PingInterval :: gotime
  PongTimeout :: gotime
  ws_WriteTimeout :: gotime
  MaxConnectionsPerIP :: int
  AllowedOrigins :: "string list"

record http_config =
  ReadTimeout :: gotime
  http_WriteTimeout :: gotime
  IdleTimeout :: gotime
  MaxHeaderBytes :: int

record tls_config =
  tls_enabled :: bool
  CertFile :: string
  KeyFile :: string

record server_config =
  s_host :: string
  s_port :: int
  Websocket :: websocket_config
  HTTP :: http_config
  TLS :: tls_config

record postgresql_config =
  pg_host :: string
  pg_port :: int
  pg_database :: string
  pg_user :: string
  pg_password :: string
  SSLMode :: string
  MaxOpenConns :: int
  MaxIdleConns :: int
  pg_MinIdleConns :: int
  ConnMaxLifetime :: gotime

record redis_config =
  rd_mode :: string
  Addrs :: "string list"
  rd_password :: string
  rd_DB :: int
  PoolSize :: int
  rd_MinIdleConns :: int

record jwt_config =
  Algorithm :: string
  PrivateKeyPath :: string
  PublicKeyPath :: string
  PrivateKey :: string
  PublicKey :: string
  AccessTokenTTL :: gotime
  RefreshTokenTTL :: gotime
  Issuer :: string
  Audience :: "string list"

record auth_config =
  JWT :: jwt_config
  bcrypt_cost :: int

record rate_limit_rule =
  rule_key :: string
  rule_limit :: int
  rule_window :: gotime

record features_config =
  MessageRetentionDays :: int
  MaxFileSize :: int
  AllowedFileTypes :: "string list"
  EnableReadReceipts :: bool
  EnableTypingIndicators :: bool
  EnableReactions :: bool
  EnableThreads :: bool

record logging_config =
  log_level :: string
  log_format :: string
  log_output :: string
  log_file :: string

record metrics_config =
  metrics_enabled :: bool
  metrics_port :: int
  metrics_path :: string

record tracing_config =
  tracing_enabled :: bool
  Exporter :: string
  Endpoint :: string
  SamplingRate :: rat

record config =
  App :: app_config
  Server :: server_config
  Postgresql :: postgresql_config
  RedisCfg :: redis_config
  Auth :: auth_config
  RateLimitEnabled :: bool
  RateLimitRules :: "rate_limit_rule list"
  Features :: features_config
  Logging :: logging_config
  Metrics :: metrics_config
  Tracing :: tracing_config

section \<open>Validation\<close>

definition Validate :: "config \<Rightarrow> unit result" where
  "Validate c =
     (if app_environment (App c) = ''production'' then
        (if PrivateKey (JWT (Auth c)) = [] then
           Inl (Err ''production environment requires a valid JWT private key (set private_key_path, JWT_PRIVATE_KEY env var, or JWT_PUBLIC_KEY env var)'')
         else if PublicKey (JWT (Auth c)) = [] then
           Inl (Err ''production environment requires a valid JWT public key (set public_key_path or JWT_PUBLIC_KEY env var)'')
         else if pg_password (Postgresql c) = [] then
           Inl (Err ''production environment requires DB_PASSWORD environment variable'')
         else Inr ())
      else Inr ())"

section \<open>Defaults\<close>

definition hour :: gotime where
  "hour = 60 * minute"

definition defaultConfig :: "(string \<Rightarrow> string) \<Rightarrow> config" where
  "defaultConfig Getenv = \<lparr>
     App = \<lparr>app_name = ''websocket-chat'', app_version = ''1.0.0'', app_environment = ''development''\<rparr>,
     Server = \<lparr>s_host = ''0.0.0.0'', s_port = 8085,
       Websocket = \<lparr>ws_path = ''/ws'', ReadBufferSize = 1024, WriteBufferSize = 1024, MaxMessageSize = 65536,
         PingInterval = 30 * second, PongTimeout = 60 * second, ws_WriteTimeout = 10 * second,
         MaxConnectionsPerIP = 10,
         AllowedOrigins = [''http://localhost:3000'', ''http://localhost:8085'', ''http://127.0.0.1:3000'',
           ''http://127.0.0.1:8085'']\<rparr>,
       HTTP = \<lparr>ReadTimeout = 30 * second, http_WriteTimeout = 30 * second, IdleTimeout = 120 * second,
         MaxHeaderBytes = 1048576\<rparr>,
       TLS = \<lparr>tls_enabled = False, CertFile = [], KeyFile = []\<rparr>\<rparr>,
     Postgresql = \<lparr>pg_host = ''localhost'', pg_port = 5432, pg_database = ''chat'', pg_user = ''chat'',
       pg_password = Getenv ''DB_PASSWORD'', SSLMode = ''disable'', MaxOpenConns = 25, MaxIdleConns = 10,
       pg_MinIdleConns = 2, ConnMaxLifetime = 30 * minute\<rparr>,
     RedisCfg = \<lparr>rd_mode = ''single'', Addrs = [''localhost:6379''], rd_password = Getenv ''REDIS_PASSWORD'',
       rd_DB = 0, PoolSize = 10, rd_MinIdleConns = 5\<rparr>,
     Auth = \<lparr>JWT = \<lparr>Algorithm = ''RS256'', PrivateKeyPath = [], PublicKeyPath = [], PrivateKey = [], PublicKey = [],
         AccessTokenTTL = 15 * minute, RefreshTokenTTL = 168 * hour, Issuer = ''chat-app'', Audience = [''chat-api'']\<rparr>,
       bcrypt_cost = 12\<rparr>,
     RateLimitEnabled = True,
     RateLimitRules = [\<lparr>rule_key = ''message'', rule_limit = 100, rule_window = minute\<rparr>,
       \<lparr>rule_key = ''connection'', rule_limit = 5, rule_window = minute\<rparr>,
       \<lparr>rule_key = ''room_create'', rule_limit = 10, rule_window = hour\<rparr>],
     Features = \<lparr>MessageRetentionDays = 365, MaxFileSize = 10485760,
       AllowedFileTypes = [''image/*'', ''application/pdf''], EnableReadReceipts = True,
       EnableTypingIndicators = True, EnableReactions = True, EnableThreads = True\<rparr>,
     Logging = \<lparr>log_level = ''debug'', log_format = ''json'', log_output = ''stdout'', log_file = ''logs/app.log''\<rparr>,
     Metrics = \<lparr>metrics_enabled = True, metrics_port = 9090, metrics_path = ''/metrics''\<rparr>,
     Tracing = \<lparr>tracing_enabled = False, Exporter = ''jaeger'', Endpoint = ''http://localhost:14268/api/traces'',
       SamplingRate = 1 / 100\<rparr>\<rparr>"

section \<open>Loading\<close>

text \<open>
  What \<open>Load\<close> calls: \<open>read_config\<close> is \<open>viper.ReadInConfig\<close> followed by \<open>viper.Unmarshal\<close> into the
  defaults (\<^const>\<open>None\<close> when there is no readable file); the PEM texts of a fresh key pair come from the
  functions of \<open>crypto/rsa\<close>, \<open>crypto/x509\<close> and \<open>encoding/pem\<close>.
\<close>

record 'k platform =
  read_config :: "config \<Rightarrow> config option"
  Getenv :: "string \<Rightarrow> string"
  ReadFile :: "string \<Rightarrow> string option"
  GenerateKey :: "'k result"
  MarshalPKCS8 :: "'k \<Rightarrow> string result"
  MarshalPKIX :: "'k \<Rightarrow> string result"
  EncodePEM :: "string \<Rightarrow> string \<Rightarrow> string"

definition generateRSAKeys :: "'k platform \<Rightarrow> (string \<times> string) result" where
  "generateRSAKeys p =
     (case GenerateKey p of
        Inl x \<Rightarrow> Inl x
      | Inr key \<Rightarrow>
         (case MarshalPKCS8 p key of
            Inl x \<Rightarrow> Inl x
          | Inr priv \<Rightarrow>
             (case MarshalPKIX p key of
                Inl x \<Rightarrow> Inl x
              | Inr pub \<Rightarrow> Inr (EncodePEM p ''PRIVATE KEY'' priv, EncodePEM p ''PUBLIC KEY'' pub))))"

definition set_private :: "string \<Rightarrow> config \<Rightarrow> config" where
  "set_private k c = c\<lparr>Auth := (Auth c)\<lparr>JWT := (JWT (Auth c))\<lparr>PrivateKey := k\<rparr>\<rparr>\<rparr>"

definition set_public :: "string \<Rightarrow> config \<Rightarrow> config" where
  "set_public k c = c\<lparr>Auth := (Auth c)\<lparr>JWT := (JWT (Auth c))\<lparr>PublicKey := k\<rparr>\<rparr>\<rparr>"

definition from_file :: "'k platform \<Rightarrow> string \<Rightarrow> (string \<Rightarrow> config \<Rightarrow> config) \<Rightarrow> config \<Rightarrow> config" where
  "from_file p path put c =
     (if path \<noteq> [] then (case ReadFile p path of Some data \<Rightarrow> put data c | None \<Rightarrow> c) else c)"

definition from_env :: "'k platform \<Rightarrow> string \<Rightarrow> string \<Rightarrow> (string \<Rightarrow> config \<Rightarrow> config) \<Rightarrow> config \<Rightarrow> config" where
  "from_env p current var put c = (if current = [] \<and> Getenv p var \<noteq> [] then put (Getenv p var) c else c)"

definition Load :: "'k platform \<Rightarrow> config" where
  "Load p =
     (let c0 = defaultConfig (Getenv p);
          c1 = (case read_config p c0 of None \<Rightarrow> c0 | Some c \<Rightarrow> c);
          c2 = from_file p (PrivateKeyPath (JWT (Auth c1))) set_private c1;
          c3 = from_file p (PublicKeyPath (JWT (Auth c2))) set_public c2;
          c4 = from_env p (PrivateKey (JWT (Auth c3))) ''JWT_PRIVATE_KEY'' set_private c3;
          c5 = from_env p (PublicKey (JWT (Auth c4))) ''JWT_PUBLIC_KEY'' set_public c4;
          c6 = (if PrivateKey (JWT (Auth c5)) = [] \<or> PublicKey (JWT (Auth c5)) = [] then
                  (case generateRSAKeys p of
                     Inl _ \<Rightarrow> c5
                   | Inr (priv, pub) \<Rightarrow> set_public pub (set_private priv c5))
                else c5);
          c7 = (if Getenv p ''DB_PASSWORD'' \<noteq> []
                then c6\<lparr>Postgresql := (Postgresql c6)\<lparr>pg_password := Getenv p ''DB_PASSWORD''\<rparr>\<rparr> else c6)
      in if Getenv p ''REDIS_PASSWORD'' \<noteq> []
         then c7\<lparr>RedisCfg := (RedisCfg c7)\<lparr>rd_password := Getenv p ''REDIS_PASSWORD''\<rparr>\<rparr> else c7)"

section \<open>What is loaded\<close>

lemma set_key_simps [simp]:
  "PrivateKey (JWT (Auth (set_private k c))) = k" "PublicKey (JWT (Auth (set_private k c))) = PublicKey (JWT (Auth c))"
  "PublicKey (JWT (Auth (set_public k c))) = k" "PrivateKey (JWT (Auth (set_public k c))) = PrivateKey (JWT (Auth c))"
  "App (set_private k c) = App c" "App (set_public k c) = App c"
  "Postgresql (set_private k c) = Postgresql c" "Postgresql (set_public k c) = Postgresql c"
  "RedisCfg (set_private k c) = RedisCfg c" "RedisCfg (set_public k c) = RedisCfg c"
  by (simp_all add: set_private_def set_public_def)

lemma from_frame [simp]:
  assumes "\<And>k c. App (put k c) = App c" "\<And>k c. Postgresql (put k c) = Postgresql c"
    "\<And>k c. RedisCfg (put k c) = RedisCfg c"
  shows "App (from_file p path put c) = App c" "Postgresql (from_file p path put c) = Postgresql c"
    "App (from_env p cur v put c) = App c" "Postgresql (from_env p cur v put c) = Postgresql c"
    "RedisCfg (from_file p path put c) = RedisCfg c" "RedisCfg (from_env p cur v put c) = RedisCfg c"
  using assms by (auto simp: from_file_def from_env_def split: option.splits)

text \<open>
  A loaded configuration always has both keys, as long as a fresh pair can be generated; so the checks
  of the keys in \<open>Validate\<close> never fail on it, in production either, and validation comes down to the
  database password.
\<close>

theorem Load_has_keys:
  assumes "generateRSAKeys p = Inr (priv, pub)" "priv \<noteq> []" "pub \<noteq> []"
  shows "PrivateKey (JWT (Auth (Load p))) \<noteq> [] \<and> PublicKey (JWT (Auth (Load p))) \<noteq> [] \<and>
    (Validate (Load p) = Inr () \<longleftrightarrow>
       app_environment (App (Load p)) \<noteq> ''production'' \<or> pg_password (Postgresql (Load p)) \<noteq> [])"
proof -
  have "PrivateKey (JWT (Auth (Load p))) \<noteq> [] \<and> PublicKey (JWT (Auth (Load p))) \<noteq> []"
    using assms by (simp add: Load_def Let_def)
  then show ?thesis by (simp add: Validate_def)
qed

text \<open>
  The keys come from the files that the configuration names, else from the environment, and only a key
  that is in neither place makes \<open>Load\<close> generate a pair, which then replaces both; passwords in the
  environment win over the file.
\<close>

theorem Load_key_order:
  fixes p :: "'k platform"
  defines "c \<equiv> (case read_config p (defaultConfig (Getenv p)) of None \<Rightarrow> defaultConfig (Getenv p) | Some c \<Rightarrow> c)"
  defines "priv \<equiv> PrivateKey (JWT (Auth (from_file p (PrivateKeyPath (JWT (Auth c))) set_private c)))"
    and "pub \<equiv> PublicKey (JWT (Auth (from_file p (PublicKeyPath (JWT (Auth c))) set_public c)))"
  defines "priv' \<equiv> if priv = [] then Getenv p ''JWT_PRIVATE_KEY'' else priv"
    and "pub' \<equiv> if pub = [] then Getenv p ''JWT_PUBLIC_KEY'' else pub"
  shows "(PrivateKey (JWT (Auth (Load p))), PublicKey (JWT (Auth (Load p)))) =
      (if priv' = [] \<or> pub' = [] then (case generateRSAKeys p of Inl _ \<Rightarrow> (priv', pub') | Inr keys \<Rightarrow> keys) else (priv', pub')) \<and>
    pg_password (Postgresql (Load p)) =
      (if Getenv p ''DB_PASSWORD'' = [] then pg_password (Postgresql c) else Getenv p ''DB_PASSWORD'') \<and>
    rd_password (RedisCfg (Load p)) =
      (if Getenv p ''REDIS_PASSWORD'' = [] then rd_password (RedisCfg c) else Getenv p ''REDIS_PASSWORD'')"
proof -
  let ?c2 = "from_file p (PrivateKeyPath (JWT (Auth c))) set_private c"
  let ?c3 = "from_file p (PublicKeyPath (JWT (Auth ?c2))) set_public ?c2"
  let ?c4 = "from_env p (PrivateKey (JWT (Auth ?c3))) ''JWT_PRIVATE_KEY'' set_private ?c3"
  let ?c5 = "from_env p (PublicKey (JWT (Auth ?c4))) ''JWT_PUBLIC_KEY'' set_public ?c4"
  have path: "PublicKeyPath (JWT (Auth ?c2)) = PublicKeyPath (JWT (Auth c))"
    by (simp add: from_file_def set_private_def split: option.splits)
  have c3: "PrivateKey (JWT (Auth ?c3)) = priv" "PublicKey (JWT (Auth ?c3)) = pub"
    by (simp_all add: from_file_def priv_def pub_def set_private_def set_public_def split: option.splits)
  have c5: "PrivateKey (JWT (Auth ?c5)) = priv'" "PublicKey (JWT (Auth ?c5)) = pub'"
    by (simp_all add: from_env_def c3 priv'_def pub'_def)
  have "Load p = (let c6 = (if priv' = [] \<or> pub' = [] then (case generateRSAKeys p of Inl _ \<Rightarrow> ?c5
          | Inr (a, b) \<Rightarrow> set_public b (set_private a ?c5)) else ?c5);
        c7 = (if Getenv p ''DB_PASSWORD'' \<noteq> [] then c6\<lparr>Postgresql := (Postgresql c6)\<lparr>pg_password := Getenv p ''DB_PASSWORD''\<rparr>\<rparr> else c6)
      in if Getenv p ''REDIS_PASSWORD'' \<noteq> [] then c7\<lparr>RedisCfg := (RedisCfg c7)\<lparr>rd_password := Getenv p ''REDIS_PASSWORD''\<rparr>\<rparr> else c7)"
    unfolding Load_def Let_def c_def [symmetric] c5 ..
  then show ?thesis
    using c5 by (simp add: Let_def split: sum.splits prod.splits)
qed

section \<open>An example\<close>

text \<open>A production host with a configuration file, no keys and the password in the environment.\<close>

definition sample_platform :: "unit platform" where
  "sample_platform = \<lparr>
     read_config = (\<lambda>c. Some (c\<lparr>App := (App c)\<lparr>app_environment := ''production''\<rparr>\<rparr>)),
     Getenv = (\<lambda>v. if v = ''DB_PASSWORD'' then ''s3cret'' else []), ReadFile = (\<lambda>_. None),
     GenerateKey = Inr (), MarshalPKCS8 = (\<lambda>_. Inr ''d''), MarshalPKIX = (\<lambda>_. Inr ''e''),
     EncodePEM = (\<lambda>t b. t @ b)\<rparr>"

lemma Load_has_keys_witness:
  "PrivateKey (JWT (Auth (Load sample_platform))) \<noteq> [] \<and> PublicKey (JWT (Auth (Load sample_platform))) \<noteq> [] \<and>
    (Validate (Load sample_platform) = Inr () \<longleftrightarrow>
       app_environment (App (Load sample_platform)) \<noteq> ''production'' \<or> pg_password (Postgresql (Load sample_platform)) \<noteq> [])"
  by (rule Load_has_keys [of _ "''PRIVATE KEYd''" "''PUBLIC KEYe''"])
    (simp_all add: generateRSAKeys_def sample_platform_def)

end
