(* ===== verification/Auth_Service.thy ===== *)
theory Auth_Service
  imports World Validator Config
begin

text \<open>
  \<open>internal/service/auth_service.go\<close>: registration, login, token validation, refresh and logout. The
  JWT library and bcrypt are parameters; the token blacklist is Redis, or nothing when the service has no
  \<open>tokenInvalidator\<close>.
\<close>

section \<open>Tokens\<close>

text \<open>\<open>jwt.MapClaims\<close>: the claims by name, as JSON values.\<close>

type_synonym claims = "(string \<times> json) list"

text \<open>
  \<open>sign\<close> is \<open>NewWithClaims(RS256, claims).SignedString(privateKey)\<close>. \<open>parse iss now token\<close> is
  \<open>jwt.Parse\<close> with the key function of the service (RSA methods only, the public key) and
  \<open>WithIssuer(iss)\<close>; an accepted token comes with \<open>token.Valid\<close>. \<open>parse_unverified\<close> is
  \<open>ParseUnverified\<close>. The key pair is part of the parameter.
\<close>

datatype parse_error = TokenExpired | TokenInvalid

record jwt_api =
  sign :: "claims \<Rightarrow> string result"
  parse :: "string \<Rightarrow> gotime \<Rightarrow> string \<Rightarrow> parse_error + (bool \<times> claims)"
  parse_unverified :: "string \<Rightarrow> claims option"

text \<open>\<open>GenerateFromPassword(password, cost)\<close> with a salt, and \<open>CompareHashAndPassword(hash, password) == nil\<close>.\<close>

record bcrypt_api =
  bcrypt_hash :: "string \<Rightarrow> string \<Rightarrow> int \<Rightarrow> string result"
  bcrypt_matches :: "string \<Rightarrow> string \<Rightarrow> bool"

record 'r auth_deps =
  jwt :: jwt_api
  bcrypt :: bcrypt_api
  invalidator :: "'r redis_api option"
  auth_cfg :: auth_config

text \<open>\<open>claims["k"].(string)\<close>.\<close>

definition str_claim :: "claims \<Rightarrow> string \<Rightarrow> string option" where
  "str_claim c k = (case map_of c k of Some (JStr s) \<Rightarrow> Some s | _ \<Rightarrow> None)"

section \<open>Registration and login\<close>

record register_input =
  ri_username :: string
  ri_email :: string
  ri_password :: string
  ri_display_name :: string

definition new_user :: "string \<Rightarrow> string \<Rightarrow> string \<Rightarrow> string \<Rightarrow> user" where
  "new_user username email hash display = \<lparr>u_id = [], u_username = username, u_email = email, u_password_hash = hash,
     u_display_name = display, u_avatar_url = [], u_status = status_text StatusOffline, u_last_seen_at = None,
     u_created_at = zero_time, u_updated_at = zero_time, u_metadata = []\<rparr>"

text \<open>\<open>existing, _ := repo.GetBy...(...)\<close>: an error counts as not found.\<close>

definition Register :: "'r auth_deps \<Rightarrow> env \<Rightarrow> register_input \<Rightarrow> 'r world \<Rightarrow> user result \<times> 'r world" where
  "Register s e inp w =
     (let username = SanitizeUsername (ri_username inp);
          email = SanitizeString (ri_email inp);
          display = SanitizeMessage (ri_display_name inp)
      in case ValidateEmail email of
        Inl x \<Rightarrow> (Inl x, w)
      | Inr _ \<Rightarrow> (case ValidateUsername username of
          Inl x \<Rightarrow> (Inl x, w)
        | Inr _ \<Rightarrow> (case ValidatePassword (ri_password inp) of
            Inl x \<Rightarrow> (Inl x, w)
          | Inr _ \<Rightarrow>
             (if is_ok (UserRepo_GetByUsername e username (w_db w)) then (Inl ErrUserExists, w)
              else if is_ok (UserRepo_GetByEmail e email (w_db w)) then (Inl ErrUserExists, w)
              else case bcrypt_hash (bcrypt s) (new_uuid e ''salt'') (ri_password inp) (bcrypt_cost (auth_cfg s)) of
                Inl x \<Rightarrow> (Inl x, w)
              | Inr hash \<Rightarrow>
                 (case on_db (\<lambda>d. let (r, u, d') = UserRepo_Create e (new_user username email hash display) d in ((r, u), d')) w of
                    ((Inl x, _), w1) \<Rightarrow> (Inl x, w1)
                  | ((Inr _, u), w1) \<Rightarrow> (Inr u, w1))))))"

definition token_claims :: "'r auth_deps \<Rightarrow> string \<Rightarrow> gotime \<Rightarrow> string \<Rightarrow> gotime \<Rightarrow> user \<Rightarrow> claims" where
  "token_claims s type ttl jti t u =
     [(''sub'', JStr (u_id u)), (''type'', JStr type), (''jti'', JStr jti), (''exp'', JNum (Unix (t + ttl))),
      (''iat'', JNum (Unix t)), (''iss'', JStr (Issuer (JWT (auth_cfg s)))),
      (''aud'', JArr (map JStr (Audience (JWT (auth_cfg s)))))]"

definition generateAccessToken :: "'r auth_deps \<Rightarrow> env \<Rightarrow> user \<Rightarrow> string result" where
  "generateAccessToken s e u = sign (jwt s) (token_claims s ''access'' (AccessTokenTTL (JWT (auth_cfg s)))
     (new_uuid e ''access.jti'') (now e ''access.now'') u)"

definition generateRefreshToken :: "'r auth_deps \<Rightarrow> env \<Rightarrow> user \<Rightarrow> string result" where
  "generateRefreshToken s e u = sign (jwt s) (token_claims s ''refresh'' (RefreshTokenTTL (JWT (auth_cfg s)))
     (new_uuid e ''refresh.jti'') (now e ''refresh.now'') u)"

record token_pair =
  AccessToken :: string
  RefreshToken :: string

definition token_pair_for :: "'r auth_deps \<Rightarrow> env \<Rightarrow> user \<Rightarrow> token_pair result" where
  "token_pair_for s e u =
     (case generateAccessToken s e u of
        Inl x \<Rightarrow> Inl x
      | Inr a \<Rightarrow> (case generateRefreshToken s e u of Inl x \<Rightarrow> Inl x | Inr r \<Rightarrow> Inr \<lparr>AccessToken = a, RefreshToken = r\<rparr>))"

text \<open>The comparison with the dummy hash, for a user that is not found, has no result.\<close>

definition Login :: "'r auth_deps \<Rightarrow> env \<Rightarrow> string \<Rightarrow> string \<Rightarrow> 'r world \<Rightarrow> token_pair result" where
  "Login s e email password w =
     (case UserRepo_GetByEmail e email (w_db w) of
        Inl _ \<Rightarrow> Inl ErrInvalidCredentials
      | Inr u \<Rightarrow>
         (if \<not> bcrypt_matches (bcrypt s) (u_password_hash u) password then Inl ErrInvalidCredentials
          else token_pair_for s e u))"

section \<open>Validation\<close>

definition validateAudience :: "'r auth_deps \<Rightarrow> claims \<Rightarrow> bool" where
  "validateAudience s c =
     (let allowed = Audience (JWT (auth_cfg s)) in
      if allowed = [] then True
      else case map_of c ''aud'' of
        None \<Rightarrow> False
      | Some (JStr v) \<Rightarrow> v \<in> set allowed
      | Some (JArr vs) \<Rightarrow> list_ex (\<lambda>a. case a of JStr v \<Rightarrow> v \<in> set allowed | _ \<Rightarrow> False) vs
      | Some _ \<Rightarrow> False)"

text \<open>An error of the blacklist counts as not blacklisted.\<close>

definition blacklisted :: "'r auth_deps \<Rightarrow> env \<Rightarrow> string \<Rightarrow> 'r world \<Rightarrow> bool" where
  "blacklisted s e jti w =
     (case invalidator s of None \<Rightarrow> False | Some api \<Rightarrow> IsTokenInvalidated api e jti (w_bus w) = Inr True)"

definition jti_blacklisted :: "'r auth_deps \<Rightarrow> env \<Rightarrow> claims \<Rightarrow> 'r world \<Rightarrow> bool" where
  "jti_blacklisted s e c w =
     (case str_claim c ''jti'' of None \<Rightarrow> False | Some jti \<Rightarrow> jti \<noteq> [] \<and> blacklisted s e jti w)"

definition parsed :: "'r auth_deps \<Rightarrow> env \<Rightarrow> string \<Rightarrow> claims result" where
  "parsed s e token =
     (case parse (jwt s) (Issuer (JWT (auth_cfg s))) (now e ''parse'') token of
        Inl TokenExpired \<Rightarrow> Inl ErrTokenExpired
      | Inl TokenInvalid \<Rightarrow> Inl ErrInvalidToken
      | Inr (valid, c) \<Rightarrow> if valid then Inr c else Inl ErrInvalidToken)"

definition subject :: "env \<Rightarrow> claims \<Rightarrow> 'r world \<Rightarrow> user result" where
  "subject e c w =
     (case str_claim c ''sub'' of
        None \<Rightarrow> Inl ErrInvalidToken
      | Some userID \<Rightarrow> (case UserRepo_GetByID e userID (w_db w) of Inl _ \<Rightarrow> Inl ErrInvalidToken | Inr u \<Rightarrow> Inr u))"

definition validateToken :: "'r auth_deps \<Rightarrow> env \<Rightarrow> string \<Rightarrow> string \<Rightarrow> 'r world \<Rightarrow> user result" where
  "validateToken s e token expectedType w =
     (case parsed s e token of
        Inl x \<Rightarrow> Inl x
      | Inr c \<Rightarrow>
         (if \<not> validateAudience s c then Inl ErrInvalidToken
          else if str_claim c ''type'' \<noteq> Some expectedType then Inl ErrInvalidTokenType
          else if jti_blacklisted s e c w then Inl ErrInvalidToken
          else subject e c w))"

definition ValidateToken :: "'r auth_deps \<Rightarrow> env \<Rightarrow> string \<Rightarrow> 'r world \<Rightarrow> user result" where
  "ValidateToken s e token w = validateToken s e token ''access'' w"

definition ValidateRefreshToken :: "'r auth_deps \<Rightarrow> env \<Rightarrow> string \<Rightarrow> 'r world \<Rightarrow> user result" where
  "ValidateRefreshToken s e token w =
     (case validateToken s e token ''refresh'' w of
        Inl x \<Rightarrow> Inl x
      | Inr u \<Rightarrow>
         (case parse_unverified (jwt s) token of
            None \<Rightarrow> Inr u
          | Some c \<Rightarrow> if jti_blacklisted s e c w then Inl ErrInvalidToken else Inr u))"

section \<open>Refresh and logout\<close>

definition invalidateToken :: "'r auth_deps \<Rightarrow> env \<Rightarrow> string \<Rightarrow> gotime \<Rightarrow> 'r world \<Rightarrow> unit result \<times> 'r world" where
  "invalidateToken s e jti ttl w =
     (case invalidator s of None \<Rightarrow> (Inr (), w) | Some api \<Rightarrow> on_bus (InvalidateToken api e jti ttl) w)"

definition jti_of :: "claims \<Rightarrow> string" where
  "jti_of c = (case str_claim c ''jti'' of None \<Rightarrow> [] | Some jti \<Rightarrow> jti)"

definition AuthService_RefreshToken :: "'r auth_deps \<Rightarrow> env \<Rightarrow> string \<Rightarrow> 'r world \<Rightarrow> token_pair result \<times> 'r world" where
  "AuthService_RefreshToken s e token w =
     (case parsed s e token of
        Inl x \<Rightarrow> (Inl x, w)
      | Inr c \<Rightarrow>
         (if str_claim c ''type'' \<noteq> Some ''refresh'' then (Inl ErrInvalidTokenType, w)
          else if \<not> validateAudience s c then (Inl ErrInvalidToken, w)
          else if jti_of c \<noteq> [] \<and> blacklisted s e (jti_of c) w then (Inl ErrInvalidToken, w)
          else case subject e c w of
            Inl x \<Rightarrow> (Inl x, w)
          | Inr u \<Rightarrow>
             (case token_pair_for s e u of
                Inl x \<Rightarrow> (Inl x, w)
              | Inr pair \<Rightarrow>
                 (if jti_of c = [] then (Inr pair, w)
                  else case invalidateToken s e (jti_of c) (RefreshTokenTTL (JWT (auth_cfg s))) w of
                    (Inl _, w1) \<Rightarrow> (Inl (Err ''failed to invalidate old token''), w1)
                  | (Inr _, w1) \<Rightarrow> (Inr pair, w1)))))"

definition logout_one :: "'r auth_deps \<Rightarrow> env \<Rightarrow> string \<Rightarrow> gotime \<Rightarrow> 'r world \<Rightarrow> unit result \<times> 'r world" where
  "logout_one s e token ttl w =
     (if token = [] then (Inr (), w)
      else case parse_unverified (jwt s) token of
        None \<Rightarrow> (Inr (), w)
      | Some c \<Rightarrow> if jti_of c = [] then (Inr (), w) else invalidateToken s e (jti_of c) ttl w)"

definition Logout :: "'r auth_deps \<Rightarrow> env \<Rightarrow> string \<Rightarrow> string \<Rightarrow> 'r world \<Rightarrow> unit result \<times> 'r world" where
  "Logout s e accessToken refreshToken w =
     (case logout_one s e accessToken (AccessTokenTTL (JWT (auth_cfg s))) w of
        (Inl x, w1) \<Rightarrow> (Inl x, w1)
      | (Inr _, w1) \<Rightarrow> logout_one s e refreshToken (RefreshTokenTTL (JWT (auth_cfg s))) w1)"

end
