(* ===== verification/Auth_Properties.thy ===== *)
theory Auth_Properties
  imports Auth_Service "HOL-Library.Countable"
begin

text \<open>
  What a token is good for, and for how long: the JWT library as the locale \<open>jwt_library\<close>, the blacklist
  as the locale \<open>token_blacklist\<close> that Redis provides, and the properties of registration, login, refresh
  and logout over any later requests to the service.
\<close>

section \<open>The JWT library\<close>

text \<open>
  Documented behaviour of \<open>golang-jwt\<close>: the claims of a signed token can be read back, and a token without a
  \<open>nbf\<close> claim, which this program never sets, parses until its expiry, a number of seconds that fits a double.
\<close>

definition valid_expiry :: "int \<Rightarrow> bool" where
  "valid_expiry x \<longleftrightarrow> 0 < x \<and> x < 2 ^ 53"

locale jwt_library =
  fixes api :: jwt_api
  assumes signed: "sign api c = Inr token \<Longrightarrow> token \<noteq> [] \<and> parse_unverified api token = Some c"
    and parse_signed: "sign api c = Inr token \<Longrightarrow> map_of c ''exp'' = Some (JNum x) \<Longrightarrow> valid_expiry x \<Longrightarrow>
      map_of c ''iss'' = Some (JStr iss) \<Longrightarrow> map_of c ''nbf'' = None \<Longrightarrow>
      parse api iss t token = (if x * second \<le> t then Inl TokenExpired else Inr (True, c))"
begin

lemma parsed_signed:
  assumes "sign api c = Inr token" "map_of c ''exp'' = Some (JNum (Unix x))" "valid_expiry (Unix x)"
    "map_of c ''iss'' = Some (JStr iss)" "map_of c ''nbf'' = None" "parse api iss t token = Inr (v, c')"
  shows "v \<and> c' = c \<and> t < x"
proof -
  have "\<not> Unix x * second \<le> t" "v" "c' = c"
    using assms parse_signed [OF assms(1-5), of t] by (auto split: if_splits)
  moreover have "Unix x * second \<le> x"
    by (simp add: Unix_def second_def)
  ultimately show ?thesis by simp
qed

end

text \<open>A reference library: a token is a numbering of the claims.\<close>

instance json :: countable by countable_datatype

definition ref_decode :: "string \<Rightarrow> claims option" where
  "ref_decode token = (if token = [] then None else Some (from_nat (length token - 1)))"

definition ref_jwt :: jwt_api where
  "ref_jwt = \<lparr>sign = (\<lambda>c. Inr (replicate (Suc (to_nat c)) (CHR ''.''))),
     parse = (\<lambda>iss t token. case ref_decode token of
         None \<Rightarrow> Inl TokenInvalid
       | Some c \<Rightarrow> (case (map_of c ''exp'', map_of c ''iss'') of
           (Some (JNum x), Some (JStr i)) \<Rightarrow>
             if x * second \<le> t then Inl TokenExpired else if i = iss then Inr (True, c) else Inl TokenInvalid
         | _ \<Rightarrow> Inl TokenInvalid)),
     parse_unverified = ref_decode\<rparr>"

interpretation ref_tokens: jwt_library ref_jwt
  by unfold_locales (auto simp: ref_jwt_def ref_decode_def)

section \<open>The blacklist\<close>

text \<open>
  A banned id is reported until its time is over, by the clock of the store. A ban whose reply is lost may
  have been stored.
\<close>

locale token_blacklist =
  fixes ban :: "env \<Rightarrow> string \<Rightarrow> gotime \<Rightarrow> 's \<Rightarrow> unit result \<times> 's"
    and banned :: "env \<Rightarrow> string \<Rightarrow> 's \<Rightarrow> bool result"
    and ban_at :: "env \<Rightarrow> string \<Rightarrow> gotime"
    and read_at :: "env \<Rightarrow> string \<Rightarrow> gotime"
  assumes ban_stored: "ban e0 j ttl s = (r, s') \<Longrightarrow> 0 < ttl \<Longrightarrow> r = Inr () \<or> s' \<noteq> s \<Longrightarrow>
      banned e j s' = Inr b \<Longrightarrow> b \<longleftrightarrow> read_at e j < ban_at e0 j + ttl"
    and ban_other: "ban e0 j ttl s = (r, s') \<Longrightarrow> j \<noteq> j' \<Longrightarrow> banned e j' s' = banned e j' s"
begin

definition banned_until :: "gotime \<Rightarrow> string \<Rightarrow> 's \<Rightarrow> bool" where
  "banned_until x j s \<longleftrightarrow> (\<forall>e. read_at e j < x \<longrightarrow> banned e j s \<noteq> Inr False)"

lemma ban_bans: "ban e0 j ttl s = (Inr (), s') \<Longrightarrow> 0 < ttl \<Longrightarrow> banned_until (ban_at e0 j + ttl) j s'"
  unfolding banned_until_def using ban_stored by blast

lemma ban_keeps:
  assumes "banned_until x j s" "ban e0 j' ttl s = (r, s')" "0 < ttl" "j' = j \<Longrightarrow> x \<le> ban_at e0 j + ttl"
  shows "banned_until x j s'"
proof (cases "j' = j \<and> s' \<noteq> s")
  case True
  then show ?thesis
    using assms ban_stored [of e0 j ttl s r s'] unfolding banned_until_def by fastforce
next
  case False
  then show ?thesis
    using assms ban_other [of e0 j' ttl s r s' j] unfolding banned_until_def by metis
qed

lemma banned_untilD: "banned_until x j s \<Longrightarrow> read_at e j < x \<Longrightarrow> banned e j s = Inr b \<Longrightarrow> b"
  by (cases b) (auto simp: banned_until_def)

end

abbreviation set_at :: "env \<Rightarrow> string \<Rightarrow> gotime" where
  "set_at e j \<equiv> redis_now e (''SET token:blacklist:'' @ j)"

abbreviation checked_at :: "env \<Rightarrow> string \<Rightarrow> gotime" where
  "checked_at e j \<equiv> redis_now e (''EXISTS token:blacklist:'' @ j)"

sublocale redis_server \<subseteq> blacklist: token_blacklist "InvalidateToken api" "IsTokenInvalidated api" set_at checked_at
proof unfold_locales
  show "b \<longleftrightarrow> checked_at e j < set_at e0 j + ttl"
    if "InvalidateToken api e0 j ttl s = (r, s')" "0 < ttl" "r = Inr () \<or> s' \<noteq> s" "IsTokenInvalidated api e j s' = Inr b"
    for e0 e :: env and j and ttl :: gotime and s s' r b
  proof -
    have "store s' = cmd_set api (set_at e0 j) (''token:blacklist:'' @ j) (Text ''1'') ttl (store s)"
      using that(1,3) by (auto simp: InvalidateToken_def set_key_def redis_write_def split: option.splits fault.splits)
    then show ?thesis
      using that(2,4) by (auto simp: IsTokenInvalidated_def exists_key_def redis_read_def exists_get look_put
          split: option.splits if_splits)
  qed
  show "IsTokenInvalidated api e j' s' = IsTokenInvalidated api e j' s"
    if "InvalidateToken api e0 j ttl s = (r, s')" "j \<noteq> j'" for e0 e :: env and j j' and ttl :: gotime and s s' r
    using that by (auto simp: InvalidateToken_def set_key_def redis_write_def IsTokenInvalidated_def exists_key_def
        redis_read_def exists_get look_put_other split: option.splits fault.splits)
qed

abbreviation redis_banned :: "'r redis_api \<Rightarrow> gotime \<Rightarrow> string \<Rightarrow> 'r bus \<Rightarrow> bool" where
  "redis_banned api \<equiv> token_blacklist.banned_until (IsTokenInvalidated api) checked_at"

section \<open>Requests to the service\<close>

text \<open>The requests that write something; logging in and validating a token do not.\<close>

datatype auth_op = RegisterCall register_input | RefreshCall string | LogoutCall string string

fun auth_step :: "'r auth_deps \<Rightarrow> env \<Rightarrow> auth_op \<Rightarrow> 'r world \<Rightarrow> 'r world" where
  "auth_step s e (RegisterCall inp) w = snd (Register s e inp w)"
| "auth_step s e (RefreshCall token) w = snd (AuthService_RefreshToken s e token w)"
| "auth_step s e (LogoutCall access refresh) w = snd (Logout s e access refresh w)"

definition auth_run :: "'r auth_deps \<Rightarrow> (env \<times> auth_op) list \<Rightarrow> 'r world \<Rightarrow> 'r world" where
  "auth_run s ops w = foldl (\<lambda>w (e, op). auth_step s e op w) w ops"

abbreviation access_ttl :: "'r auth_deps \<Rightarrow> gotime" where
  "access_ttl s \<equiv> AccessTokenTTL (JWT (auth_cfg s))"

abbreviation refresh_ttl :: "'r auth_deps \<Rightarrow> gotime" where
  "refresh_ttl s \<equiv> RefreshTokenTTL (JWT (auth_cfg s))"

text \<open>A request that does not hand in a token with the id \<open>j\<close> as the access token of a logout.\<close>

fun spares :: "'r auth_deps \<Rightarrow> string \<Rightarrow> auth_op \<Rightarrow> bool" where
  "spares s j (LogoutCall access refresh) \<longleftrightarrow>
     (case parse_unverified (jwt s) access of None \<Rightarrow> True | Some c \<Rightarrow> jti_of c \<noteq> j)"
| "spares s j _ \<longleftrightarrow> True"

lemma Register_bus [simp]: "w_bus (snd (Register s e inp w)) = w_bus w"
  by (auto simp: Register_def Let_def on_db_def split_beta split: sum.splits)

lemma refresh_world:
  "snd (AuthService_RefreshToken s e token w) = w \<or>
   (\<exists>j. snd (AuthService_RefreshToken s e token w) = snd (invalidateToken s e j (refresh_ttl s) w))"
  by (auto simp: AuthService_RefreshToken_def split: sum.splits prod.splits) (metis snd_conv)+

lemma logout_one_world:
  "snd (logout_one s e token ttl w) = w \<or>
   (\<exists>c. parse_unverified (jwt s) token = Some c \<and> snd (logout_one s e token ttl w) = snd (invalidateToken s e (jti_of c) ttl w))"
  by (auto simp: logout_one_def split: option.splits)

lemma Logout_world:
  "snd (Logout s e a r w) = snd (logout_one s e a (access_ttl s) w) \<or>
   snd (Logout s e a r w) = snd (logout_one s e r (refresh_ttl s) (snd (logout_one s e a (access_ttl s) w)))"
  by (auto simp: Logout_def split: sum.splits prod.splits)

section \<open>The blacklist over requests\<close>

context redis_server begin

lemma invalidate_keeps:
  assumes "invalidator s = Some api" "blacklist.banned_until x j (w_bus w)" "0 < ttl"
    "j' = j \<Longrightarrow> x \<le> set_at e j + ttl"
  shows "blacklist.banned_until x j (w_bus (snd (invalidateToken s e j' ttl w)))"
  using blacklist.ban_keeps [OF assms(2) _ assms(3), of e j' "fst (InvalidateToken api e j' ttl (w_bus w))"] assms(1,4)
  by (auto simp: invalidateToken_def on_bus_def split_beta)

lemma logout_one_keeps:
  assumes "invalidator s = Some api" "blacklist.banned_until x j (w_bus w)" "0 < ttl"
    "\<And>c. parse_unverified (jwt s) token = Some c \<Longrightarrow> jti_of c = j \<Longrightarrow> x \<le> set_at e j + ttl"
  shows "blacklist.banned_until x j (w_bus (snd (logout_one s e token ttl w)))"
  using logout_one_world [of s e token ttl w] invalidate_keeps [OF assms(1-3)] assms(2,4) by auto

lemma step_keeps:
  assumes "invalidator s = Some api" "blacklist.banned_until x j (w_bus w)" "0 < access_ttl s" "0 < refresh_ttl s"
    "x \<le> set_at e j + refresh_ttl s" "spares s j op \<or> x \<le> set_at e j + access_ttl s"
  shows "blacklist.banned_until x j (w_bus (auth_step s e op w))"
proof (cases op)
  case (RefreshCall token)
  then show ?thesis
    using refresh_world [of s e token w] invalidate_keeps [OF assms(1,2,4)] assms(2,5) by fastforce
next
  case (LogoutCall a r)
  have a: "blacklist.banned_until x j (w_bus (snd (logout_one s e a (access_ttl s) w)))"
    by (rule logout_one_keeps [OF assms(1-3)]) (use assms(6) LogoutCall in auto)
  then have "blacklist.banned_until x j (w_bus (snd (logout_one s e r (refresh_ttl s) (snd (logout_one s e a (access_ttl s) w)))))"
    by (rule logout_one_keeps [OF assms(1) _ assms(4)]) (rule assms(5))
  then show ?thesis using a Logout_world [of s e a r w] LogoutCall by auto
qed (use assms(2) in simp)

lemma run_keeps:
  assumes "invalidator s = Some api" "0 < access_ttl s" "0 < refresh_ttl s" "blacklist.banned_until x j (w_bus w)"
    "\<forall>(e, op) \<in> set ops. x \<le> set_at e j + refresh_ttl s \<and> (spares s j op \<or> x \<le> set_at e j + access_ttl s)"
  shows "blacklist.banned_until x j (w_bus (auth_run s ops w))"
  using assms(4,5)
proof (induction ops arbitrary: w)
  case (Cons a ops)
  then have "blacklist.banned_until x j (w_bus (auth_step s (fst a) (snd a) w))"
    using step_keeps [OF assms(1) Cons.prems(1) assms(2,3), of "fst a" "snd a"] by (auto simp: case_prod_unfold)
  then show ?case using Cons by (auto simp: auth_run_def case_prod_unfold)
qed (simp add: auth_run_def)

lemma banned_rejected:
  assumes "invalidator s = Some api" "blacklist.banned_until x j (w_bus w)" "checked_at e j < x"
    "redis_fault e (''EXISTS token:blacklist:'' @ j) = None"
  shows "blacklisted s e j w"
proof -
  obtain b where "IsTokenInvalidated api e j (w_bus w) = Inr b"
    using assms(4) by (simp add: IsTokenInvalidated_def exists_key_def redis_read_def)
  then show ?thesis
    using blacklist.banned_untilD [OF assms(2,3)] assms(1) by (simp add: blacklisted_def)
qed

lemma invalidate_bans:
  assumes "invalidator s = Some api" "invalidateToken s e j ttl w = (Inr (), w')" "0 < ttl"
  shows "blacklist.banned_until (set_at e j + ttl) j (w_bus w')"
  using assms(2) blacklist.ban_bans [OF _ assms(3), of e j "w_bus w" "w_bus w'"]
  by (auto simp: invalidateToken_def assms(1) on_bus_def split_beta prod_eq_iff)

end

section \<open>Issued tokens\<close>

lemma token_claims_fields [simp]:
  "map_of (token_claims s ty ttl j t u) ''exp'' = Some (JNum (Unix (t + ttl)))"
  "map_of (token_claims s ty ttl j t u) ''iss'' = Some (JStr (Issuer (JWT (auth_cfg s))))"
  "map_of (token_claims s ty ttl j t u) ''nbf'' = None"
  "str_claim (token_claims s ty ttl j t u) ''type'' = Some ty"
  "str_claim (token_claims s ty ttl j t u) ''sub'' = Some (u_id u)"
  "str_claim (token_claims s ty ttl j t u) ''jti'' = Some j"
  "jti_of (token_claims s ty ttl j t u) = j"
  by (simp_all add: token_claims_def str_claim_def jti_of_def)

lemma token_claims_audience [simp]: "validateAudience s (token_claims s ty ttl j t u)"
  by (cases "Audience (JWT (auth_cfg s))") (simp_all add: validateAudience_def token_claims_def)

text \<open>\<open>token\<close> was issued to \<open>u\<close> at \<open>t\<close> with the id \<open>j\<close>.\<close>

definition issued :: "'r auth_deps \<Rightarrow> string \<Rightarrow> gotime \<Rightarrow> string \<Rightarrow> gotime \<Rightarrow> user \<Rightarrow> string \<Rightarrow> bool" where
  "issued s ty ttl j t u token \<longleftrightarrow> j \<noteq> [] \<and> valid_expiry (Unix (t + ttl)) \<and>
     sign (jwt s) (token_claims s ty ttl j t u) = Inr token"

context jwt_library begin

lemma issued_unverified:
  "jwt s = api \<Longrightarrow> issued s ty ttl j t u token \<Longrightarrow>
   token \<noteq> [] \<and> parse_unverified (jwt s) token = Some (token_claims s ty ttl j t u)"
  using signed [of "token_claims s ty ttl j t u"] by (simp add: issued_def)

lemma issued_parsed:
  assumes "jwt s = api" "issued s ty ttl j t u token" "parsed s e token = Inr c"
  shows "c = token_claims s ty ttl j t u \<and> now e ''parse'' < t + ttl"
  using assms parsed_signed [of "token_claims s ty ttl j t u" token "t + ttl" "Issuer (JWT (auth_cfg s))" "now e ''parse''"]
  by (auto simp: parsed_def issued_def split: sum.splits parse_error.splits prod.splits if_splits)

lemma issued_parses:
  assumes "jwt s = api" "issued s ty ttl j t u token" "now e ''parse'' < Unix (t + ttl) * second"
  shows "parsed s e token = Inr (token_claims s ty ttl j t u)"
  using assms parse_signed [of "token_claims s ty ttl j t u" token "Unix (t + ttl)" "Issuer (JWT (auth_cfg s))" "now e ''parse''"]
  by (auto simp: parsed_def issued_def)

end

section \<open>Tokens that are over\<close>

lemma jti_blacklisted_claims:
  "j \<noteq> [] \<Longrightarrow> jti_blacklisted s e (token_claims s ty ttl j t u) w \<longleftrightarrow> blacklisted s e j w"
  by (simp add: jti_blacklisted_def)

lemma banned_token_invalid:
  assumes "redis_server api zmap" "jwt_library (jwt s)" "invalidator s = Some api" "issued s ty ttl j t u token"
    "redis_banned api (x + ttl) j (w_bus w)"
    "redis_fault e (''EXISTS token:blacklist:'' @ j) = None" "checked_at e j - now e ''parse'' \<le> x - t"
    "parsed s e token = Inr c"
  shows "c = token_claims s ty ttl j t u \<and> blacklisted s e j w"
proof -
  have "c = token_claims s ty ttl j t u" "now e ''parse'' < t + ttl"
    using jwt_library.issued_parsed [OF assms(2) refl assms(4,8)] by simp_all
  then show ?thesis
    using redis_server.banned_rejected [OF assms(1,3,5) _ assms(6)] assms(7) by simp
qed

lemma Logout_bans:
  assumes "redis_server api zmap" "jwt_library (jwt s)" "invalidator s = Some api"
    and ttl: "0 < access_ttl s" "access_ttl s \<le> refresh_ttl s"
    and "issued s ty ttl j t u token" "Logout s e0 token refresh w = (Inr (), w0)"
  shows "redis_banned api (set_at e0 j + access_ttl s) j (w_bus w0)"
proof -
  have tok: "token \<noteq> []" "parse_unverified (jwt s) token = Some (token_claims s ty ttl j t u)" "j \<noteq> []"
    using jwt_library.issued_unverified [OF assms(2) refl assms(6)] assms(6) by (simp_all add: issued_def)
  obtain w1 where one: "invalidateToken s e0 j (access_ttl s) w = (Inr (), w1)"
      and two: "w0 = snd (logout_one s e0 refresh (refresh_ttl s) w1)"
    using assms(7) tok by (auto simp: Logout_def logout_one_def split: sum.splits prod.splits)
  have "redis_banned api (set_at e0 j + access_ttl s) j (w_bus w1)"
    by (rule redis_server.invalidate_bans [OF assms(1,3) one ttl(1)])
  then show ?thesis
    unfolding two by (rule redis_server.logout_one_keeps [OF assms(1,3)]) (use ttl in simp_all)
qed

text \<open>
  C11. Once a logout with an access token has succeeded, the token is never accepted again, whatever requests
  come after: it is reported by the blacklist until it has expired. Redis must answer the check, its clock must
  not go back, and the time between reading the clock and asking Redis must not exceed the time between the
  issue of the token and the logout.
\<close>

theorem logged_out_stays_out:
  assumes "redis_server api zmap" "jwt_library (jwt s)" "invalidator s = Some api"
    and "0 < access_ttl s" "access_ttl s \<le> refresh_ttl s"
    and "issued s ''access'' (access_ttl s) j t u token" "Logout s e0 token refresh w = (Inr (), w0)"
    and "\<forall>(e, op) \<in> set ops. set_at e0 j \<le> set_at e j"
    and "redis_fault e (''EXISTS token:blacklist:'' @ j) = None"
    and "checked_at e j - now e ''parse'' \<le> set_at e0 j - t"
  shows "\<exists>x. ValidateToken s e token (auth_run s ops w0) = Inl x"
proof -
  have j: "j \<noteq> []" using assms(6) by (simp add: issued_def)
  have "redis_banned api (set_at e0 j + access_ttl s) j (w_bus (auth_run s ops w0))"
    by (rule redis_server.run_keeps [OF assms(1,3,4) _ Logout_bans [OF assms(1-7)]]) (use assms(4,5,8) in auto)
  from banned_token_invalid [OF assms(1-3,6) this assms(9,10)] j show ?thesis
    by (auto simp: ValidateToken_def validateToken_def jti_blacklisted_claims split: sum.splits)
qed

lemma refresh_bans:
  assumes "redis_server api zmap" "jwt_library (jwt s)" "invalidator s = Some api" "0 < refresh_ttl s"
    and "issued s ty ttl j t u token" "AuthService_RefreshToken s e0 token w = (Inr pair, w0)"
  shows "redis_banned api (set_at e0 j + refresh_ttl s) j (w_bus w0)"
proof -
  obtain c where c: "parsed s e0 token = Inr c"
    using assms(6) by (auto simp: AuthService_RefreshToken_def split: sum.splits)
  have "c = token_claims s ty ttl j t u"
    using jwt_library.issued_parsed [OF assms(2) refl assms(5) c] by simp
  then have "jti_of c = j" "j \<noteq> []"
    using assms(5) by (simp_all add: issued_def)
  then have "invalidateToken s e0 j (refresh_ttl s) w = (Inr (), w0)"
    using assms(6) c by (auto simp: AuthService_RefreshToken_def split: sum.splits if_splits prod.splits)
  then show ?thesis using redis_server.invalidate_bans [OF assms(1,3)] assms(4) by blast
qed

text \<open>
  C23. A refresh token is used once: after a refresh with it has succeeded, every later refresh with it is
  refused and it does not validate, whatever requests come in between, as long as none of them hands it in as
  the access token of a logout (which would replace its entry by a shorter one).
\<close>

theorem refresh_token_single_use:
  assumes "redis_server api zmap" "jwt_library (jwt s)" "invalidator s = Some api"
    and "0 < access_ttl s" "0 < refresh_ttl s"
    and "issued s ''refresh'' (refresh_ttl s) j t u token" "AuthService_RefreshToken s e0 token w = (Inr pair, w0)"
    and "\<forall>(e, op) \<in> set ops. set_at e0 j \<le> set_at e j \<and> spares s j op"
    and "redis_fault e (''EXISTS token:blacklist:'' @ j) = None"
    and "checked_at e j - now e ''parse'' \<le> set_at e0 j - t"
  shows "\<exists>x y. AuthService_RefreshToken s e token (auth_run s ops w0) = (Inl x, auth_run s ops w0) \<and>
    ValidateRefreshToken s e token (auth_run s ops w0) = Inl y"
proof -
  let ?w = "auth_run s ops w0"
  have j: "j \<noteq> []" using assms(6) by (simp add: issued_def)
  have "redis_banned api (set_at e0 j + refresh_ttl s) j (w_bus ?w)"
    by (rule redis_server.run_keeps [OF assms(1,3,4,5) refresh_bans [OF assms(1-3,5-7)]]) (use assms(8) in auto)
  note banned = banned_token_invalid [OF assms(1-3,6) this assms(9,10)]
  have "\<exists>x. AuthService_RefreshToken s e token ?w = (Inl x, ?w)"
    using banned j by (auto simp: AuthService_RefreshToken_def split: sum.splits)
  moreover have "\<exists>y. validateToken s e token ''refresh'' ?w = Inl y"
    using banned j by (auto simp: validateToken_def jti_blacklisted_claims split: sum.splits)
  ultimately show ?thesis by (auto simp: ValidateRefreshToken_def)
qed

section \<open>Registration and login\<close>

text \<open>
  Documented behaviour of bcrypt: a password matches its hash. The reference keeps the password itself.
\<close>

locale password_hashes =
  fixes api :: bcrypt_api
  assumes matches_hash: "bcrypt_hash api salt p cost = Inr h \<Longrightarrow> bcrypt_matches api h p"

definition ref_bcrypt :: bcrypt_api where
  "ref_bcrypt = \<lparr>bcrypt_hash = (\<lambda>salt p cost. Inr p), bcrypt_matches = (\<lambda>h p. h = p)\<rparr>"

interpretation ref_passwords: password_hashes ref_bcrypt
  by unfold_locales (simp add: ref_bcrypt_def)

lemma Register_cases:
  assumes "Register s e inp w = (Inr u, w')"
  obtains hash where
    "ValidateEmail (SanitizeString (ri_email inp)) = Inr ()" "ValidateUsername (SanitizeUsername (ri_username inp)) = Inr ()"
    "ValidatePassword (ri_password inp) = Inr ()"
    "bcrypt_hash (bcrypt s) (new_uuid e ''salt'') (ri_password inp) (bcrypt_cost (auth_cfg s)) = Inr hash"
    "UserRepo_Create e (new_user (SanitizeUsername (ri_username inp)) (SanitizeString (ri_email inp)) hash
       (SanitizeMessage (ri_display_name inp))) (w_db w) = (Inr (), u, w_db w')"
  using assms by (auto simp: Register_def Let_def on_db_def split_beta prod_eq_iff split: sum.splits if_splits)

lemma UserRepo_Create_row:
  assumes "UserRepo_Create e u d = (Inr (), u', d')"
  obtains row where "t_users d' = t_users d @ [row]" "u_username row = u_username u" "u_email row = u_email u"
    "u_password_hash row = u_password_hash u"
    "\<forall>x \<in> set (t_users d). u_username x \<noteq> u_username u \<and> u_email x \<noteq> u_email u"
proof -
  let ?row = "u\<lparr>u_id := new_uuid e ''create_user'', u_last_seen_at := None,
    u_created_at := pg_time (now e ''create_user.created_at''), u_updated_at := pg_time (now e ''create_user.updated_at'')\<rparr>"
  have "insert_user ?row d = Inr d'"
    using assms db_exec_ok [of e "''create_user''" "insert_user ?row" d "()" d']
    by (auto simp: UserRepo_Create_def Let_def split_beta prod_eq_iff)
  then show thesis
    by (intro that [of ?row]) (auto simp: insert_user_def sql_exists_iff split: if_splits)
qed

lemma GetByEmail_added:
  assumes "t_users d' = t_users d @ [row]" "\<forall>x \<in> set (t_users d). u_email x \<noteq> u_email row"
    "db_fault e ''get_user_by_email'' = None"
  shows "UserRepo_GetByEmail e (u_email row) d' = Inr row"
  using assms by (simp add: UserRepo_GetByEmail_def db_query_def sql_row_append_miss) (simp add: sql_row_def)

text \<open>
  C33. A registration that succeeds adds one row, with the cleaned and validated name and address, which nobody
  else has, and with a hash that the password matches; from then on a login with this address answers
  with tokens for this user when the password matches the hash, and with the one error for bad credentials
  otherwise.
\<close>

theorem Register_stores:
  assumes "db_ok (w_db w)" "password_hashes (bcrypt s)" "Register s e inp w = (Inr u, w')"
    and "db_fault e' ''get_user_by_email'' = None"
  shows "\<exists>row. t_users (w_db w') = t_users (w_db w) @ [row] \<and> db_ok (w_db w') \<and>
    u_username row = SanitizeUsername (ri_username inp) \<and> u_email row = SanitizeString (ri_email inp) \<and>
    ValidateUsername (u_username row) = Inr () \<and> ValidateEmail (u_email row) = Inr () \<and>
    ValidatePassword (ri_password inp) = Inr () \<and>
    (\<forall>x \<in> set (t_users (w_db w)). u_username x \<noteq> u_username row \<and> u_email x \<noteq> u_email row) \<and>
    (\<forall>p. Login s e' (u_email row) p w' =
      (if bcrypt_matches (bcrypt s) (u_password_hash row) p then token_pair_for s e' row else Inl ErrInvalidCredentials)) \<and>
    bcrypt_matches (bcrypt s) (u_password_hash row) (ri_password inp)"
proof -
  let ?name = "SanitizeUsername (ri_username inp)" and ?email = "SanitizeString (ri_email inp)"
  obtain hash where valid: "ValidateEmail ?email = Inr ()" "ValidateUsername ?name = Inr ()"
      "ValidatePassword (ri_password inp) = Inr ()"
    and hash: "bcrypt_hash (bcrypt s) (new_uuid e ''salt'') (ri_password inp) (bcrypt_cost (auth_cfg s)) = Inr hash"
    and made: "UserRepo_Create e (new_user ?name ?email hash (SanitizeMessage (ri_display_name inp))) (w_db w) = (Inr (), u, w_db w')"
    by (rule Register_cases [OF assms(3)])
  obtain row where row: "t_users (w_db w') = t_users (w_db w) @ [row]" "u_username row = ?name" "u_email row = ?email"
      "u_password_hash row = hash"
    and fresh: "\<forall>x \<in> set (t_users (w_db w)). u_username x \<noteq> ?name \<and> u_email x \<noteq> ?email"
    using UserRepo_Create_row [OF made] by (auto simp: new_user_def)
  have "db_ok (w_db w')"
    using made assms(1) apply_write_ok [of "w_db w" e "WCreateUser (new_user ?name ?email hash (SanitizeMessage (ri_display_name inp)))"] by simp
  moreover have "UserRepo_GetByEmail e' (u_email row) (w_db w') = Inr row"
    using GetByEmail_added [OF row(1) _ assms(4)] fresh row(3) by simp
  ultimately show ?thesis
    using valid fresh row password_hashes.matches_hash [OF assms(2) hash] by (auto simp: Login_def)
qed

lemma find_key: "distinct (map k xs) \<Longrightarrow> x \<in> set xs \<Longrightarrow> find (\<lambda>y. k y = k x) xs = Some x"
  by (induction xs) (auto simp: image_iff)

lemma db_ok_user_row:
  "db_ok d \<Longrightarrow> u \<in> set (t_users d) \<Longrightarrow> db_fault e ''get_user_by_id'' = None \<Longrightarrow> UserRepo_GetByID e (u_id u) d = Inr u"
  by (auto simp: UserRepo_GetByID_def db_query_def sql_row_def db_ok_def find_key)

lemma issued_validates:
  assumes "jwt_library (jwt s)" "issued s ty ttl j t u token" "now e ''parse'' < Unix (t + ttl) * second"
    "\<not> blacklisted s e j w" "db_ok (w_db w)" "u \<in> set (t_users (w_db w))" "db_fault e ''get_user_by_id'' = None"
  shows "validateToken s e token want w = (if ty = want then Inr u else Inl ErrInvalidTokenType)"
  using jwt_library.issued_parses [OF assms(1) refl assms(2,3)] assms db_ok_user_row [OF assms(5-7)]
  by (simp add: validateToken_def jti_blacklisted_def subject_def issued_def)

text \<open>
  C34. A login that succeeds is by a user whose hash the password matches, and its tokens work: until they
  expire, and as long as they are not blacklisted, the access token validates as this user, the refresh
  token validates as a refresh token, and neither is accepted in the place of the other.
\<close>

theorem Login_issues:
  assumes "db_ok (w_db w)" "jwt_library (jwt s)" "Login s e email password w = Inr pair"
    and "new_uuid e ''access.jti'' \<noteq> []" "new_uuid e ''refresh.jti'' \<noteq> []"
    and "valid_expiry (Unix (now e ''access.now'' + access_ttl s))" "valid_expiry (Unix (now e ''refresh.now'' + refresh_ttl s))"
    and "now e' ''parse'' < Unix (now e ''access.now'' + access_ttl s) * second"
    and "now e' ''parse'' < Unix (now e ''refresh.now'' + refresh_ttl s) * second"
    and "\<not> blacklisted s e' (new_uuid e ''access.jti'') w" "\<not> blacklisted s e' (new_uuid e ''refresh.jti'') w"
    and "db_fault e' ''get_user_by_id'' = None"
  shows "\<exists>u \<in> set (t_users (w_db w)). u_email u = email \<and> bcrypt_matches (bcrypt s) (u_password_hash u) password \<and>
    ValidateToken s e' (AccessToken pair) w = Inr u \<and> ValidateToken s e' (RefreshToken pair) w = Inl ErrInvalidTokenType \<and>
    ValidateRefreshToken s e' (RefreshToken pair) w = Inr u \<and>
    ValidateRefreshToken s e' (AccessToken pair) w = Inl ErrInvalidTokenType"
proof -
  obtain u where u: "UserRepo_GetByEmail e email (w_db w) = Inr u" "bcrypt_matches (bcrypt s) (u_password_hash u) password"
      and pair: "token_pair_for s e u = Inr pair"
    using assms(3) by (auto simp: Login_def split: sum.splits if_splits)
  have row: "u \<in> set (t_users (w_db w))" "u_email u = email"
    using u(1) by (auto simp: UserRepo_GetByEmail_def dest!: db_query_ok sql_row_SomeD)
  have a: "issued s ''access'' (access_ttl s) (new_uuid e ''access.jti'') (now e ''access.now'') u (AccessToken pair)"
    and r: "issued s ''refresh'' (refresh_ttl s) (new_uuid e ''refresh.jti'') (now e ''refresh.now'') u (RefreshToken pair)"
    using pair assms(4-7)
    by (auto simp: issued_def token_pair_for_def generateAccessToken_def generateRefreshToken_def split: sum.splits)
  note va = issued_validates [OF assms(2) a assms(8,10,1) row(1) assms(12)]
    and vr = issued_validates [OF assms(2) r assms(9,11,1) row(1) assms(12)]
  have "parse_unverified (jwt s) (RefreshToken pair) =
      Some (token_claims s ''refresh'' (refresh_ttl s) (new_uuid e ''refresh.jti'') (now e ''refresh.now'') u)"
    using jwt_library.issued_unverified [OF assms(2) refl r] by simp
  then show ?thesis
    using va vr row u(2) assms(5,11)
    by (auto simp: ValidateToken_def ValidateRefreshToken_def jti_blacklisted_def intro!: bexI [of _ u])
qed

section \<open>Examples\<close>

definition sample_auth :: "ref_redis auth_deps" where
  "sample_auth = \<lparr>jwt = ref_jwt, bcrypt = ref_bcrypt, invalidator = Some ref_api, auth_cfg = Auth (defaultConfig (\<lambda>_. []))\<rparr>"

lemma sample_auth_simps [simp]:
  "jwt sample_auth = ref_jwt" "bcrypt sample_auth = ref_bcrypt" "invalidator sample_auth = Some ref_api"
  "access_ttl sample_auth = 15 * minute" "refresh_ttl sample_auth = 168 * hour"
  by (simp_all add: sample_auth_def defaultConfig_def)

lemma ref_sign [simp]: "sign ref_jwt c = Inr (replicate (Suc (to_nat c)) (CHR ''.''))"
  by (simp add: ref_jwt_def)

definition sample_token :: "string \<Rightarrow> gotime \<Rightarrow> string" where
  "sample_token ty ttl = replicate (Suc (to_nat (token_claims sample_auth ty ttl ''j1'' (10 ^ 18) (sample_user ''bob'')))) (CHR ''.'')"

lemma sample_expiry:
  "valid_expiry (Unix (10 ^ 18 + 15 * minute))" "valid_expiry (Unix (10 ^ 18 + 168 * hour))"
  by (simp_all add: valid_expiry_def Unix_def time_units hour_def)

lemma sample_issued:
  "issued sample_auth ''access'' (access_ttl sample_auth) ''j1'' (10 ^ 18) (sample_user ''bob'') (sample_token ''access'' (15 * minute))"
  "issued sample_auth ''refresh'' (refresh_ttl sample_auth) ''j1'' (10 ^ 18) (sample_user ''bob'') (sample_token ''refresh'' (168 * hour))"
  by (simp_all only: issued_def sample_token_def sample_auth_simps ref_sign sample_expiry) simp_all

lemma sample_bus [simp]: "\<not> blacklisted sample_auth e j sample_world"
  by (simp add: blacklisted_def IsTokenInvalidated_def exists_key_def redis_read_def ref_api_def ref_empty_def
      split: option.splits)

lemma ref_invalidates:
  "no_faults e \<Longrightarrow> fst (invalidateToken sample_auth e j ttl w) = Inr ()"
  by (simp add: invalidateToken_def on_bus_def InvalidateToken_def set_key_def)

lemma logged_out_stays_out_witness:
  "\<exists>w0 x. Logout sample_auth (quiet_env (10 ^ 18 + second)) (sample_token ''access'' (15 * minute)) [] sample_world = (Inr (), w0) \<and>
     ValidateToken sample_auth (quiet_env (10 ^ 18 + minute)) (sample_token ''access'' (15 * minute))
       (auth_run sample_auth [(quiet_env (10 ^ 18 + 2 * second), RefreshCall ''x'')] w0) = Inl x"
proof -
  let ?e = "quiet_env (10 ^ 18 + second)" and ?tok = "sample_token ''access'' (15 * minute)"
  have lib: "jwt_library (jwt sample_auth)" by (simp add: ref_tokens.jwt_library_axioms)
  have i: "issued sample_auth ''access'' (access_ttl sample_auth) ''j1'' (10 ^ 18) (sample_user ''bob'') ?tok"
    by (rule sample_issued)
  let ?w0 = "snd (invalidateToken sample_auth ?e ''j1'' (15 * minute) sample_world)"
  have out: "Logout sample_auth ?e ?tok [] sample_world = (Inr (), ?w0)"
    using jwt_library.issued_unverified [OF lib refl i] ref_invalidates [of ?e]
    by (simp add: Logout_def logout_one_def prod_eq_iff split: sum.splits prod.splits)
  have "\<exists>x. ValidateToken sample_auth (quiet_env (10 ^ 18 + minute)) ?tok
      (auth_run sample_auth [(quiet_env (10 ^ 18 + 2 * second), RefreshCall ''x'')] ?w0) = Inl x"
    by (rule logged_out_stays_out [OF ref.redis_server_axioms lib _ _ _ i out])
      (simp_all add: time_units hour_def)
  then show ?thesis using out by blast
qed

lemma refresh_token_single_use_witness:
  "\<exists>pair w0 x y. AuthService_RefreshToken sample_auth (quiet_env (10 ^ 18 + second)) (sample_token ''refresh'' (168 * hour)) sample_world
       = (Inr pair, w0) \<and>
     AuthService_RefreshToken sample_auth (quiet_env (10 ^ 18 + minute)) (sample_token ''refresh'' (168 * hour))
       (auth_run sample_auth [(quiet_env (10 ^ 18 + 2 * second), RefreshCall ''x'')] w0) =
       (Inl x, auth_run sample_auth [(quiet_env (10 ^ 18 + 2 * second), RefreshCall ''x'')] w0) \<and>
     ValidateRefreshToken sample_auth (quiet_env (10 ^ 18 + minute)) (sample_token ''refresh'' (168 * hour))
       (auth_run sample_auth [(quiet_env (10 ^ 18 + 2 * second), RefreshCall ''x'')] w0) = Inl y"
proof -
  let ?e = "quiet_env (10 ^ 18 + second)" and ?tok = "sample_token ''refresh'' (168 * hour)"
  have lib: "jwt_library (jwt sample_auth)" by (simp add: ref_tokens.jwt_library_axioms)
  have i: "issued sample_auth ''refresh'' (refresh_ttl sample_auth) ''j1'' (10 ^ 18) (sample_user ''bob'') ?tok"
    by (rule sample_issued)
  have p: "parsed sample_auth ?e ?tok = Inr (token_claims sample_auth ''refresh'' (168 * hour) ''j1'' (10 ^ 18) (sample_user ''bob''))"
    using jwt_library.issued_parses [OF lib refl i, of ?e] by (simp add: Unix_def time_units hour_def)
  have "UserRepo_GetByID ?e ''bob'' sample_db = Inr (sample_user ''bob'')"
    by (simp add: UserRepo_GetByID_def sql_row_def sample_db_def sample_user_def)
  then obtain pair w0 where first: "AuthService_RefreshToken sample_auth ?e ?tok sample_world = (Inr pair, w0)"
    using p ref_invalidates [of ?e "''j1''" "168 * hour" sample_world]
    by (cases "invalidateToken sample_auth ?e ''j1'' (168 * hour) sample_world")
      (auto simp: AuthService_RefreshToken_def subject_def sample_user_def token_pair_for_def generateAccessToken_def generateRefreshToken_def)
  have "\<exists>x y. AuthService_RefreshToken sample_auth (quiet_env (10 ^ 18 + minute)) ?tok
      (auth_run sample_auth [(quiet_env (10 ^ 18 + 2 * second), RefreshCall ''x'')] w0) =
      (Inl x, auth_run sample_auth [(quiet_env (10 ^ 18 + 2 * second), RefreshCall ''x'')] w0) \<and>
    ValidateRefreshToken sample_auth (quiet_env (10 ^ 18 + minute)) ?tok
      (auth_run sample_auth [(quiet_env (10 ^ 18 + 2 * second), RefreshCall ''x'')] w0) = Inl y"
    by (rule refresh_token_single_use [OF ref.redis_server_axioms lib _ _ _ i first])
      (simp_all add: time_units hour_def)
  then show ?thesis using first by blast
qed

text \<open>A registration.\<close>

definition zoe :: register_input where
  "zoe = \<lparr>ri_username = ''zoe'', ri_email = ''zoe@x.org'', ri_password = ''Passw0rd!'', ri_display_name = []\<rparr>"

lemma zoe_valid:
  "SanitizeUsername ''zoe'' = ''zoe''" "SanitizeString ''zoe@x.org'' = ''zoe@x.org''" "ValidateEmail ''zoe@x.org'' = Inr ()"
  "ValidateUsername ''zoe'' = Inr ()" "ValidatePassword ''Passw0rd!'' = Inr ()"
      apply code_simp
     apply code_simp
    apply code_simp
   apply code_simp
  apply code_simp
  done

lemma zoe_registers: "\<exists>u w'. Register sample_auth (quiet_env 7000) zoe sample_world = (Inr u, w')"
  by (simp add: Register_def zoe_def zoe_valid UserRepo_GetByUsername_def UserRepo_GetByEmail_def UserRepo_Create_def
      sql_row_def sql_exists_def sample_db_def sample_user_def row_result_def ref_bcrypt_def on_db_def insert_user_def new_user_def
      Let_def)

lemma Register_stores_witness:
  "\<exists>u w' row. Register sample_auth (quiet_env 7000) zoe sample_world = (Inr u, w') \<and>
     t_users (w_db w') = t_users sample_db @ [row] \<and> u_email row = ''zoe@x.org'' \<and>
     Login sample_auth (quiet_env 8000) ''zoe@x.org'' ''Passw0rd!'' w' = token_pair_for sample_auth (quiet_env 8000) row"
proof -
  obtain u w' where reg: "Register sample_auth (quiet_env 7000) zoe sample_world = (Inr u, w')"
    using zoe_registers by blast
  have "password_hashes (bcrypt sample_auth)" by (simp add: ref_passwords.password_hashes_axioms)
  from Register_stores [OF _ this reg, of "quiet_env 8000"]
  obtain row where row: "t_users (w_db w') = t_users sample_db @ [row]" "u_email row = ''zoe@x.org''"
      "\<And>p. Login sample_auth (quiet_env 8000) (u_email row) p w' =
        (if bcrypt_matches (bcrypt sample_auth) (u_password_hash row) p then token_pair_for sample_auth (quiet_env 8000) row
         else Inl ErrInvalidCredentials)"
      "bcrypt_matches (bcrypt sample_auth) (u_password_hash row) ''Passw0rd!''"
    by (auto simp: sample_db_ok zoe_def zoe_valid)
  then show ?thesis using reg row(3) [of "''Passw0rd!''"] by (auto simp: row(2))
qed

lemma Login_issues_witness:
  "\<exists>pair. Login sample_auth (quiet_env (10 ^ 18)) ''bob@x.org'' ''h'' sample_world = Inr pair \<and>
     ValidateToken sample_auth (quiet_env (10 ^ 18 + second)) (AccessToken pair) sample_world = Inr (sample_user ''bob'')"
proof -
  let ?e = "quiet_env (10 ^ 18)" and ?e' = "quiet_env (10 ^ 18 + second)"
  have lib: "jwt_library (jwt sample_auth)" by (simp add: ref_tokens.jwt_library_axioms)
  obtain pair where pair: "Login sample_auth ?e ''bob@x.org'' ''h'' sample_world = Inr pair"
    by (simp add: Login_def UserRepo_GetByEmail_def sql_row_def sample_db_def sample_user_def ref_bcrypt_def row_result_def
        token_pair_for_def generateAccessToken_def generateRefreshToken_def)
  have "\<exists>u \<in> set (t_users (w_db sample_world)). u_email u = ''bob@x.org'' \<and>
    bcrypt_matches (bcrypt sample_auth) (u_password_hash u) ''h'' \<and>
    ValidateToken sample_auth ?e' (AccessToken pair) sample_world = Inr u \<and>
    ValidateToken sample_auth ?e' (RefreshToken pair) sample_world = Inl ErrInvalidTokenType \<and>
    ValidateRefreshToken sample_auth ?e' (RefreshToken pair) sample_world = Inr u \<and>
    ValidateRefreshToken sample_auth ?e' (AccessToken pair) sample_world = Inl ErrInvalidTokenType"
    by (rule Login_issues [OF _ lib pair])
      (simp_all add: sample_db_ok valid_expiry_def Unix_def time_units hour_def)
  then show ?thesis using pair by (auto simp: sample_db_def sample_user_def)
qed

end
