(* ===== verification/Server.thy ===== *)
theory Server
  imports Client_Handlers Auth_Properties
begin

text \<open>
  \<open>Server\<close> in \<open>internal/server/server.go\<close>: the fan-out of what Redis delivers, the reconnection loop, the
  WebSocket handshake with its limits, and the server as a whole as a step relation. The HTTP server, the
  upgrade of the connection and the Redis connections are library calls: whether the upgrade succeeds is part
  of the request, and the deliveries of Redis are steps that can happen at any time.
\<close>

section \<open>Fan-out of room messages\<close>

definition extractRoomIDAndEvent :: "string \<Rightarrow> string \<times> string" where
  "extractRoomIDAndEvent channel =
     (if \<not> HasPrefix channel ''ws:room:'' then ([], [])
      else let rest = TrimPrefix channel ''ws:room:'' in
        case IndexByte rest (CHR '':'') of
          Some idx \<Rightarrow> (take idx rest, drop (idx + 1) rest)
        | None \<Rightarrow> (rest, []))"

definition member_event_frame :: "env \<Rightarrow> string \<Rightarrow> json \<Rightarrow> json option" where
  "member_event_frame e roomID payload =
     (if \<not> is_struct payload then None
      else case (str_field ''user_id'' payload, str_field ''action'' payload, int_field ''timestamp'' payload) of
        (Some u, Some action, Some _) \<Rightarrow>
          (let d = JObj [(''room_id'', JStr roomID), (''user_id'', JStr u)] in
           if action = ''joined'' then Some (frame e ServerMsgMemberJoined d)
           else if action = ''left'' then Some (frame e ServerMsgMemberLeft d)
           else None)
      | _ \<Rightarrow> None)"

text \<open>
  The struct of the subscriber has the fields \<open>room_id\<close>, \<open>message\<close> and \<open>action\<close>; whatever else the payload
  has is dropped.
\<close>

definition message_event_frame :: "env \<Rightarrow> json \<Rightarrow> json option" where
  "message_event_frame e payload =
     (if \<not> is_struct payload then None
      else case (str_field ''room_id'' payload, str_field ''action'' payload) of
        (Some r, Some action) \<Rightarrow>
          (let d = JObj ([(''room_id'', JStr r), (''message'', (case field ''message'' payload of None \<Rightarrow> JNull | Some m \<Rightarrow> m))] @
                     nonempty_str ''action'' action) in
           if action = ''edited'' then Some (frame e ServerMsgMessageUpdated d)
           else if action = ''deleted'' then Some (frame e ServerMsgMessageUpdated d)
           else Some (frame e ServerMsgNewMessage d))
      | _ \<Rightarrow> None)"

text \<open>One turn of the message loop of \<open>subscribeToRoomMessages\<close>; \<^const>\<open>None\<close> is a payload that is not JSON.\<close>

definition fanout_room :: "env \<Rightarrow> string \<Rightarrow> json option \<Rightarrow> hub \<Rightarrow> hub" where
  "fanout_room e channel payload h =
     (let (roomID, eventType) = extractRoomIDAndEvent channel in
      if roomID = [] then h
      else case payload of
        None \<Rightarrow> h
      | Some p \<Rightarrow>
         (case (if eventType = ''events'' then member_event_frame e roomID p else message_event_frame e p) of
            None \<Rightarrow> h
          | Some d \<Rightarrow> enqueue roomID d h))"

section \<open>Fan-out of presence\<close>

definition presence_frame :: "env \<Rightarrow> json \<Rightarrow> json option" where
  "presence_frame e payload =
     (if \<not> is_struct payload then None
      else case str_field ''user_id'' payload of
        None \<Rightarrow> None
      | Some u \<Rightarrow>
         (case field ''presence'' payload of
            None \<Rightarrow> None
          | Some JNull \<Rightarrow> None
          | Some j \<Rightarrow>
             (case presence_of_json j of
                None \<Rightarrow> None
              | Some p \<Rightarrow> Some (frame e ServerMsgPresence (JObj
                  [(''user_id'', JStr u), (''status'', JStr (p_status p)), (''presence'', presence_json p)])))))"

text \<open>\<open>ids\<close> are the clients that are not closed, in the order of the range over the map.\<close>

definition fanout_presence :: "env \<Rightarrow> json option \<Rightarrow> string list \<Rightarrow> hub \<Rightarrow> hub" where
  "fanout_presence e payload ids h =
     (case (case payload of None \<Rightarrow> None | Some p \<Rightarrow> presence_frame e p) of
        None \<Rightarrow> h
      | Some d \<Rightarrow> fold (\<lambda>i. reply i d) ids h)"

definition open_clients :: "hub \<Rightarrow> string set" where
  "open_clients h = {i \<in> h_clients h. \<not> isClosed (h_client h i)}"

section \<open>Reconnecting\<close>

definition initialBackoff :: gotime where
  "initialBackoff = 100 * millisecond"

definition maxBackoff :: gotime where
  "maxBackoff = 10 * second"

definition next_backoff :: "gotime \<Rightarrow> gotime" where
  "next_backoff b = (if maxBackoff < b * 2 then maxBackoff else b * 2)"

text \<open>
  The waits of a subscription loop, given which of its attempts to subscribe succeed: after a failure it waits,
  and doubles the wait; a success resets it.
\<close>

fun waits :: "gotime \<Rightarrow> bool list \<Rightarrow> gotime list" where
  "waits b [] = []"
| "waits b (True # as) = waits initialBackoff as"
| "waits b (False # as) = b # waits (next_backoff b) as"

section \<open>The handshake\<close>

text \<open>\<open>net.SplitHostPort\<close>, of which only the host is used.\<close>

definition last_colon :: "string \<Rightarrow> nat option" where
  "last_colon s = (case IndexByte (rev s) (CHR '':'') of None \<Rightarrow> None | Some k \<Rightarrow> Some (length s - 1 - k))"

definition SplitHostPort :: "string \<Rightarrow> string option" where
  "SplitHostPort s =
     (case last_colon s of
        None \<Rightarrow> None
      | Some i \<Rightarrow>
         (if s ! 0 = CHR ''['' then
            (case IndexByte s (CHR '']'') of
               None \<Rightarrow> None
             | Some end_ \<Rightarrow>
                (if end_ + 1 \<noteq> i then None
                 else if CHR ''['' \<in> set (drop 1 s) \<or> CHR '']'' \<in> set (drop (end_ + 1) s) then None
                 else Some (take (end_ - 1) (drop 1 s))))
          else if CHR '':'' \<in> set (take i s) then None
          else if CHR ''['' \<in> set s \<or> CHR '']'' \<in> set s then None
          else Some (take i s)))"

definition getClientIP :: "string \<Rightarrow> string" where
  "getClientIP remoteAddr = (case SplitHostPort remoteAddr of None \<Rightarrow> remoteAddr | Some host \<Rightarrow> host)"

definition getAllowedOrigins :: "config \<Rightarrow> string list" where
  "getAllowedOrigins c =
     (if AllowedOrigins (Websocket (config.Server c)) \<noteq> [] then AllowedOrigins (Websocket (config.Server c))
      else [''http://localhost:3000'', ''http://localhost:8085'', ''http://127.0.0.1:3000'', ''http://127.0.0.1:8085''])"

definition CheckOrigin :: "string list \<Rightarrow> string \<Rightarrow> bool" where
  "CheckOrigin allowed origin \<longleftrightarrow> origin = [] \<or> list_ex (\<lambda>a. a = ''*'' \<or> a = origin) allowed"

text \<open>A request, with the id of the connection it makes and whether the handshake is otherwise in order.\<close>

record ws_request =
  RemoteAddr :: string
  q_token :: string
  Authorization :: string
  Origin :: string
  upgradable :: bool
  conn_id :: string

datatype ws_response = Refused int string | UpgradeFailed | Upgraded

record 'r server_deps =
  sd_cfg :: config
  sd_auth :: "'r auth_deps"
  sd_ps :: "'r redis_api option"

record 'r node =
  n_world :: "'r world"
  n_hub :: hub
  ipConnections :: "string \<Rightarrow> 32 word"

definition bump :: "string option \<Rightarrow> 32 word \<Rightarrow> 'r node \<Rightarrow> 'r node" where
  "bump ip k n = (case ip of None \<Rightarrow> n | Some a \<Rightarrow> n\<lparr>ipConnections := (ipConnections n)(a := ipConnections n a + k)\<rparr>)"

text \<open>The loop over the rules: the first rule for connections that refuses ends it; an error of Redis lets the client in.\<close>

fun connection_rules :: "'r redis_api \<Rightarrow> env \<Rightarrow> string \<Rightarrow> rate_limit_rule list \<Rightarrow> 'r bus \<Rightarrow> bool \<times> 'r bus" where
  "connection_rules api e u [] b = (True, b)"
| "connection_rules api e u (rule # rules) b =
     (if rule_key rule = ''connection'' \<and> 0 < rule_limit rule then
        (case CheckRateLimit api e (''connection:'' @ u) (rule_limit rule) (rule_window rule) b of
           (Inr False, b1) \<Rightarrow> (False, b1)
         | (_, b1) \<Rightarrow> connection_rules api e u rules b1)
      else connection_rules api e u rules b)"

definition rate_check :: "'r server_deps \<Rightarrow> env \<Rightarrow> string \<Rightarrow> 'r world \<Rightarrow> bool \<times> 'r world" where
  "rate_check s e u w =
     (case sd_ps s of
        None \<Rightarrow> (True, w)
      | Some api \<Rightarrow> on_bus (connection_rules api e u (RateLimitRules (sd_cfg s))) w)"

definition MaxPerIP :: "'r server_deps \<Rightarrow> int" where
  "MaxPerIP s = MaxConnectionsPerIP (Websocket (config.Server (sd_cfg s)))"

definition request_token :: "ws_request \<Rightarrow> string" where
  "request_token r = (if q_token r = [] then TrimPrefix (Authorization r) ''Bearer '' else q_token r)"

definition add_client :: "string \<Rightarrow> string \<Rightarrow> string option \<Rightarrow> hub \<Rightarrow> hub" where
  "add_client i u ip h =
     on_client i (\<lambda>_. NewClient u ip) (h\<lparr>h_made := insert i (h_made h), h_register := h_register h @ [i]\<rparr>)"

text \<open>\<open>counter.Add(1) > int32(MaxConnectionsPerIP)\<close>, on 32 bits.\<close>

definition over_limit :: "'r server_deps \<Rightarrow> string \<Rightarrow> 'r node \<Rightarrow> bool" where
  "over_limit s a n \<longleftrightarrow> sint (word_of_int (MaxPerIP s) :: 32 word) < sint (ipConnections n a + 1)"

definition handleWebSocket :: "'r server_deps \<Rightarrow> env \<Rightarrow> ws_request \<Rightarrow> 'r node \<Rightarrow> ws_response \<times> 'r node" where
  "handleWebSocket s e r n =
     (let ip = (if 0 < MaxPerIP s then Some (getClientIP (RemoteAddr r)) else None) in
      if (case ip of None \<Rightarrow> False | Some a \<Rightarrow> over_limit s a n)
      then (Refused 429 ''Too many connections from this IP'', bump ip (- 1) (bump ip 1 n))
      else let n1 = bump ip 1 n; token = request_token r in
        if token = [] then (Refused 401 ''Unauthorized'', bump ip (- 1) n1)
        else case ValidateToken (sd_auth s) e token (n_world n1) of
          Inl _ \<Rightarrow> (Refused 401 ''Invalid token'', bump ip (- 1) n1)
        | Inr u \<Rightarrow>
           (let (allowed, w2) = rate_check s e (u_id u) (n_world n1); n2 = n1\<lparr>n_world := w2\<rparr> in
            if \<not> allowed then (Refused 429 ''Too many connections'', bump ip (- 1) n2)
            else if \<not> (upgradable r \<and> CheckOrigin (getAllowedOrigins (sd_cfg s)) (Origin r))
            then (UpgradeFailed, bump ip (- 1) n2)
            else (Upgraded, n2\<lparr>n_hub := add_client (conn_id r) (u_id u) ip (n_hub n2)\<rparr>)))"

text \<open>The end of \<open>ReadPump\<close>, which gives back the slot of the address.\<close>

definition connection_ends :: "string \<Rightarrow> 'r node \<Rightarrow> 'r node" where
  "connection_ends i n = bump (c_ip (h_client (n_hub n) i)) (- 1) (n\<lparr>n_hub := reader_leaves i (n_hub n)\<rparr>)"

section \<open>The server\<close>

text \<open>
  Its steps: a handshake, a frame from a client, the end of a connection, a delivery of Redis, and the steps
  of the hub and of \<open>WritePump\<close> and \<open>CloseAll\<close>: those that neither make a connection, nor end its \<open>ReadPump\<close>,
  nor bring in a message.
\<close>

definition messages :: "hub \<Rightarrow> json set" where
  "messages h = snd ` set (h_broadcast h) \<union> (\<Union>i. set (c_send (h_client h i)) \<union> set (c_wire (h_client h i))) \<union>
     (case h_pc h of Delivering _ d \<Rightarrow> {d} | Sending _ _ d \<Rightarrow> {d} | _ \<Rightarrow> {})"

inductive server_step :: "'r server_deps \<Rightarrow> 'r node \<Rightarrow> 'r node \<Rightarrow> bool" for s where
  handshake: "\<not> h_panicked (n_hub n) \<Longrightarrow> conn_id r \<notin> h_made (n_hub n) \<Longrightarrow> length (h_register (n_hub n)) < queueCap \<Longrightarrow>
    handleWebSocket s e r n = (resp, n') \<Longrightarrow> server_step s n n'"
| client_frame: "\<not> h_panicked (n_hub n) \<Longrightarrow> i \<in> h_made (n_hub n) \<Longrightarrow> c_reading (h_client (n_hub n) i) \<Longrightarrow>
    handleMessage (sd_ps s) e i data (n_world n, n_hub n) = (w', h') \<Longrightarrow>
    server_step s n (n\<lparr>n_world := w', n_hub := h'\<rparr>)"
| connection_over: "\<not> h_panicked (n_hub n) \<Longrightarrow> i \<in> h_made (n_hub n) \<Longrightarrow> c_reading (h_client (n_hub n) i) \<Longrightarrow>
    server_step s n (connection_ends i n)"
| room_delivery: "\<not> h_panicked (n_hub n) \<Longrightarrow>
    server_step s n (n\<lparr>n_hub := fanout_room e channel payload (n_hub n)\<rparr>)"
| presence_delivery: "\<not> h_panicked (n_hub n) \<Longrightarrow> i \<in> h_made (n_hub n) \<Longrightarrow> presence_frame e payload = Some d \<Longrightarrow>
    server_step s n (n\<lparr>n_hub := reply i d (n_hub n)\<rparr>)"
| hub_moves: "hub_step (n_hub n) h' \<Longrightarrow> h_made h' = h_made (n_hub n) \<Longrightarrow>
    (\<And>i. c_reading (h_client h' i) = c_reading (h_client (n_hub n) i)) \<Longrightarrow> messages h' \<subseteq> messages (n_hub n) \<Longrightarrow>
    server_step s n (n\<lparr>n_hub := h'\<rparr>)"

definition start_node :: "'r world \<Rightarrow> 'r node" where
  "start_node w = \<lparr>n_world = w, n_hub = NewHub, ipConnections = (\<lambda>_. 0)\<rparr>"

definition server_reachable :: "'r server_deps \<Rightarrow> 'r world \<Rightarrow> 'r node \<Rightarrow> bool" where
  "server_reachable s w n \<longleftrightarrow> (server_step s)\<^sup>*\<^sup>* (start_node w) n"

end
