(* ===== verification/Http.thy ===== *)
theory Http
  imports Server Snowflake
begin

text \<open>
  The REST interface: \<open>internal/handlers/handlers.go\<close>, the middleware of \<open>internal/middleware\<close>, the checks of
  \<open>internal/health\<close>, and the routes and the node id of \<open>cmd/server/main.go\<close>. gin is a library: which route
  matches a request, the address of the client and the validator of the \<open>binding\<close> tags are given; a body arrives
  parsed, \<^const>\<open>None\<close> if it is not JSON, and so does the instant of the query parameter \<open>before\<close>. Counters,
  log lines and content types are not modelled.
\<close>

section \<open>Requests and responses\<close>

datatype route = Livez | Readyz | HealthCheck | Root | RegisterRoute | LoginRoute | RefreshRoute | LogoutRoute
  | ListRoomsRoute | CreateRoomRoute | GetRoomRoute string | RoomMessagesRoute string | JoinRoute string | LeaveRoute string

text \<open>The method and the path that a route is registered under.\<close>

fun registered :: "route \<Rightarrow> string \<times> string" where
  "registered Livez = (''GET'', ''/healthz'')"
| "registered Readyz = (''GET'', ''/readyz'')"
| "registered HealthCheck = (''GET'', ''/health'')"
| "registered Root = (''GET'', ''/'')"
| "registered RegisterRoute = (''POST'', ''/api/v1/auth/register'')"
| "registered LoginRoute = (''POST'', ''/api/v1/auth/login'')"
| "registered RefreshRoute = (''POST'', ''/api/v1/auth/refresh'')"
| "registered LogoutRoute = (''POST'', ''/api/v1/auth/logout'')"
| "registered ListRoomsRoute = (''GET'', ''/api/v1/rooms'')"
| "registered CreateRoomRoute = (''POST'', ''/api/v1/rooms'')"
| "registered (GetRoomRoute i) = (''GET'', ''/api/v1/rooms/'' @ i)"
| "registered (RoomMessagesRoute i) = (''GET'', ''/api/v1/rooms/'' @ i @ ''/messages'')"
| "registered (JoinRoute i) = (''POST'', ''/api/v1/rooms/'' @ i @ ''/join'')"
| "registered (LeaveRoute i) = (''POST'', ''/api/v1/rooms/'' @ i @ ''/leave'')"

text \<open>The empty string stands for a header or a query parameter that is missing.\<close>

record http_request =
  hr_method :: string
  hr_route :: "route option"
  hr_client_ip :: string
  hr_authorization :: string
  hr_origin :: string
  hr_request_id :: string
  hr_body :: "json option"
  hr_limit :: string
  hr_before :: "gotime option"

record http_response =
  status :: int
  headers :: "(string \<times> string) list"
  body :: "json option"

definition respond :: "int \<Rightarrow> json \<Rightarrow> http_response" where
  "respond code j = \<lparr>status = code, headers = [], body = Some j\<rparr>"

definition refusal :: "int \<Rightarrow> string \<Rightarrow> string \<Rightarrow> http_response" where
  "refusal code kind text = respond code (JObj [(''code'', JStr kind), (''message'', JStr text)])"

text \<open>A nil slice marshals as null.\<close>

definition slice_json :: "('a \<Rightarrow> json) \<Rightarrow> 'a list \<Rightarrow> json" where
  "slice_json f xs = (if xs = [] then JNull else JArr (map f xs))"

text \<open>
  \<open>binding tag s\<close>: the string meets the tag. \<open>http_deps\<close> holds what \<open>main\<close> wires together; the cache and the
  pub/sub are over one Redis.
\<close>

record 'r http_deps =
  hd_cfg :: config
  hd_auth :: "'r auth_deps"
  hd_cache :: "'r redis_api option"
  hd_ps :: "'r redis_api option"
  hd_has_db :: bool
  binding :: "string \<Rightarrow> string \<Rightarrow> bool"
  getenv :: "string \<Rightarrow> string"

text \<open>\<open>ShouldBindJSON\<close> into a struct: the body decodes and the tags are met.\<close>

definition bind_json :: "(json \<Rightarrow> 'a option) \<Rightarrow> ('a \<Rightarrow> bool) \<Rightarrow> http_request \<Rightarrow> 'a option" where
  "bind_json dec ok r =
     (case (case hr_body r of None \<Rightarrow> None | Some j \<Rightarrow> dec j) of
        None \<Rightarrow> None
      | Some x \<Rightarrow> if ok x then Some x else None)"

section \<open>Health\<close>

definition LivenessHandler :: "env \<Rightarrow> http_response" where
  "LivenessHandler e = respond 200 (JObj [(''status'', JStr ''alive''), (''timestamp'', JNum (Unix (now e ''liveness'')))])"

definition database_check :: "'r http_deps \<Rightarrow> env \<Rightarrow> string \<times> bool" where
  "database_check d e =
     (if \<not> hd_has_db d then (''unconfigured'', True)
      else case db_fault e ''ping'' of
        Some x \<Rightarrow> (''down: '' @ Error (fault_err x), False)
      | None \<Rightarrow> (''up'', True))"

definition redis_check :: "'r http_deps \<Rightarrow> env \<Rightarrow> 'r world \<Rightarrow> string \<times> bool" where
  "redis_check d e w =
     (case hd_ps d of
        None \<Rightarrow> (''unconfigured'', True)
      | Some api \<Rightarrow>
         (case GetPresence api e ''healthcheck_ping'' (w_bus w) of
            Inl x \<Rightarrow> (''down: '' @ Error x, False)
          | Inr _ \<Rightarrow> (''up'', True)))"

definition ReadinessHandler :: "'r http_deps \<Rightarrow> env \<Rightarrow> 'r world \<Rightarrow> http_response" where
  "ReadinessHandler d e w =
     (let (database, db_up) = database_check d e; (redis, redis_up) = redis_check d e w;
          ready = (db_up \<and> redis_up)
      in respond (if ready then 200 else 503)
        (JObj [(''checks'', JObj [(''database'', JStr database), (''redis'', JStr redis)]),
               (''status'', JStr (if ready then ''ready'' else ''degraded'')),
               (''timestamp'', JNum (Unix (now e ''readiness'')))]))"

section \<open>Middleware\<close>

text \<open>The loop over the allowed origins: whether one is allowed, and whether it is this one.\<close>

fun cors_loop :: "string \<Rightarrow> string list \<Rightarrow> bool \<Rightarrow> bool \<times> bool" where
  "cors_loop origin [] allowed = (allowed, False)"
| "cors_loop origin (a # as) allowed =
     (if a = origin then (True, True) else cors_loop origin as (allowed \<or> a = ''*''))"

definition cors_headers :: "string list \<Rightarrow> string \<Rightarrow> (string \<times> string) list" where
  "cors_headers allowedOrigins origin =
     (let hasWildcard = list_ex (\<lambda>a. a = ''*'') allowedOrigins;
          (allowed, originAllowed) = cors_loop origin allowedOrigins False
      in (if allowed \<and> \<not> hasWildcard \<and> originAllowed
          then [(''Access-Control-Allow-Origin'', origin), (''Access-Control-Allow-Credentials'', ''true''), (''Vary'', ''Origin'')]
          else if hasWildcard then [(''Access-Control-Allow-Origin'', ''*'')] else []) @
         [(''Access-Control-Allow-Headers'', ''Content-Type, Content-Length, Accept-Encoding, X-CSRF-Token, Authorization, accept, origin, Cache-Control, X-Requested-With, X-Request-ID''),
          (''Access-Control-Allow-Methods'', ''POST, HEAD, PATCH, OPTIONS, GET, PUT, DELETE''),
          (''Access-Control-Max-Age'', ''86400''),
          (''X-Content-Type-Options'', ''nosniff''), (''X-Frame-Options'', ''DENY''), (''X-XSS-Protection'', ''1; mode=block'')])"

definition add_headers :: "(string \<times> string) list \<Rightarrow> http_response \<Rightarrow> http_response" where
  "add_headers hs r = r\<lparr>headers := hs @ headers r\<rparr>"

text \<open>\<open>next\<close> is the rest of the chain, \<open>c.Next()\<close>.\<close>

definition CORSMiddleware ::
    "string list \<Rightarrow> http_request \<Rightarrow> ('r world \<Rightarrow> http_response \<times> 'r world) \<Rightarrow> 'r world \<Rightarrow> http_response \<times> 'r world" where
  "CORSMiddleware allowedOrigins r next w =
     (let hs = cors_headers allowedOrigins (hr_origin r) in
      if hr_method r = ''OPTIONS'' then (\<lparr>status = 204, headers = hs, body = None\<rparr>, w)
      else let (resp, w') = next w in (add_headers hs resp, w'))"

definition RequestIDMiddleware ::
    "env \<Rightarrow> http_request \<Rightarrow> ('r world \<Rightarrow> http_response \<times> 'r world) \<Rightarrow> 'r world \<Rightarrow> http_response \<times> 'r world" where
  "RequestIDMiddleware e r next w =
     (let requestID = (if hr_request_id r = [] then ''req-'' @ new_uuid e ''request_id'' else hr_request_id r);
          (resp, w') = next w
      in (add_headers [(''X-Request-ID'', requestID)] resp, w'))"

text \<open>
  \<open>int(d.Seconds())\<close>. The float is exact for whole seconds, as the window of the routes and the lifetimes of
  the configuration are.
\<close>

definition whole_seconds :: "gotime \<Rightarrow> int" where
  "whole_seconds d = d sdiv second"

text \<open>An error of Redis lets the request pass.\<close>

definition RateLimitMiddleware ::
    "'r redis_api option \<Rightarrow> string \<Rightarrow> int \<Rightarrow> gotime \<Rightarrow> env \<Rightarrow> http_request \<Rightarrow> string \<Rightarrow>
     ('r world \<Rightarrow> http_response \<times> 'r world) \<Rightarrow> 'r world \<Rightarrow> http_response \<times> 'r world" where
  "RateLimitMiddleware ps actionKey limit window e r userID next w =
     (case ps of
        None \<Rightarrow> next w
      | Some api \<Rightarrow>
         (if limit \<le> 0 then next w
          else let identifier = (if userID \<noteq> [] then userID else hr_client_ip r);
                   (allowed, w1) = on_bus (CheckRateLimit api e (actionKey @ '':'' @ identifier) limit window) w
            in case allowed of
              Inl _ \<Rightarrow> next w1
            | Inr False \<Rightarrow>
                ((respond 429 (JObj [(''code'', JStr ''RATE_LIMIT_EXCEEDED''),
                    (''message'', JStr ''Too many requests, please try again later''),
                    (''retry_after'', JNum (whole_seconds window))]))
                  \<lparr>headers := [(''Retry-After'', FormatInt10 (whole_seconds window))]\<rparr>, w1)
            | Inr True \<Rightarrow> next w1))"

definition strip_bearer :: "string \<Rightarrow> string" where
  "strip_bearer token = (if 7 < length token \<and> map to_lower (take 7 token) = ''bearer '' then drop 7 token else token)"

definition AuthMiddleware ::
    "'r http_deps \<Rightarrow> env \<Rightarrow> http_request \<Rightarrow> (string \<Rightarrow> 'r world \<Rightarrow> http_response \<times> 'r world) \<Rightarrow> 'r world \<Rightarrow> http_response \<times> 'r world" where
  "AuthMiddleware d e r next w =
     (if hr_authorization r = [] then (refusal 401 ''UNAUTHORIZED'' ''Authorization header required'', w)
      else case ValidateToken (hd_auth d) e (strip_bearer (hr_authorization r)) w of
        Inl _ \<Rightarrow> (refusal 401 ''UNAUTHORIZED'' ''Invalid or expired token'', w)
      | Inr u \<Rightarrow> next (u_id u) w)"

section \<open>Handlers of accounts\<close>

definition register_input_of :: "json \<Rightarrow> register_input option" where
  "register_input_of j =
     (if \<not> is_struct j then None
      else case (str_field ''username'' j, str_field ''email'' j, str_field ''password'' j, str_field ''display_name'' j) of
        (Some u, Some m, Some p, Some n) \<Rightarrow> Some \<lparr>ri_username = u, ri_email = m, ri_password = p, ri_display_name = n\<rparr>
      | _ \<Rightarrow> None)"

definition Handlers_Register :: "'r http_deps \<Rightarrow> env \<Rightarrow> http_request \<Rightarrow> 'r world \<Rightarrow> http_response \<times> 'r world" where
  "Handlers_Register d e r w =
     (case bind_json register_input_of (\<lambda>i. binding d ''required,min=3,max=30'' (ri_username i) \<and>
             binding d ''required,email'' (ri_email i) \<and> binding d ''required,min=8'' (ri_password i)) r of
        None \<Rightarrow> (refusal 400 ''INVALID_INPUT'' ''Invalid registration request payload'', w)
      | Some input \<Rightarrow>
         (case Register (hd_auth d) e input w of
            (Inl x, w1) \<Rightarrow> (refusal 400 ''REGISTRATION_FAILED'' (Error x), w1)
          | (Inr u, w1) \<Rightarrow> (respond 201 (JObj [(''display_name'', JStr (u_display_name u)), (''email'', JStr (u_email u)),
                (''id'', JStr (u_id u)), (''username'', JStr (u_username u))]), w1)))"

definition login_input_of :: "json \<Rightarrow> (string \<times> string) option" where
  "login_input_of j =
     (if \<not> is_struct j then None
      else case (str_field ''email'' j, str_field ''password'' j) of (Some m, Some p) \<Rightarrow> Some (m, p) | _ \<Rightarrow> None)"

definition Handlers_Login :: "'r http_deps \<Rightarrow> env \<Rightarrow> http_request \<Rightarrow> 'r world \<Rightarrow> http_response" where
  "Handlers_Login d e r w =
     (case bind_json login_input_of (\<lambda>(m, p). binding d ''required,email'' m \<and> binding d ''required'' p) r of
        None \<Rightarrow> refusal 400 ''INVALID_INPUT'' ''Invalid login request payload''
      | Some (email, password) \<Rightarrow>
         (case Login (hd_auth d) e email password w of
            Inl _ \<Rightarrow> refusal 401 ''UNAUTHORIZED'' ''Invalid credentials''
          | Inr tokens \<Rightarrow> respond 200 (JObj [(''access_token'', JStr (AccessToken tokens)),
                (''expires_in'', JNum (whole_seconds (AccessTokenTTL (JWT (Auth (hd_cfg d)))))),
                (''refresh_token'', JStr (RefreshToken tokens)), (''token_type'', JStr ''Bearer'')])))"

definition refresh_token_of :: "json \<Rightarrow> string option" where
  "refresh_token_of j = (if is_struct j then str_field ''refresh_token'' j else None)"

definition Handlers_Refresh :: "'r http_deps \<Rightarrow> env \<Rightarrow> http_request \<Rightarrow> 'r world \<Rightarrow> http_response \<times> 'r world" where
  "Handlers_Refresh d e r w =
     (case bind_json refresh_token_of (binding d ''required'') r of
        None \<Rightarrow> (refusal 400 ''INVALID_INPUT'' ''Invalid refresh payload'', w)
      | Some token \<Rightarrow>
         (case AuthService_RefreshToken (hd_auth d) e token w of
            (Inl _, w1) \<Rightarrow> (refusal 401 ''UNAUTHORIZED'' ''Invalid refresh token'', w1)
          | (Inr tokens, w1) \<Rightarrow> (respond 200 (JObj [(''access_token'', JStr (AccessToken tokens)),
                (''refresh_token'', JStr (RefreshToken tokens)), (''token_type'', JStr ''Bearer'')]), w1)))"

definition Handlers_Logout :: "'r http_deps \<Rightarrow> env \<Rightarrow> http_request \<Rightarrow> 'r world \<Rightarrow> http_response \<times> 'r world" where
  "Handlers_Logout d e r w =
     (let refresh = (case bind_json refresh_token_of (\<lambda>_. True) r of None \<Rightarrow> [] | Some t \<Rightarrow> t) in
      case Logout (hd_auth d) e (strip_bearer (hr_authorization r)) refresh w of
        (Inl _, w1) \<Rightarrow> (refusal 500 ''LOGOUT_FAILED'' ''Failed to logout'', w1)
      | (Inr _, w1) \<Rightarrow> (respond 200 (JObj [(''status'', JStr ''logged_out'')]), w1))"

section \<open>Handlers of rooms\<close>

text \<open>\<open>userID\<close>: the id that \<open>AuthMiddleware\<close> put into the context.\<close>

definition with_user :: "string option \<Rightarrow> (string \<Rightarrow> 'r world \<Rightarrow> http_response \<times> 'r world) \<Rightarrow> 'r world \<Rightarrow> http_response \<times> 'r world" where
  "with_user uid k w =
     (case uid of None \<Rightarrow> (refusal 401 ''UNAUTHORIZED'' ''User not authenticated'', w) | Some u \<Rightarrow> k u w)"

definition ListRooms :: "env \<Rightarrow> string option \<Rightarrow> 'r world \<Rightarrow> http_response \<times> 'r world" where
  "ListRooms e uid = with_user uid (\<lambda>u w.
     case RoomService_GetUserRooms e u w of
       Inl _ \<Rightarrow> (refusal 500 ''INTERNAL_ERROR'' ''Failed to retrieve user rooms'', w)
     | Inr rooms \<Rightarrow> (respond 200 (slice_json room_json rooms), w))"

definition room_type_of :: "string \<Rightarrow> room_type option" where
  "room_type_of s = find (\<lambda>t. room_type_text t = s) [RoomTypeDirect, RoomTypeGroup, RoomTypeChannel]"

definition create_input_of :: "json \<Rightarrow> (string \<times> string \<times> string) option" where
  "create_input_of j =
     (if \<not> is_struct j then None
      else case (str_field ''name'' j, str_field ''type'' j, str_field ''description'' j) of
        (Some n, Some t, Some s) \<Rightarrow> Some (n, t, s) | _ \<Rightarrow> None)"

definition Handlers_CreateRoom :: "'r http_deps \<Rightarrow> env \<Rightarrow> http_request \<Rightarrow> string option \<Rightarrow> 'r world \<Rightarrow> http_response \<times> 'r world" where
  "Handlers_CreateRoom d e r uid w =
     (case bind_json create_input_of (\<lambda>(n, t, s). binding d ''required'' n \<and> binding d ''required'' t) r of
        None \<Rightarrow> (refusal 400 ''INVALID_INPUT'' ''Invalid room payload'', w)
      | Some (name, type, description) \<Rightarrow>
         (case room_type_of type of
            None \<Rightarrow> (refusal 400 ''INVALID_INPUT'' ''invalid room type: must be direct, group, or channel'', w)
          | Some t \<Rightarrow> with_user uid (\<lambda>u w.
              case RoomService_Create e (SanitizeMessage name) t (SanitizeMessage description) u w of
                (Inl _, w1) \<Rightarrow> (refusal 500 ''CREATE_ROOM_FAILED'' ''Failed to create room'', w1)
              | (Inr room, w1) \<Rightarrow> (respond 201 (room_json room), w1)) w))"

definition GetRoom :: "'r http_deps \<Rightarrow> env \<Rightarrow> string \<Rightarrow> string option \<Rightarrow> 'r world \<Rightarrow> http_response \<times> 'r world" where
  "GetRoom d e roomID uid = with_user uid (\<lambda>u w.
     case RoomService_GetByID (hd_cache d) e roomID w of
       (Inl _, w1) \<Rightarrow> (refusal 404 ''NOT_FOUND'' ''Room not found'', w1)
     | (Inr room, w1) \<Rightarrow>
        (case RoomService_IsMember e roomID u w1 of
           Inl _ \<Rightarrow> (refusal 500 ''INTERNAL_ERROR'' ''Failed to check membership'', w1)
         | Inr False \<Rightarrow> (refusal 403 ''FORBIDDEN'' ''Not a member of this room'', w1)
         | Inr True \<Rightarrow> (respond 200 (room_json room), w1)))"

text \<open>\<open>strconv.ParseInt(s, 10, 64)\<close> and \<open>strconv.Atoi\<close>.\<close>

definition ParseInt10 :: "string \<Rightarrow> int option" where
  "ParseInt10 s =
     (let (neg, ds) = (case s of [] \<Rightarrow> (False, []) | c # r \<Rightarrow> if c = CHR ''-'' then (True, r) else if c = CHR ''+'' then (False, r) else (False, s));
          n = (if neg then - int (dec_value 0 ds) else int (dec_value 0 ds))
      in if ds = [] \<or> \<not> list_all is_digit ds \<or> n < - (2 ^ 63) \<or> 2 ^ 63 \<le> n then None else Some n)"

definition page_limit :: "string \<Rightarrow> int" where
  "page_limit l =
     (if l = [] then 50
      else case ParseInt10 l of None \<Rightarrow> 50 | Some n \<Rightarrow> if 0 < n \<and> n \<le> 200 then n else 50)"

definition Handlers_GetRoomMessages :: "env \<Rightarrow> http_request \<Rightarrow> string \<Rightarrow> string option \<Rightarrow> 'r world \<Rightarrow> http_response \<times> 'r world" where
  "Handlers_GetRoomMessages e r roomID uid = with_user uid (\<lambda>u w.
     case RoomService_IsMember e roomID u w of
       Inl _ \<Rightarrow> (refusal 500 ''INTERNAL_ERROR'' ''Failed to check membership'', w)
     | Inr False \<Rightarrow> (refusal 403 ''FORBIDDEN'' ''Not a member of this room'', w)
     | Inr True \<Rightarrow>
        (case GetRoomMessages e roomID (page_limit (hr_limit r)) (hr_before r) w of
           Inl _ \<Rightarrow> (refusal 500 ''INTERNAL_ERROR'' ''Failed to retrieve room messages'', w)
         | Inr ms \<Rightarrow> (respond 200 (slice_json message_json ms), w)))"

definition Handlers_JoinRoom :: "'r http_deps \<Rightarrow> env \<Rightarrow> string \<Rightarrow> string option \<Rightarrow> 'r world \<Rightarrow> http_response \<times> 'r world" where
  "Handlers_JoinRoom d e roomID uid = with_user uid (\<lambda>u w.
     case JoinRoom (hd_cache d) (hd_ps d) e roomID u w of
       (Inl x, w1) \<Rightarrow>
        ((if x = ErrRoomNotFound then refusal 404 ''NOT_FOUND'' (Error x)
          else if x = ErrUserBanned then refusal 403 ''FORBIDDEN'' (Error x)
          else refusal 500 ''JOIN_FAILED'' ''Failed to join room''), w1)
     | (Inr _, w1) \<Rightarrow> (respond 200 (JObj [(''status'', JStr ''joined'')]), w1))"

definition Handlers_LeaveRoom :: "'r http_deps \<Rightarrow> env \<Rightarrow> string \<Rightarrow> string option \<Rightarrow> 'r world \<Rightarrow> http_response \<times> 'r world" where
  "Handlers_LeaveRoom d e roomID uid = with_user uid (\<lambda>u w.
     case LeaveRoom (hd_cache d) (hd_ps d) e roomID u w of
       (Inl x, w1) \<Rightarrow> (refusal 400 ''LEAVE_FAILED'' (Error x), w1)
     | (Inr _, w1) \<Rightarrow> (respond 200 (JObj [(''status'', JStr ''left'')]), w1))"

section \<open>Routes\<close>

definition root_page :: "config \<Rightarrow> json" where
  "root_page c = JObj [(''endpoints'', JObj [(''auth'', JStr ''/api/v1/auth''), (''healthz'', JStr ''/healthz''),
       (''metrics'', JStr (''/metrics (port '' @ FormatInt10 (metrics_port (Metrics c)) @ '')'')),
       (''readyz'', JStr ''/readyz''), (''rooms'', JStr ''/api/v1/rooms''),
       (''ws'', JStr (''/ws (port '' @ FormatInt10 (s_port (config.Server c) + 1) @ '')''))]),
     (''name'', JStr ''WebSocket Chat API''), (''version'', JStr ''1.0.0'')]"

definition auth_group :: "'r http_deps \<Rightarrow> env \<Rightarrow> http_request \<Rightarrow> ('r world \<Rightarrow> http_response \<times> 'r world) \<Rightarrow> 'r world \<Rightarrow> http_response \<times> 'r world" where
  "auth_group d e r next =
     (let authRateLimit = (if getenv d ''AUTH_RATE_LIMIT_DISABLE'' = ''1'' then 0 else 10)
      in RateLimitMiddleware (hd_ps d) ''auth'' authRateLimit minute e r [] next)"

definition rooms_group :: "'r http_deps \<Rightarrow> env \<Rightarrow> http_request \<Rightarrow> (string option \<Rightarrow> 'r world \<Rightarrow> http_response \<times> 'r world) \<Rightarrow> 'r world \<Rightarrow> http_response \<times> 'r world" where
  "rooms_group d e r next = AuthMiddleware d e r (\<lambda>u. next (Some u))"

fun run_route :: "'r http_deps \<Rightarrow> env \<Rightarrow> http_request \<Rightarrow> route \<Rightarrow> 'r world \<Rightarrow> http_response \<times> 'r world" where
  "run_route d e r Livez w = (LivenessHandler e, w)"
| "run_route d e r Readyz w = (ReadinessHandler d e w, w)"
| "run_route d e r HealthCheck w = (ReadinessHandler d e w, w)"
| "run_route d e r Root w = (respond 200 (root_page (hd_cfg d)), w)"
| "run_route d e r RegisterRoute w = auth_group d e r (Handlers_Register d e r) w"
| "run_route d e r LoginRoute w = auth_group d e r (\<lambda>w. (Handlers_Login d e r w, w)) w"
| "run_route d e r RefreshRoute w = auth_group d e r (Handlers_Refresh d e r) w"
| "run_route d e r LogoutRoute w = auth_group d e r (AuthMiddleware d e r (\<lambda>_. Handlers_Logout d e r)) w"
| "run_route d e r ListRoomsRoute w = rooms_group d e r (ListRooms e) w"
| "run_route d e r CreateRoomRoute w = rooms_group d e r (Handlers_CreateRoom d e r) w"
| "run_route d e r (GetRoomRoute i) w = rooms_group d e r (GetRoom d e i) w"
| "run_route d e r (RoomMessagesRoute i) w = rooms_group d e r (Handlers_GetRoomMessages e r i) w"
| "run_route d e r (JoinRoute i) w = rooms_group d e r (Handlers_JoinRoom d e i) w"
| "run_route d e r (LeaveRoute i) w = rooms_group d e r (Handlers_LeaveRoom d e i) w"

text \<open>What \<open>main\<close> puts before every route; a request without a route is gin's 404.\<close>

definition serve :: "'r http_deps \<Rightarrow> env \<Rightarrow> http_request \<Rightarrow> 'r world \<Rightarrow> http_response \<times> 'r world" where
  "serve d e r =
     CORSMiddleware (AllowedOrigins (Websocket (config.Server (hd_cfg d)))) r
       (RequestIDMiddleware e r (\<lambda>w.
          case hr_route r of
            None \<Rightarrow> (\<lparr>status = 404, headers = [], body = None\<rparr>, w)
          | Some p \<Rightarrow> run_route d e r p w))"

section \<open>The node id\<close>

unbundle bit_operations_syntax

text \<open>\<open>hash/fnv\<close>, \<open>New32a\<close>.\<close>

definition fnv32a :: "string \<Rightarrow> 32 word" where
  "fnv32a s = fold (\<lambda>c h. (h XOR of_nat (of_char c)) * 16777619) s 2166136261"

definition choose_node_id :: "(string \<Rightarrow> string) \<Rightarrow> generator \<Rightarrow> generator" where
  "choose_node_id env_of g =
     (if env_of ''SNOWFLAKE_NODE_ID'' \<noteq> [] then
        (case ParseInt10 (env_of ''SNOWFLAKE_NODE_ID'') of
           None \<Rightarrow> g
         | Some n \<Rightarrow> snd (SetNodeID (word_of_int n) g))
      else if env_of ''MY_POD_NAME'' \<noteq> [] then snd (SetNodeID (ucast (fnv32a (env_of ''MY_POD_NAME'') AND 0x3FF)) g)
      else g)"

end
