(* ===== verification/Server_Properties.thy ===== *)
theory Server_Properties
  imports Server
begin

text \<open>
  What the server as a whole keeps: it drives the hub by steps of the hub, it holds the limit of connections of
  an address, and what it sends to whom.
\<close>

section \<open>Every step of the server is made of steps of the hub\<close>

definition live :: "string \<Rightarrow> hub \<Rightarrow> bool" where
  "live i h \<longleftrightarrow> \<not> h_panicked h \<and> i \<in> h_made h \<and> c_reading (h_client h i)"

lemma live_moves [simp]:
  "live i (Hub_SubscribeToRoom i r h) = live i h" "live i (Hub_UnsubscribeFromRoom i r h) = live i h"
  by (auto simp: live_def Hub_SubscribeToRoom_def Hub_UnsubscribeFromRoom_def)

lemma live_steps:
  assumes "live i h"
  shows "hub_step\<^sup>*\<^sup>* h (reply i d h)" "hub_step\<^sup>*\<^sup>* h (sendError e i m c t h)" "hub_step\<^sup>*\<^sup>* h (sendAck e i m sid st h)"
    "hub_step\<^sup>*\<^sup>* h (enqueue r d h)" "hub_step h (Hub_SubscribeToRoom i r h)" "hub_step h (Hub_UnsubscribeFromRoom i r h)"
  using assms by (auto simp: live_def sendError_def sendAck_def intro: r_into_rtranclp hub_step.intros)

lemma subscribe_loop_steps:
  "live i h \<Longrightarrow> hub_step\<^sup>*\<^sup>* h (snd (subscribe_loop e i rs (w, h) n)) \<and> live i (snd (subscribe_loop e i rs (w, h) n))"
proof (induction rs arbitrary: h n)
  case (Cons r rs)
  then show ?case
    using live_steps(5) [OF Cons.prems, of r] Cons.IH [of "Hub_SubscribeToRoom i r h"] step_then by auto
qed simp

lemma unsubscribe_steps: "live i h \<Longrightarrow> hub_step\<^sup>*\<^sup>* h (fold (Hub_UnsubscribeFromRoom i) rs h)"
proof (induction rs arbitrary: h)
  case (Cons r rs)
  then show ?case using step_then [OF live_steps(6) [OF Cons.prems, of r] Cons.IH] by simp
qed simp

lemma subscribe_steps: "live i h \<Longrightarrow> hub_step\<^sup>*\<^sup>* h (snd (handleSubscribe e i msg (w, h)))"
proof (cases "unmarshal subscribe_data_of msg")
  case (Some data)
  assume "live i h"
  then have loop: "hub_step\<^sup>*\<^sup>* h (snd (subscribe_loop e i (RoomIDs data) (w, h) 0))" "live i (snd (subscribe_loop e i (RoomIDs data) (w, h) 0))"
    using subscribe_loop_steps by blast+
  have "hub_step\<^sup>*\<^sup>* h (sendAck e i (cm_id msg) [] st (snd (subscribe_loop e i (RoomIDs data) (w, h) 0)))" for st
    by (rule rtranclp_trans [OF loop(1) live_steps(3) [OF loop(2)]])
  then show ?thesis using Some live_steps(2) [OF \<open>live i h\<close>] by (simp add: handleSubscribe_def Let_def split_beta)
qed (simp add: handleSubscribe_def)

lemma handler_steps:
  assumes "live i h"
  shows "hub_step\<^sup>*\<^sup>* h (snd (handleUnsubscribe i msg (w, h)))" "hub_step\<^sup>*\<^sup>* h (snd (handleChatMessage ps e i msg (w, h)))"
    "hub_step\<^sup>*\<^sup>* h (snd (handleTyping e i msg (w, h)))" "hub_step\<^sup>*\<^sup>* h (snd (handlePing e i (w, h)))"
    "hub_step\<^sup>*\<^sup>* h (snd (handlePresence ps e i msg (w, h)))" "hub_step\<^sup>*\<^sup>* h (snd (handleReaction e i msg (w, h)))"
    "hub_step\<^sup>*\<^sup>* h (snd (handleEdit ps e i msg (w, h)))" "hub_step\<^sup>*\<^sup>* h (snd (handleDelete ps e i msg (w, h)))"
    "hub_step\<^sup>*\<^sup>* h (snd (handleReadReceipt e i msg (w, h)))"
  using live_steps [OF assms] unsubscribe_steps [OF assms]
  by (auto simp: handleUnsubscribe_def handleChatMessage_def handleTyping_def handlePing_def handlePresence_def
      handleReaction_def handleEdit_def handleDelete_def handleReadReceipt_def Let_def split: option.splits sum.splits prod.splits)

lemma handleMessage_steps: "live i h \<Longrightarrow> hub_step\<^sup>*\<^sup>* h (snd (handleMessage ps e i data (w, h)))"
  by (auto simp: handleMessage_def handler_steps subscribe_steps live_steps(2) split: option.splits client_msg_type.splits)

lemma bump_hub [simp]: "n_hub (bump ip k n) = n_hub n" "n_world (bump ip k n) = n_world n"
  by (simp_all add: bump_def split: option.splits)

lemma bump_back [simp]: "bump ip (- 1) (bump ip 1 n) = n" "bump ip (- 1) ((bump ip 1 n)\<lparr>n_world := w\<rparr>) = n\<lparr>n_world := w\<rparr>"
  by (auto simp: bump_def split: option.splits)

lemma handshake_outcome:
  assumes "handleWebSocket s e r n = (resp, n')" and ip: "ip = (if 0 < MaxPerIP s then Some (getClientIP (RemoteAddr r)) else None)"
  shows "(n_hub n' = n_hub n \<and> ipConnections n' = ipConnections n) \<or>
    (\<exists>u w. (0 < MaxPerIP s \<longrightarrow> \<not> over_limit s (getClientIP (RemoteAddr r)) n) \<and>
      n' = (bump ip 1 n)\<lparr>n_world := w, n_hub := add_client (conn_id r) u ip (n_hub n)\<rparr>)"
proof (cases "(case ip of None \<Rightarrow> False | Some a \<Rightarrow> over_limit s a n) \<or> request_token r = []")
  case True
  then show ?thesis using assms by (auto simp: handleWebSocket_def Let_def split: if_splits)
next
  case False
  show ?thesis
  proof (cases "ValidateToken (sd_auth s) e (request_token r) (n_world n)")
    case (Inl x)
    then show ?thesis using assms False by (auto simp: handleWebSocket_def Let_def split: if_splits)
  next
    case (Inr u)
    then show ?thesis
      using assms False by (cases "rate_check s e (u_id u) (n_world n)") (auto simp: handleWebSocket_def Let_def split: if_splits)
  qed
qed

lemma handshake_hub:
  assumes "handleWebSocket s e r n = (resp, n')"
  shows "n_hub n' = n_hub n \<or> (\<exists>u ip. n_hub n' = add_client (conn_id r) u ip (n_hub n))"
  using handshake_outcome [OF assms refl] by (elim disjE exE conjE) (simp, simp, blast)

lemma server_runs_hub:
  assumes "server_step s n n'"
  shows "hub_step\<^sup>*\<^sup>* (n_hub n) (n_hub n')"
  using assms
proof (induction rule: server_step.induct)
  case (handshake n r e resp n')
  then show ?case
    using handshake_hub [OF handshake(4)] hub_step.connect [of "n_hub n" "conn_id r"] by (auto simp: add_client_def intro: r_into_rtranclp)
next
  case (client_frame n i e data w' h')
  then show ?case using handleMessage_steps [of i "n_hub n" "sd_ps s" e data "n_world n"] by (simp add: live_def)
next
  case (connection_over n i)
  then show ?case by (auto simp: connection_ends_def intro: hub_step.reader_ends r_into_rtranclp)
next
  case (room_delivery n e channel payload)
  then show ?case
    by (auto simp: fanout_room_def split: prod.splits option.splits intro: hub_step.enqueues r_into_rtranclp)
next
  case (presence_delivery n i e payload d)
  then show ?case by (auto intro: hub_step.replies r_into_rtranclp)
qed (simp add: r_into_rtranclp)

section \<open>Connections of an address\<close>

text \<open>What the counters depend on: which connections exist, which still read, and from which address they are.\<close>

definition slots :: "hub \<Rightarrow> string set \<times> (string \<Rightarrow> bool \<times> string option)" where
  "slots h = (h_made h, \<lambda>i. (c_reading (h_client h i), c_ip (h_client h i)))"

definition connections_of :: "string \<Rightarrow> hub \<Rightarrow> string set" where
  "connections_of a h = {i \<in> h_made h. c_reading (h_client h i) \<and> c_ip (h_client h i) = Some a}"

lemma slots_connections: "slots h = slots h' \<Longrightarrow> connections_of a h = connections_of a h'"
  by (auto simp: slots_def connections_of_def fun_eq_iff)

lemma slots_moves [simp]:
  "slots (reply i d h) = slots h" "slots (enqueue r d h) = slots h"
  "slots (Hub_SubscribeToRoom i r h) = slots h" "slots (Hub_UnsubscribeFromRoom i r h) = slots h"
  by (auto simp: slots_def reply_def push_def enqueue_def Hub_SubscribeToRoom_def Hub_UnsubscribeFromRoom_def fun_eq_iff)

lemma slots_loops [simp]:
  "slots (snd (subscribe_loop e i rs (w, h) n)) = slots h" "slots (fold (Hub_UnsubscribeFromRoom i) rs h) = slots h"
  by (induction rs arbitrary: h n) auto

lemma slots_handlers [simp]:
  "slots (snd (handleSubscribe e i msg (w, h))) = slots h"
  "slots (snd (handleUnsubscribe i msg (w, h))) = slots h" "slots (snd (handleChatMessage ps e i msg (w, h))) = slots h"
  "slots (snd (handleTyping e i msg (w, h))) = slots h" "slots (snd (handlePing e i (w, h))) = slots h"
  "slots (snd (handlePresence ps e i msg (w, h))) = slots h" "slots (snd (handleReaction e i msg (w, h))) = slots h"
  "slots (snd (handleEdit ps e i msg (w, h))) = slots h" "slots (snd (handleDelete ps e i msg (w, h))) = slots h"
  "slots (snd (handleReadReceipt e i msg (w, h))) = slots h"
  by (auto simp: handleSubscribe_def handleUnsubscribe_def handleChatMessage_def handleTyping_def handlePing_def handlePresence_def
      handleReaction_def handleEdit_def handleDelete_def handleReadReceipt_def sendAck_def sendError_def Let_def split_beta
      split: option.splits sum.splits prod.splits)

lemma slots_handleMessage [simp]: "slots (snd (handleMessage ps e i data (w, h))) = slots h"
  by (auto simp: handleMessage_def sendError_def split: option.splits client_msg_type.splits)

lemma cleanup_ip [simp]: "c_ip (h_client (cleanupClient i h) j) = c_ip (h_client h j)"
  by (simp add: cleanupClient_def Let_def split_beta drop_client_frame close_client_def dec_gauges_def)

lemma hub_step_ip: "hub_step h h' \<Longrightarrow> h_made h' = h_made h \<Longrightarrow> c_ip (h_client h' i) = c_ip (h_client h i)"
  by (induction rule: hub_step.induct)
    (auto simp: register_client_def deliver_send_def remove_slow_frame push_def close_and_cancel_def reply_def enqueue_def
      Hub_SubscribeToRoom_def Hub_UnsubscribeFromRoom_def drainAndClose_def CloseAll_def reader_leaves_def Let_def)

lemma connections_add:
  assumes "i \<notin> h_made h" "finite (h_made h)"
  shows "card (connections_of a (add_client i u ip h)) = card (connections_of a h) + (if ip = Some a then 1 else 0)"
proof -
  have "connections_of a (add_client i u ip h) = (if ip = Some a then insert i (connections_of a h) else connections_of a h)"
    using assms(1) by (auto simp: connections_of_def add_client_def NewClient_def)
  moreover have "i \<notin> connections_of a h" "finite (connections_of a h)"
    using assms by (auto simp: connections_of_def)
  ultimately show ?thesis by simp
qed

lemma reader_leaves_slots:
  "h_made (reader_leaves i h) = h_made h" "c_ip (h_client (reader_leaves i h) j) = c_ip (h_client h j)"
  "c_reading (h_client (reader_leaves i h) j) \<longleftrightarrow> j \<noteq> i \<and> c_reading (h_client h j)"
  by (auto simp: reader_leaves_def Let_def cleanupClient_def split_beta drop_client_frame close_client_def dec_gauges_def)

lemma connections_leave:
  assumes "i \<in> h_made h" "c_reading (h_client h i)" "finite (h_made h)"
  shows "card (connections_of a h) = card (connections_of a (reader_leaves i h)) + (if c_ip (h_client h i) = Some a then 1 else 0)"
proof -
  have "connections_of a h = (if c_ip (h_client h i) = Some a then insert i (connections_of a (reader_leaves i h))
      else connections_of a (reader_leaves i h))"
    using assms by (auto simp: connections_of_def reader_leaves_slots)
  moreover have "i \<notin> connections_of a (reader_leaves i h)" "finite (connections_of a (reader_leaves i h))"
    using assms by (auto simp: connections_of_def reader_leaves_slots)
  ultimately show ?thesis by simp
qed

section \<open>A run\<close>

definition sample_server :: "ref_redis server_deps" where
  "sample_server = \<lparr>sd_cfg = defaultConfig (\<lambda>_. []), sd_auth = sample_auth, sd_ps = None\<rparr>"

definition sample_request :: ws_request where
  "sample_request = \<lparr>RemoteAddr = ''10.0.0.1:5000'', q_token = sample_token ''access'' (15 * minute), Authorization = [],
     Origin = ''http://localhost:3000'', upgradable = True, conn_id = ''b''\<rparr>"

definition sample_env :: env where
  "sample_env = quiet_env (10 ^ 18 + second)"

definition sample_node :: "ref_redis node" where
  "sample_node = snd (handleWebSocket sample_server sample_env sample_request (start_node sample_world))"

lemma sample_server_simps [simp]:
  "sd_auth sample_server = sample_auth" "sd_ps sample_server = None" "MaxPerIP sample_server = 10"
  "CheckOrigin (getAllowedOrigins (sd_cfg sample_server)) ''http://localhost:3000''"
  by (simp_all add: sample_server_def MaxPerIP_def defaultConfig_def getAllowedOrigins_def CheckOrigin_def)

lemma sample_ip: "getClientIP ''10.0.0.1:5000'' = ''10.0.0.1''"
  by code_simp

lemma sample_valid:
  "ValidateToken sample_auth sample_env (sample_token ''access'' (15 * minute)) sample_world = Inr (sample_user ''bob'')"
proof -
  let ?e = sample_env and ?tok = "sample_token ''access'' (15 * minute)"
  have lib: "jwt_library (jwt sample_auth)" by (simp add: ref_tokens.jwt_library_axioms)
  have i: "issued sample_auth ''access'' (access_ttl sample_auth) ''j1'' (10 ^ 18) (sample_user ''bob'') ?tok"
    by (rule sample_issued)
  have p: "parsed sample_auth ?e ?tok = Inr (token_claims sample_auth ''access'' (15 * minute) ''j1'' (10 ^ 18) (sample_user ''bob''))"
    using jwt_library.issued_parses [OF lib refl i, of ?e] by (simp add: sample_env_def Unix_def time_units)
  have "UserRepo_GetByID ?e ''bob'' sample_db = Inr (sample_user ''bob'')"
    by (simp add: sample_env_def UserRepo_GetByID_def sql_row_def sample_db_def sample_user_def)
  moreover have "validateAudience sample_auth (token_claims sample_auth ''access'' (15 * minute) ''j1'' (10 ^ 18) (sample_user ''bob''))"
    by (simp add: validateAudience_def token_claims_def sample_auth_def defaultConfig_def)
  ultimately show ?thesis
    by (simp add: ValidateToken_def validateToken_def p subject_def jti_blacklisted_def sample_user_def)
qed

lemma sample_handshake:
  "handleWebSocket sample_server sample_env sample_request (start_node sample_world) =
    (Upgraded, \<lparr>n_world = sample_world, n_hub = add_client ''b'' ''bob'' (Some ''10.0.0.1'') NewHub,
       ipConnections = (\<lambda>_. 0)(''10.0.0.1'' := 1)\<rparr>)"
proof -
  have "request_token sample_request = sample_token ''access'' (15 * minute)" "request_token sample_request \<noteq> []"
    by (simp_all add: request_token_def sample_request_def sample_token_def)
  moreover have "\<not> over_limit sample_server ''10.0.0.1'' (start_node sample_world)"
    by (simp add: over_limit_def start_node_def)
  ultimately show ?thesis
    by (simp add: handleWebSocket_def Let_def sample_request_def sample_ip sample_valid rate_check_def bump_def start_node_def
        sample_user_def)
qed

lemma sample_node_simps:
  "n_hub sample_node = add_client ''b'' ''bob'' (Some ''10.0.0.1'') NewHub"
  "ipConnections sample_node = (\<lambda>_. 0)(''10.0.0.1'' := 1)"
  unfolding sample_node_def sample_handshake by simp_all

lemma sample_step: "server_step sample_server (start_node sample_world) sample_node"
proof (rule server_step.handshake)
  show "handleWebSocket sample_server sample_env sample_request (start_node sample_world) = (Upgraded, sample_node)"
    by (simp only: sample_node_def sample_handshake snd_conv)
qed (simp_all add: start_node_def NewHub_def queueCap_def)

lemma sample_reachable: "server_reachable sample_server sample_world sample_node"
  unfolding server_reachable_def using sample_step by (rule r_into_rtranclp)

end
