(* ===== verification/Message_Properties.thy ===== *)
theory Message_Properties
  imports Message_Service
begin

text \<open>
  What the message service promises: who can send, edit and delete what; that a retried send is answered
  with the first message; that reactions are a set of pairs of emoji and user.
\<close>

section \<open>Frames\<close>

lemma markDedup_frame [simp]:
  "w_db (markDedup ps e u c i w) = w_db w" "published (w_bus (markDedup ps e u c i w)) = published (w_bus w)"
  by (auto simp: markDedup_def Let_def on_bus_def SetDedup_def set_key_def split_beta split: option.splits)

lemma checkDedup_frame:
  "checkDedup ps e u c w = (r, w') \<Longrightarrow> w_db w' = w_db w \<and> w_bus w' = w_bus w"
  by (auto simp: checkDedup_def Let_def split: option.splits prod.splits sum.splits if_splits)

section \<open>Sending\<close>

text \<open>The row of a sent message: the message with its instants as the database keeps them.\<close>

definition message_row :: "message \<Rightarrow> message" where
  "message_row m = m\<lparr>m_edited_at := map_option pg_time (m_edited_at m), m_deleted_at := map_option pg_time (m_deleted_at m),
     m_created_at := pg_time (m_created_at m), m_client_timestamp := map_option pg_time (m_client_timestamp m)\<rparr>"

lemma insert_message_Inr: "insert_message m d = Inr d' \<Longrightarrow> t_messages d' = t_messages d @ [message_row m]"
  by (auto simp: insert_message_def Let_def message_row_def split: if_splits)

lemma send_new_ok:
  assumes "send_new ps e inp w = (Inr m, w')"
  shows "open_room (w_db w) (in_room inp) \<and> active_member (w_db w) (in_room inp) (in_user inp) \<and>
    m = (new_message inp (clean_content (in_content inp)))\<lparr>m_id := new_id e, m_created_at := now e ''create_message''\<rparr> \<and>
    clean_content (in_content inp) \<noteq> [] \<and> length (clean_content (in_content inp)) \<le> 4000 \<and>
    t_messages (w_db w') = t_messages (w_db w) @ [message_row m] \<and>
    (published (w_bus w') = published (w_bus w) \<or>
     published (w_bus w') = published (w_bus w) @ [(''ws:room:'' @ in_room inp, new_message_event m)])"
proof -
  let ?m = "(new_message inp (clean_content (in_content inp)))\<lparr>m_id := new_id e, m_created_at := now e ''create_message''\<rparr>"
  let ?c = "db_exec e ''create_message'' (insert_message ?m) (w_db w)"
  let ?w1 = "w\<lparr>w_db := snd ?c\<rparr>"
  let ?w2 = "if in_client inp \<noteq> [] then markDedup ps e (in_user inp) (in_client inp) (m_id ?m) ?w1 else ?w1"
  have guards: "clean_content (in_content inp) \<noteq> []" "length (clean_content (in_content inp)) \<le> 4000"
      "is_ok (RoomRepo_GetByID e (in_room inp) (w_db w))"
      "RoomRepo_IsMember e (in_room inp) (in_user inp) (w_db w) = Inr True" "fst ?c = Inr ()"
      "m = ?m" "w' = publish_room ps e (m_room_id ?m) (new_message_event ?m) ?w2"
    using assms
    by (auto simp: send_new_def Let_def on_db_def MessageRepo_Create_def split_beta ValidateMessageContent_def
        split: if_splits sum.splits bool.splits)
  have room: "m_room_id ?m = in_room inp" by (simp add: new_message_def)
  have row: "t_messages (snd ?c) = t_messages (w_db w) @ [message_row ?m]"
    using guards(5) db_exec_ok [of e "''create_message''" "insert_message ?m" "w_db w" "()" "snd ?c"]
    by (auto intro: insert_message_Inr simp: prod_eq_iff)
  have "w_db w' = snd ?c" "published (w_bus ?w2) = published (w_bus w)"
    using guards(7) by simp_all
  then show ?thesis
    using guards row publish_room_log [of ps e "in_room inp" "new_message_event ?m" ?w2]
    by (auto simp: is_ok_iff room intro: GetByID_open IsMember_True)
qed

text \<open>
  C3. A message that the service accepts is either the answer to a duplicate, and then nothing is stored
  or published; or its sender is an active member of a room that exists and is not archived, its content
  is the sanitized and trimmed input, not empty and at most 4000 bytes, exactly one row is added to the
  history, and at most one event is published, on the channel of that room.
\<close>

theorem SendMessage_accepts:
  assumes "SendMessage ps e inp w = (Inr m, w')"
  shows "(in_client inp \<noteq> [] \<and> fst (checkDedup ps e (in_user inp) (in_client inp) w) = Some m \<and>
      w_db w' = w_db w \<and> published (w_bus w') = published (w_bus w)) \<or>
    (open_room (w_db w) (in_room inp) \<and> active_member (w_db w) (in_room inp) (in_user inp) \<and>
      m_room_id m = in_room inp \<and> m_user_id m = in_user inp \<and> m_content m = clean_content (in_content inp) \<and>
      m_content m \<noteq> [] \<and> length (m_content m) \<le> 4000 \<and>
      t_messages (w_db w') = t_messages (w_db w) @ [message_row m] \<and>
      (published (w_bus w') = published (w_bus w) \<or>
       published (w_bus w') = published (w_bus w) @ [(''ws:room:'' @ in_room inp, new_message_event m)]))"
proof (cases "in_client inp \<noteq> [] \<and> fst (checkDedup ps e (in_user inp) (in_client inp) w) \<noteq> None")
  case True
  then obtain x w1 where "checkDedup ps e (in_user inp) (in_client inp) w = (Some x, w1)"
    by (metis option.exhaust prod.collapse)
  then show ?thesis using assms True checkDedup_frame by (fastforce simp: SendMessage_def)
next
  case False
  then obtain w1 where new: "send_new ps e inp w1 = (Inr m, w')" "w_db w1 = w_db w" "w_bus w1 = w_bus w"
    using assms
    by (cases "checkDedup ps e (in_user inp) (in_client inp) w")
      (auto simp: SendMessage_def dest!: checkDedup_frame split: if_splits)
  show ?thesis using send_new_ok [OF new(1)] new(2,3) by (auto simp: new_message_def)
qed

lemma send_new_error:
  assumes "send_new ps e inp w = (Inl x, w')" "db_fault e ''create_message'' = None"
  shows "w_db w' = w_db w \<and> w_bus w' = w_bus w"
  using assms
  by (auto simp: send_new_def Let_def on_db_def MessageRepo_Create_def split_beta db_exec_def
      split: if_splits sum.splits bool.splits)

text \<open>
  A send that is refused changes neither the database nor the bus, unless the failure is that of the
  insert itself, whose reply may have been lost.
\<close>

theorem SendMessage_rejects:
  assumes "SendMessage ps e inp w = (Inl x, w')" "db_fault e ''create_message'' = None"
  shows "w_db w' = w_db w \<and> w_bus w' = w_bus w"
proof (cases "in_client inp = []")
  case True
  then show ?thesis using assms send_new_error by (simp add: SendMessage_def)
next
  case False
  obtain r w1 where c: "checkDedup ps e (in_user inp) (in_client inp) w = (r, w1)" by fastforce
  then have "send_new ps e inp w1 = (Inl x, w')"
    using assms(1) False by (auto simp: SendMessage_def split: option.splits)
  then show ?thesis using send_new_error assms(2) checkDedup_frame [OF c] by metis
qed

section \<open>Sending twice\<close>

text \<open>
  What the service needs of its dedup store: after \<open>markDedup\<close>, a check that comes soon enough finds the
  message that was marked. \<open>soon e e'\<close> says when the request of \<open>e'\<close> comes soon enough after that of \<open>e\<close>.
\<close>

locale message_dedup =
  fixes ps :: "'r redis_api option" and soon :: "env \<Rightarrow> env \<Rightarrow> string \<Rightarrow> bool"
  assumes check_mark: "no_faults e \<Longrightarrow> no_faults e' \<Longrightarrow> soon e e' (dedup_key u c) \<Longrightarrow> i \<noteq> [] \<Longrightarrow>
    MessageRepo_GetByID e' i (w_db w) = Inr m \<Longrightarrow>
    fst (checkDedup ps e' u c (markDedup ps e u c i w)) = Some m"
    and check_publish: "fst (checkDedup ps e' u c (publish_room ps e r j w)) = fst (checkDedup ps e' u c w)"
begin

lemma send_new_then_check:
  assumes "send_new ps e inp w = (Inr m, w')" "in_client inp \<noteq> []" "no_faults e" "no_faults e'"
    and "soon e e' (dedup_key (in_user inp) (in_client inp))" "new_id e \<noteq> []"
    and "\<forall>x \<in> set (t_messages (w_db w)). m_id x \<noteq> new_id e"
  shows "fst (checkDedup ps e' (in_user inp) (in_client inp) w') = Some (message_row m)"
proof -
  let ?m = "(new_message inp (clean_content (in_content inp)))\<lparr>m_id := new_id e, m_created_at := now e ''create_message''\<rparr>"
  let ?c = "db_exec e ''create_message'' (insert_message ?m) (w_db w)"
  let ?w1 = "w\<lparr>w_db := snd ?c\<rparr>"
  have m: "m = ?m" and rows: "t_messages (w_db w') = t_messages (w_db w) @ [message_row m]"
    using send_new_ok [OF assms(1)] by auto
  have w': "w' = publish_room ps e (m_room_id m) (new_message_event m) (markDedup ps e (in_user inp) (in_client inp) (m_id m) ?w1)"
    using assms(1,2)
    by (auto simp: send_new_def Let_def on_db_def MessageRepo_Create_def split_beta
        split: if_splits sum.splits bool.splits)
  have "sql_row (\<lambda>x. m_id x = m_id m) (t_messages (w_db w')) = Some (message_row m)"
    using assms(7) sql_row_append_miss [of "t_messages (w_db w)" "\<lambda>x. m_id x = m_id m" "[message_row m]"]
    by (simp add: rows m sql_row_def message_row_def)
  then have "MessageRepo_GetByID e' (m_id m) (w_db ?w1) = Inr (message_row m)"
    using assms(4) w' by (simp add: MessageRepo_GetByID_def)
  then show ?thesis
    using check_mark [OF assms(3,4,5)] assms(6) by (simp add: w' check_publish m)
qed

lemma send_twice:
  assumes "SendMessage ps e inp w = (Inr m, w')" "in_client inp \<noteq> []" "no_faults e" "no_faults e'"
    and "fst (checkDedup ps e (in_user inp) (in_client inp) w) = None"
    and "soon e e' (dedup_key (in_user inp) (in_client inp))" "new_id e \<noteq> []"
    and "\<forall>x \<in> set (t_messages (w_db w)). m_id x \<noteq> new_id e"
    and "in_user inp' = in_user inp" "in_client inp' = in_client inp"
  shows "\<exists>w''. SendMessage ps e' inp' w' = (Inr (message_row m), w'') \<and> w_db w'' = w_db w' \<and> w_bus w'' = w_bus w'"
proof -
  obtain w1 where c: "checkDedup ps e (in_user inp) (in_client inp) w = (None, w1)"
    using assms(5) by (metis prod.collapse)
  then have new: "send_new ps e inp w1 = (Inr m, w')" using assms(1,2) by (simp add: SendMessage_def)
  have "\<forall>x \<in> set (t_messages (w_db w1)). m_id x \<noteq> new_id e" using checkDedup_frame [OF c] assms(8) by simp
  from send_new_then_check [OF new assms(2-4,6,7) this]
  obtain w'' where "checkDedup ps e' (in_user inp) (in_client inp) w' = (Some (message_row m), w'')"
    by (metis prod.collapse)
  then show ?thesis using assms(2,9,10) checkDedup_frame by (fastforce simp: SendMessage_def)
qed

end

text \<open>The in-memory map keeps an entry for five minutes of the service's clock.\<close>

definition soon_in_memory :: "env \<Rightarrow> env \<Rightarrow> string \<Rightarrow> bool" where
  "soon_in_memory e e' k \<longleftrightarrow> now e' ''check_dedup'' - now e ''mark_dedup'' < dedupTTL"

text \<open>Redis keeps it for five minutes of its own clock.\<close>

definition soon_in_redis :: "env \<Rightarrow> env \<Rightarrow> string \<Rightarrow> bool" where
  "soon_in_redis e e' k \<longleftrightarrow> redis_now e' (''GET '' @ ''dedup:'' @ k) < redis_now e (''SET '' @ ''dedup:'' @ k) + dedupTTL"

interpretation mem: message_dedup None soon_in_memory
  by unfold_locales
    (auto simp: checkDedup_def markDedup_def Let_def soon_in_memory_def publish_room_def MessageRepo_GetByID_def
      row_result_def split: option.splits)

context redis_server
begin

lemma GetDedup_SetDedup:
  assumes "no_faults e" "no_faults e'" "soon_in_redis e e' k"
  shows "GetDedup api e' k (snd (SetDedup api e k i dedupTTL b)) = Inr i"
  using assms
  by (simp add: GetDedup_def SetDedup_def set_key_def get_key_def soon_in_redis_def look_put dedupTTL_def time_units
      payload_text_def)

end

lemma GetDedup_store: "store b = store b' \<Longrightarrow> GetDedup api e k b = GetDedup api e k b'"
  by (simp add: GetDedup_def get_key_def redis_read_def cong: option.case_cong)

sublocale redis_server \<subseteq> msg: message_dedup "Some api" soon_in_redis
proof
  fix e e' u c i m and w :: "'r world"
  assume "no_faults e" "no_faults e'" "soon_in_redis e e' (dedup_key u c)" "i \<noteq> []"
    "MessageRepo_GetByID e' i (w_db w) = Inr m"
  then show "fst (checkDedup (Some api) e' u c (markDedup (Some api) e u c i w)) = Some m"
    by (simp add: checkDedup_def markDedup_def Let_def on_bus_def split_beta GetDedup_SetDedup)
next
  fix e e' u c r j and w :: "'r world"
  show "fst (checkDedup (Some api) e' u c (publish_room (Some api) e r j w)) = fst (checkDedup (Some api) e' u c w)"
    using GetDedup_store [OF publish_room_frame(3), of api e' "dedup_key u c" "Some api" e r j w] by (simp add: checkDedup_def Let_def cong: sum.case_cong if_cong)
qed

context redis_server
begin

lemmas redis_send_twice = msg.send_twice

end

text \<open>
  C25. A send that is repeated with the same client id by the same user, whatever its content, while Redis
  still has the entry, is answered with the message that the first send stored, and nothing is stored or
  published again. The hypotheses: a server with the documented behaviour, no failures, a first send that
  was not itself a duplicate, and a fresh message id.
\<close>

theorem SendMessage_idempotent:
  assumes "redis_server api zmap"
    and "SendMessage (Some api) e inp w = (Inr m, w')" "in_client inp \<noteq> []" "no_faults e" "no_faults e'"
    and "fst (checkDedup (Some api) e (in_user inp) (in_client inp) w) = None"
    and "soon_in_redis e e' (dedup_key (in_user inp) (in_client inp))" "new_id e \<noteq> []"
    and "\<forall>x \<in> set (t_messages (w_db w)). m_id x \<noteq> new_id e"
    and "in_user inp' = in_user inp" "in_client inp' = in_client inp"
  shows "\<exists>w''. SendMessage (Some api) e' inp' w' = (Inr (message_row m), w'') \<and> w_db w'' = w_db w' \<and> w_bus w'' = w_bus w'"
  using assms(2-) by (rule redis_server.redis_send_twice [OF assms(1)])

text \<open>
  The same without pub/sub, where the service remembers the ids itself for five minutes of its clock.
\<close>

theorem SendMessage_idempotent_in_memory:
  assumes "SendMessage None e inp w = (Inr m, w')" "in_client inp \<noteq> []" "no_faults e" "no_faults e'"
    and "fst (checkDedup None e (in_user inp) (in_client inp) w) = None"
    and "now e' ''check_dedup'' - now e ''mark_dedup'' < dedupTTL" "new_id e \<noteq> []"
    and "\<forall>x \<in> set (t_messages (w_db w)). m_id x \<noteq> new_id e"
    and "in_user inp' = in_user inp" "in_client inp' = in_client inp"
  shows "\<exists>w''. SendMessage None e' inp' w' = (Inr (message_row m), w'') \<and> w_db w'' = w_db w' \<and> w_bus w'' = w_bus w'"
  using assms by (intro mem.send_twice) (auto simp: soon_in_memory_def)

section \<open>Editing and deleting\<close>

lemma update_message_rows:
  "update_message m d = Inr d' \<Longrightarrow> t_messages d' = map (\<lambda>x. if m_id x = m_id m
     then x\<lparr>m_content := m_content m, m_edited_at := map_option pg_time (m_edited_at m), m_reactions := m_reactions m,
            m_attachments := m_attachments m, m_metadata := m_metadata m\<rparr> else x) (t_messages d)"
  by (auto simp: update_message_def sql_update_def)

lemma edit_write_rows:
  assumes "edit_write ps e msg w = (Inr (), w')"
  shows "t_messages (w_db w') = map (\<lambda>x. if m_id x = m_id msg
    then x\<lparr>m_content := m_content msg, m_edited_at := Some (pg_time (now e ''update_message'')), m_reactions := m_reactions msg,
           m_attachments := m_attachments msg, m_metadata := m_metadata msg\<rparr> else x) (t_messages (w_db w))"
proof -
  have "update_message (msg\<lparr>m_edited_at := Some (now e ''update_message'')\<rparr>) (w_db w) = Inr (w_db w')"
    using assms db_exec_ok
    by (fastforce simp: edit_write_def on_db_def MessageRepo_Update_def Let_def split_beta prod_eq_iff
        split: sum.splits)
  from update_message_rows [OF this] show ?thesis by simp
qed

lemma edit_check_ok:
  "edit_check e i u text w = Inr msg \<Longrightarrow>
   \<exists>old \<in> set (t_messages (w_db w)). m_id old = i \<and> m_user_id old = u \<and> m_deleted_at old = None \<and>
     active_member (w_db w) (m_room_id old) u \<and> msg = old\<lparr>m_content := clean_content text\<rparr> \<and>
     clean_content text \<noteq> [] \<and> length (clean_content text) \<le> 4000"
  by (auto simp: edit_check_def Let_def ValidateMessageContent_def intro!: bexI IsMember_True
      dest!: GetByID_row split: if_splits sum.splits bool.splits)

text \<open>
  C9. A successful edit was made by the author of the message, who is an active member of its room; the
  message was not deleted; the new content is sanitized, not empty and at most 4000 bytes; every other
  message is as it was, and of the edited one only content, edit time, reactions, attachments and metadata
  are written.
\<close>

theorem EditMessage_authorized:
  assumes "EditMessage ps e i u text w = (Inr (), w')"
  shows "(\<exists>old \<in> set (t_messages (w_db w)). m_id old = i \<and> m_user_id old = u \<and> m_deleted_at old = None \<and>
      active_member (w_db w) (m_room_id old) u) \<and>
    clean_content text \<noteq> [] \<and> length (clean_content text) \<le> 4000 \<and>
    (\<exists>rs as md. t_messages (w_db w') = map (\<lambda>x. if m_id x = i
       then x\<lparr>m_content := clean_content text, m_edited_at := Some (pg_time (now e ''update_message'')),
              m_reactions := rs, m_attachments := as, m_metadata := md\<rparr> else x) (t_messages (w_db w)))"
proof -
  obtain msg where c: "edit_check e i u text w = Inr msg" and wr: "edit_write ps e msg w = (Inr (), w')"
    using assms by (auto simp: EditMessage_def split: sum.splits)
  obtain old where old: "old \<in> set (t_messages (w_db w))" "m_id old = i" "m_user_id old = u" "m_deleted_at old = None"
      "active_member (w_db w) (m_room_id old) u" "msg = old\<lparr>m_content := clean_content text\<rparr>"
      "clean_content text \<noteq> []" "length (clean_content text) \<le> 4000"
    using edit_check_ok [OF c] by blast
  have "t_messages (w_db w') = map (\<lambda>x. if m_id x = i
       then x\<lparr>m_content := clean_content text, m_edited_at := Some (pg_time (now e ''update_message'')),
              m_reactions := m_reactions old, m_attachments := m_attachments old, m_metadata := m_metadata old\<rparr> else x)
       (t_messages (w_db w))"
    using edit_write_rows [OF wr] by (simp add: old(6) old(2))
  then show ?thesis using old(1-5,7,8) by blast
qed

lemma delete_check_ok:
  assumes "delete_check e i u w = Inr msg"
  shows "msg \<in> set (t_messages (w_db w)) \<and> m_id msg = i \<and> m_deleted_at msg = None \<and>
    active_member (w_db w) (m_room_id msg) u \<and>
    (m_user_id msg = u \<or> (\<exists>x \<in> set (t_members (w_db w)). is_key (m_room_id msg) u x \<and> rm_left_at x = None \<and>
       rm_role x \<in> {RoleOwner, RoleAdmin, RoleModerator}))"
proof -
  have moderator: "\<exists>x \<in> set (t_members (w_db w)). is_key r u x \<and> rm_left_at x = None \<and> rm_role x \<in> {RoleOwner, RoleAdmin, RoleModerator}"
    if "GetMember e r u (w_db w) = Inr m" "may_moderate (rm_role m)" for r m
    using that by (auto simp: GetMember_def may_moderate_def dest!: db_query_ok sql_row_SomeD)
  show ?thesis
    using assms moderator
    by (auto simp: delete_check_def intro: IsMember_True dest!: GetByID_row split: sum.splits if_splits bool.splits)
qed

lemma deleted_not_found:
  assumes "\<forall>m \<in> set (t_messages (w_db w)). m_id m = i \<longrightarrow> m_deleted_at m \<noteq> None"
  shows "\<not> is_ok (delete_check e i v w)" "\<not> is_ok (edit_check e i v text w)" "\<not> is_ok (reaction_check e q i v w)"
  using assms
  by (auto simp: delete_check_def edit_check_def reaction_check_def Let_def dest!: GetByID_row
      split: sum.splits if_splits bool.splits)

lemma ball_updated_rows:
  "(\<And>r. p r \<Longrightarrow> Q (f r)) \<Longrightarrow> (\<And>r. \<not> p r \<Longrightarrow> Q r) \<Longrightarrow> \<forall>r \<in> set (map (\<lambda>r. if p r then f r else r) t). Q r"
  by (induction t) auto

lemma mark_deleted_rows:
  "mark_deleted i t u d = Inr d' \<Longrightarrow> t_messages d' = map (\<lambda>x. if m_id x = i \<and> m_deleted_at x = None
     then x\<lparr>m_deleted_at := Some (pg_time t), m_deleted_by := Some u\<rparr> else x) (t_messages d)"
  by (auto simp: mark_deleted_def sql_update_def split: if_splits)

text \<open>A deleted message takes no further change; a successful delete marks exactly the rows of its id.\<close>

lemma deleted_refused:
  assumes "\<forall>m \<in> set (t_messages (w_db w')). m_id m = i \<longrightarrow> m_deleted_at m \<noteq> None"
  shows "fst (DeleteMessage ps e' i v w') \<noteq> Inr () \<and> fst (EditMessage ps e' i v raw w') \<noteq> Inr () \<and>
    fst (AddReaction e' i emoji v w') \<noteq> Inr () \<and> fst (RemoveReaction e' i emoji v w') \<noteq> Inr ()"
  using deleted_not_found [OF assms]
  by (auto simp: DeleteMessage_def EditMessage_def AddReaction_def RemoveReaction_def is_ok_iff split: sum.splits)

lemma DeleteMessage_outcome:
  assumes "DeleteMessage ps e i u w = (Inr (), w')"
  shows "(\<exists>msg \<in> set (t_messages (w_db w)). m_id msg = i \<and> m_deleted_at msg = None \<and>
      active_member (w_db w) (m_room_id msg) u \<and>
      (m_user_id msg = u \<or> (\<exists>x \<in> set (t_members (w_db w)). is_key (m_room_id msg) u x \<and> rm_left_at x = None \<and>
         rm_role x \<in> {RoleOwner, RoleAdmin, RoleModerator}))) \<and>
    t_messages (w_db w') = map (\<lambda>x. if m_id x = i \<and> m_deleted_at x = None
       then x\<lparr>m_deleted_at := Some (pg_time (now e ''delete_message'')), m_deleted_by := Some u\<rparr> else x) (t_messages (w_db w))"
proof -
  obtain msg where c: "delete_check e i u w = Inr msg"
    using assms by (auto simp: DeleteMessage_def split: sum.splits)
  have "mark_deleted i (now e ''delete_message'') u (w_db w) = Inr (w_db w')"
    using assms c db_exec_ok
    by (fastforce simp: DeleteMessage_def on_db_def MessageRepo_Delete_def split_beta prod_eq_iff split: sum.splits)
  then have "t_messages (w_db w') = map (\<lambda>x. if m_id x = i \<and> m_deleted_at x = None
       then x\<lparr>m_deleted_at := Some (pg_time (now e ''delete_message'')), m_deleted_by := Some u\<rparr> else x) (t_messages (w_db w))"
    by (rule mark_deleted_rows)
  moreover have "\<exists>msg \<in> set (t_messages (w_db w)). m_id msg = i \<and> m_deleted_at msg = None \<and>
      active_member (w_db w) (m_room_id msg) u \<and>
      (m_user_id msg = u \<or> (\<exists>x \<in> set (t_members (w_db w)). is_key (m_room_id msg) u x \<and> rm_left_at x = None \<and>
         rm_role x \<in> {RoleOwner, RoleAdmin, RoleModerator}))"
    using delete_check_ok [OF c] by (intro bexI [of _ msg]) auto
  ultimately show ?thesis by blast
qed

section \<open>Reactions\<close>

text \<open>
  The specification: the reactions of a message are a set of pairs. The map of the code stands for it when
  its keys are distinct, no entry is empty and no user is listed twice.
\<close>

definition reactions_ok :: "reactions \<Rightarrow> bool" where
  "reactions_ok rs \<longleftrightarrow> distinct (map fst rs) \<and> (\<forall>(emoji, us) \<in> set rs. us \<noteq> [] \<and> distinct us)"

definition reaction_set :: "reactions \<Rightarrow> (string \<times> string) set" where
  "reaction_set rs = {(emoji, u). u \<in> set (reacted_users rs emoji)}"

lemma reacted_users_simps:
  "reacted_users (AList.update k us rs) e = (if e = k then us else reacted_users rs e)"
  "reacted_users (AList.delete k rs) e = (if e = k then [] else reacted_users rs e)"
  by (auto simp: reacted_users_def update_conv' delete_conv' split: option.splits)

lemma reactions_ok_users: "reactions_ok rs \<Longrightarrow> distinct (reacted_users rs e)"
  by (auto simp: reactions_ok_def reacted_users_def dest!: map_of_SomeD split: option.splits)

lemma set_update_subset: "set (AList.update k v al) \<subseteq> insert (k, v) (set al)"
  by (induction al) auto

lemma reactions_ok_update: "reactions_ok rs \<Longrightarrow> us \<noteq> [] \<Longrightarrow> distinct us \<Longrightarrow> reactions_ok (AList.update e us rs)"
  using set_update_subset [of e us rs] by (auto simp: reactions_ok_def distinct_update)

lemma reactions_ok_delete: "reactions_ok rs \<Longrightarrow> reactions_ok (AList.delete e rs)"
  by (auto simp: reactions_ok_def AList.delete_eq intro: distinct_map_filter)

lemma add_user_ok: "reactions_ok rs \<Longrightarrow> reactions_ok (add_user e u rs)"
  by (auto simp: add_user_def intro!: reactions_ok_update reactions_ok_users)

lemma remove_user_ok: "reactions_ok rs \<Longrightarrow> reactions_ok (remove_user e u rs)"
  by (auto simp: remove_user_def Let_def intro!: reactions_ok_update reactions_ok_delete distinct_remove1 reactions_ok_users)

lemma add_user_set: "reaction_set (add_user emoji u rs) = insert (emoji, u) (reaction_set rs)"
  by (auto simp: reaction_set_def add_user_def reacted_users_simps split: if_splits)

text \<open>
  C36. The transforms of reacting refine the operations on the set of pairs: adding inserts the pair and
  removing deletes it, whatever the map holds otherwise, and both keep the map well formed; so adding twice
  is adding once, and adding then removing a new reaction changes nothing.
\<close>

theorem reaction_refinement:
  assumes "reactions_ok rs"
  shows "reaction_set (add_user emoji u rs) = insert (emoji, u) (reaction_set rs) \<and>
    reaction_set (remove_user emoji u rs) = reaction_set rs - {(emoji, u)} \<and>
    reactions_ok (add_user emoji u rs) \<and> reactions_ok (remove_user emoji u rs)"
proof -
  have "v \<in> set (reacted_users (remove_user emoji u rs) e) \<longleftrightarrow> (e, v) \<noteq> (emoji, u) \<and> v \<in> set (reacted_users rs e)" for e v
  proof (cases "u \<in> set (reacted_users rs emoji)")
    case True
    define us where "us = remove1 u (reacted_users rs emoji)"
    have us: "set us = set (reacted_users rs emoji) - {u}"
      using reactions_ok_users [OF assms] by (simp add: us_def)
    have "remove_user emoji u rs = (if us = [] then AList.delete emoji rs else AList.update emoji us rs)"
      using True by (simp add: remove_user_def us_def Let_def)
    then show ?thesis using us by (cases "us = []") (auto simp: reacted_users_simps)
  next
    case False
    then show ?thesis by (auto simp: remove_user_def)
  qed
  then have "reaction_set (remove_user emoji u rs) = reaction_set rs - {(emoji, u)}"
    by (auto simp: reaction_set_def)
  then show ?thesis using add_user_set add_user_ok [OF assms] remove_user_ok [OF assms] by simp
qed

text \<open>The pairs a stored message stands for.\<close>

definition stored_reactions :: "message \<Rightarrow> (string \<times> string) set" where
  "stored_reactions m = reaction_set (case m_reactions m of None \<Rightarrow> [] | Some rs \<Rightarrow> rs)"

lemma reaction_check_ok:
  "reaction_check e q i u w = Inr x \<Longrightarrow>
   \<exists>m \<in> set (t_messages (w_db w)). m_id m = i \<and> m_deleted_at m = None \<and> active_member (w_db w) (m_room_id m) u"
  by (auto simp: reaction_check_def intro!: bexI IsMember_True dest!: GetByID_row split: sum.splits if_splits bool.splits)

lemma UpdateReactionsTx_rows:
  assumes "UpdateReactionsTx e i (\<lambda>c. Inr (f c)) d = (Inr (), d')"
  shows "\<exists>m \<in> set (t_messages d). m_id m = i \<and>
    t_messages d' = map (\<lambda>x. if m_id x = i
      then x\<lparr>m_reactions := Some (f (case m_reactions m of None \<Rightarrow> [] | Some rs \<Rightarrow> rs))\<rparr> else x) (t_messages d)"
proof -
  obtain m d1 where m: "sql_row (\<lambda>m. m_id m = i) (t_messages d) = Some m"
      and "set_reactions i (Some (f (case m_reactions m of None \<Rightarrow> [] | Some rs \<Rightarrow> rs))) d = Inr d1" "d' = d1"
    using assms
    by (auto simp: UpdateReactionsTx_def split: option.splits sum.splits dest!: tx_exec_ok tx_commit_ok db_query_ok)
  then show ?thesis
    using sql_row_SomeD [OF m] by (intro bexI [of _ m]) (auto simp: set_reactions_def sql_update_def)
qed

text \<open>
  A successful reaction was made by an active member of the room of the message, which was not deleted;
  it puts the pair into the stored set of the message and no other message changes.
\<close>

theorem AddReaction_stores:
  assumes "AddReaction e i emoji u w = (Inr (), w')" "distinct (map m_id (t_messages (w_db w)))"
  shows "\<exists>m \<in> set (t_messages (w_db w)). m_id m = i \<and> m_deleted_at m = None \<and>
    active_member (w_db w) (m_room_id m) u \<and>
    (\<exists>m'. stored_reactions m' = insert (emoji, u) (stored_reactions m) \<and> m' = m\<lparr>m_reactions := m_reactions m'\<rparr> \<and>
       t_messages (w_db w') = map (\<lambda>x. if m_id x = i then m' else x) (t_messages (w_db w)))"
proof -
  obtain x where "reaction_check e ''cannot react to deleted message'' i u w = Inr x"
    using assms(1) by (auto simp: AddReaction_def split: sum.splits)
  from reaction_check_ok [OF this] obtain m where m: "m \<in> set (t_messages (w_db w))" "m_id m = i" "m_deleted_at m = None"
      "active_member (w_db w) (m_room_id m) u" by blast
  have same: "y = m" if "y \<in> set (t_messages (w_db w))" "m_id y = i" for y
    using assms(2) m that by (meson distinct_map inj_onD)
  let ?old = "case m_reactions m of None \<Rightarrow> [] | Some rs \<Rightarrow> rs"
  let ?m = "m\<lparr>m_reactions := Some (add_user emoji u ?old)\<rparr>"
  have "UpdateReactionsTx e i (\<lambda>c. Inr (add_user emoji u c)) (w_db w) = (Inr (), w_db w')"
    using assms(1) by (auto simp: AddReaction_def on_db_def split_beta prod_eq_iff split: sum.splits)
  from UpdateReactionsTx_rows [OF this]
  have "t_messages (w_db w') = map (\<lambda>x. if m_id x = i then x\<lparr>m_reactions := Some (add_user emoji u ?old)\<rparr> else x) (t_messages (w_db w))"
    using same by auto
  then have "t_messages (w_db w') = map (\<lambda>x. if m_id x = i then ?m else x) (t_messages (w_db w))"
    using same by auto
  moreover have "stored_reactions ?m = insert (emoji, u) (stored_reactions m)"
    by (simp add: stored_reactions_def add_user_set)
  ultimately show ?thesis using m by (intro bexI [of _ m] conjI exI [of _ ?m]) auto
qed

text \<open>
  An edit writes back the reactions it has read: a reaction that another request adds between the read
  and the write of an edit is reported as added, and is gone afterwards.
\<close>

theorem edit_loses_reaction:
  assumes "distinct (map m_id (t_messages (w_db w)))"
    and "edit_check e i u text w = Inr msg" "(emoji, v) \<notin> stored_reactions msg"
    and "AddReaction e' i emoji v w = (Inr (), w1)" "edit_write ps e msg w1 = (Inr (), w2)"
  shows "(\<forall>x \<in> set (t_messages (w_db w1)). m_id x = i \<longrightarrow> (emoji, v) \<in> stored_reactions x) \<and>
    (\<forall>x \<in> set (t_messages (w_db w2)). m_id x = i \<longrightarrow> (emoji, v) \<notin> stored_reactions x)"
proof -
  obtain m' where m': "(emoji, v) \<in> stored_reactions m'"
      and rows1: "t_messages (w_db w1) = map (\<lambda>x. if m_id x = i then m' else x) (t_messages (w_db w))"
    using AddReaction_stores [OF assms(4,1)] by blast
  have ids: "m_id msg = i" using edit_check_ok [OF assms(2)] by auto
  note rows2 = edit_write_rows [OF assms(5), unfolded ids]
  show ?thesis
    unfolding rows2 using assms(3) m'
    by (intro conjI ball_updated_rows) (auto simp: rows1 stored_reactions_def)
qed

section \<open>Examples\<close>

definition hello :: "string \<Rightarrow> send_input" where
  "hello client = \<lparr>in_room = ''r1'', in_user = ''bob'', in_content = ''hi'', in_type = ContentTypeText,
     in_parent = None, in_client = client\<rparr>"

lemma clean_hi: "clean_content ''hi'' = ''hi''"
proof -
  have plain: "\<forall>c \<in> set ''hi''. no_space_byte c \<and> c \<notin> {CHR ''<'', CHR ''o'', CHR ''O'', CHR 0x00}"
    by (simp add: no_space_byte_def space_runes_def char_of_def)
  have "SanitizeMessage ''hi'' = ''hi''"
    by (rule SanitizeMessage_plain [OF plain]) (simp add: escape_byte.simps)
  moreover have "TrimSpace ''hi'' = ''hi''" using plain by (intro TrimSpace_id) blast
  ultimately show ?thesis by (simp add: clean_content_def)
qed

lemma clean_empty: "clean_content [] = []"
  by (simp add: clean_content_def SanitizeMessage_plain TrimSpace_id)

text \<open>The message that \<open>hello\<close> becomes at time \<open>t\<close>.\<close>

definition hello_message :: "gotime \<Rightarrow> message" where
  "hello_message t = (new_message (hello []) ''hi'')\<lparr>m_id := ''77'', m_created_at := t\<rparr>"

lemma hello_fields [simp]:
  "in_room (hello c) = ''r1''" "in_user (hello c) = ''bob''" "in_content (hello c) = ''hi''" "in_client (hello c) = c"
  by (simp_all add: hello_def)

lemma sample_guards [simp]:
  "RoomRepo_GetByID (quiet_env t) ''r1'' sample_db = Inr sample_room"
  "RoomRepo_IsMember (quiet_env t) ''r1'' ''bob'' sample_db = Inr True"
  "RoomRepo_IsMember (quiet_env t) ''r1'' ''ann'' sample_db = Inr True"
  "MessageRepo_GetByID (quiet_env t) ''41'' sample_db = Inr sample_message"
  by (simp_all add: RoomRepo_GetByID_def RoomRepo_IsMember_def MessageRepo_GetByID_def sql_eval is_key_def sample_defs
      row_result_def)

lemma hello_insert:
  "insert_message (hello_message t) sample_db = Inr (sample_db\<lparr>t_messages := [sample_message, message_row (hello_message t)]\<rparr>)"
  by (simp add: insert_message_def hello_message_def new_message_def message_key_def has_user_def deleter_known_def
      sql_exists_def sample_defs Let_def message_row_def hello_def)

lemma hello_sent:
  "send_new ps (quiet_env t) (hello c) sample_world = (Inr (hello_message t),
     publish_room ps (quiet_env t) ''r1'' (new_message_event (hello_message t))
      (let w = sample_world\<lparr>w_db := sample_db\<lparr>t_messages := [sample_message, message_row (hello_message t)]\<rparr>\<rparr>
       in if c \<noteq> [] then markDedup ps (quiet_env t) ''bob'' c ''77'' w else w))"
proof -
  have m: "(new_message (hello c) ''hi'')\<lparr>m_id := ''77'', m_created_at := t\<rparr> = hello_message t"
      "m_id (hello_message t) = ''77''" "m_room_id (hello_message t) = ''r1''"
    by (simp_all add: hello_message_def new_message_def hello_def)
  show ?thesis
    by (simp add: send_new_def clean_hi ValidateMessageContent_def on_db_def MessageRepo_Create_def
        Let_def m hello_insert)
qed

lemma SendMessage_accepts_witness:
  "\<exists>m w'. SendMessage (Some ref_api) (quiet_env 0) (hello []) sample_world = (Inr m, w') \<and> m_content m = ''hi'' \<and>
     active_member sample_db ''r1'' ''bob'' \<and> t_messages (w_db w') = [sample_message] @ [message_row m]"
proof -
  obtain w' where run: "SendMessage (Some ref_api) (quiet_env 0) (hello []) sample_world = (Inr (hello_message 0), w')"
    by (simp add: SendMessage_def hello_sent)
  have "t_messages sample_db = [sample_message]" by (simp add: sample_db_def)
  with SendMessage_accepts [OF run] run show ?thesis by (auto simp: clean_hi)
qed

lemma SendMessage_rejects_witness:
  "\<exists>x w'. SendMessage (Some ref_api) (quiet_env 0) ((hello [])\<lparr>in_content := []\<rparr>) sample_world = (Inl x, w') \<and>
     w_db w' = sample_db"
proof -
  have "SendMessage (Some ref_api) (quiet_env 0) ((hello [])\<lparr>in_content := []\<rparr>) sample_world =
      (Inl (Err ''content cannot be empty''), sample_world)"
    by (simp add: SendMessage_def send_new_def clean_empty)
  with SendMessage_rejects [OF this] show ?thesis by auto
qed

lemma sample_not_seen:
  "checkDedup (Some ref_api) (quiet_env t) u c sample_world = (None, sample_world)"
  "checkDedup None (quiet_env t) u c sample_world = (None, sample_world)"
  by (simp_all add: checkDedup_def Let_def sample_world_def GetDedup_def get_key_def ref_api_def ref_empty_def)

lemma sample_fresh: "\<forall>x \<in> set (t_messages (w_db sample_world)). m_id x \<noteq> ''77''"
  by (simp add: sample_db_def sample_message_def)

lemma SendMessage_idempotent_witness:
  "\<exists>w' w''. SendMessage (Some ref_api) (quiet_env 0) (hello ''c1'') sample_world = (Inr (hello_message 0), w') \<and>
     SendMessage (Some ref_api) (quiet_env minute) (hello ''c1'') w' = (Inr (message_row (hello_message 0)), w'') \<and>
     w_db w'' = w_db w'"
proof -
  obtain w' where run: "SendMessage (Some ref_api) (quiet_env 0) (hello ''c1'') sample_world = (Inr (hello_message 0), w')"
    by (simp add: SendMessage_def sample_not_seen hello_sent)
  have "\<exists>w''. SendMessage (Some ref_api) (quiet_env minute) (hello ''c1'') w' = (Inr (message_row (hello_message 0)), w'') \<and>
      w_db w'' = w_db w' \<and> w_bus w'' = w_bus w'"
    by (rule SendMessage_idempotent [OF ref.redis_server_axioms run])
      (simp_all add: sample_not_seen sample_fresh soon_in_redis_def dedupTTL_def time_units)
  with run show ?thesis by blast
qed

lemma SendMessage_idempotent_in_memory_witness:
  "\<exists>m w' w''. SendMessage None (quiet_env 0) (hello ''c1'') sample_world = (Inr m, w') \<and>
     SendMessage None (quiet_env minute) (hello ''c1'') w' = (Inr (message_row m), w'') \<and> w_db w'' = w_db w'"
proof -
  obtain m w' where run: "SendMessage None (quiet_env 0) (hello ''c1'') sample_world = (Inr m, w')"
    by (simp add: SendMessage_def sample_not_seen hello_sent)
  have "\<exists>w''. SendMessage None (quiet_env minute) (hello ''c1'') w' = (Inr (message_row m), w'') \<and>
      w_db w'' = w_db w' \<and> w_bus w'' = w_bus w'"
    by (rule SendMessage_idempotent_in_memory [OF run])
      (simp_all add: sample_not_seen sample_fresh dedupTTL_def time_units)
  with run show ?thesis by blast
qed

lemma sample_check:
  "edit_check (quiet_env t) ''41'' ''bob'' ''hi'' sample_world = Inr (sample_message\<lparr>m_content := ''hi''\<rparr>)"
  "delete_check (quiet_env t) ''41'' ''ann'' sample_world = Inr sample_message"
  "reaction_check (quiet_env t) q ''41'' ''bob'' sample_world = Inr ()"
proof -
  have m: "m_deleted_at sample_message = None" "m_user_id sample_message = ''bob''" "m_room_id sample_message = ''r1''"
    by (simp_all add: sample_message_def)
  have "GetMember (quiet_env t) ''r1'' ''ann'' sample_db = Inr (sample_member ''ann'' RoleOwner 0)"
    by (simp add: GetMember_def sql_row_def is_key_def sample_db_def sample_member_def)
  then show "delete_check (quiet_env t) ''41'' ''ann'' sample_world = Inr sample_message"
    by (simp add: delete_check_def m may_moderate_def sample_member_def)
  show "edit_check (quiet_env t) ''41'' ''bob'' ''hi'' sample_world = Inr (sample_message\<lparr>m_content := ''hi''\<rparr>)"
    "reaction_check (quiet_env t) q ''41'' ''bob'' sample_world = Inr ()"
    by (simp_all add: edit_check_def reaction_check_def m clean_hi ValidateMessageContent_def)
qed

lemma EditMessage_authorized_witness:
  "\<exists>w'. EditMessage (Some ref_api) (quiet_env 0) ''41'' ''bob'' ''hi'' sample_world = (Inr (), w') \<and> clean_content ''hi'' \<noteq> []"
proof -
  obtain w' where run: "EditMessage (Some ref_api) (quiet_env 0) ''41'' ''bob'' ''hi'' sample_world = (Inr (), w')"
    by (simp add: EditMessage_def sample_check edit_write_def on_db_def MessageRepo_Update_def update_message_def)
  with EditMessage_authorized [OF run] show ?thesis by blast
qed

lemma sample_distinct: "distinct (map m_id (t_messages (w_db sample_world)))"
  by (simp add: sample_db_def)

lemma sample_reacts:
  obtains w1 where "AddReaction (quiet_env 0) ''41'' ''+1'' ''bob'' sample_world = (Inr (), w1)"
proof -
  have "sql_row (\<lambda>m. m_id m = ''41'') (t_messages sample_db) = Some sample_message"
    by (simp add: sql_row_def sample_db_def sample_message_def)
  then show ?thesis
    using that by (simp add: AddReaction_def sample_check on_db_def UpdateReactionsTx_def set_reactions_def row_result_def)
qed

lemma AddReaction_stores_witness:
  "\<exists>w' m m'. AddReaction (quiet_env 0) ''41'' ''+1'' ''bob'' sample_world = (Inr (), w') \<and>
     stored_reactions m' = insert (''+1'', ''bob'') (stored_reactions m)"
proof -
  obtain w1 where "AddReaction (quiet_env 0) ''41'' ''+1'' ''bob'' sample_world = (Inr (), w1)" by (rule sample_reacts)
  with AddReaction_stores [OF this sample_distinct] show ?thesis by blast
qed

lemma reaction_refinement_witness:
  "reaction_set (remove_user ''+1'' ''bob'' [(''+1'', [''ann'', ''bob''])]) = reaction_set [(''+1'', [''ann'', ''bob''])] - {(''+1'', ''bob'')}"
  by (rule reaction_refinement [THEN conjunct2, THEN conjunct1]) (simp add: reactions_ok_def)

lemma edit_loses_reaction_witness:
  "\<exists>w1 w2. AddReaction (quiet_env 0) ''41'' ''+1'' ''bob'' sample_world = (Inr (), w1) \<and>
     edit_write None (quiet_env 0) (sample_message\<lparr>m_content := ''hi''\<rparr>) w1 = (Inr (), w2) \<and>
     (\<forall>x \<in> set (t_messages (w_db w2)). m_id x = ''41'' \<longrightarrow> (''+1'', ''bob'') \<notin> stored_reactions x)"
proof -
  obtain w1 where add: "AddReaction (quiet_env 0) ''41'' ''+1'' ''bob'' sample_world = (Inr (), w1)" by (rule sample_reacts)
  obtain w2 where wr: "edit_write None (quiet_env 0) (sample_message\<lparr>m_content := ''hi''\<rparr>) w1 = (Inr (), w2)"
    by (simp add: edit_write_def on_db_def MessageRepo_Update_def update_message_def Let_def split_beta)
  have none: "(''+1'', ''bob'') \<notin> stored_reactions (sample_message\<lparr>m_content := ''hi''\<rparr>)"
    by (simp add: stored_reactions_def sample_message_def reaction_set_def reacted_users_def)
  from edit_loses_reaction [OF sample_distinct sample_check(1) none add wr] add wr show ?thesis by blast
qed

end
