(* ===== verification/Room_Delivery.thy ===== *)
theory Room_Delivery
  imports Server_Properties Message_Properties
begin

text \<open>
  From a frame of one client to the buffers of the others: who can subscribe and send, what Redis carries, and
  what the subscribers get.
\<close>

section \<open>Subscribing\<close>

lemma subscribe_subscriptions:
  "\<not> isClosed (h_client h i) \<Longrightarrow> subscriptions (Hub_SubscribeToRoom i r h) = insert (r, i) (subscriptions h)"
  by (auto simp: Hub_SubscribeToRoom_def subscriptions_def split: if_splits)

lemma subscribe_closed: "isClosed (h_client h i) \<Longrightarrow> Hub_SubscribeToRoom i r h = h"
  by (simp add: Hub_SubscribeToRoom_def)

lemma subscribe_client [simp]:
  "c_user (h_client (Hub_SubscribeToRoom i r h) j) = c_user (h_client h j)"
  "isClosed (h_client (Hub_SubscribeToRoom i r h) j) = isClosed (h_client h j)"
  by (auto simp: Hub_SubscribeToRoom_def isClosed_def)

lemma subscribe_loop_subscriptions:
  "subscriptions (snd (subscribe_loop e i rs (w, h) n)) = subscriptions h \<union>
     {(r, i) |r. r \<in> set rs \<and> \<not> isClosed (h_client h i) \<and> RoomService_IsMember e r (c_user (h_client h i)) w = Inr True}"
proof (induction rs arbitrary: h n)
  case (Cons r rs)
  show ?case
  proof (cases "isClosed (h_client h i)")
    case True
    then show ?thesis using Cons.IH by (simp add: subscribe_closed)
  next
    case False
    then show ?thesis by (auto simp: Cons.IH subscribe_subscriptions)
  qed
qed simp

lemma reply_subscriptions [simp]: "subscriptions (reply i d h) = subscriptions h" "h_rooms (reply i d h) = h_rooms h"
  by (simp_all add: reply_def subscriptions_def)

text \<open>
  C17. A subscribe frame makes exactly these subscriptions: the rooms of the list, of which there may be 50,
  that the user is found to be an active member of, for this connection and while it is open. It changes
  nothing in the database or in Redis.
\<close>

theorem subscribes_members_only:
  assumes "handleSubscribe e i msg (w, h) = (w', h')" "unmarshal subscribe_data_of msg = Some data"
  shows "w' = w \<and> subscriptions h' = subscriptions h \<union>
      {(r, i) |r. length (RoomIDs data) \<le> 50 \<and> r \<in> set (RoomIDs data) \<and> \<not> isClosed (h_client h i) \<and>
         RoomRepo_IsMember e r (c_user (h_client h i)) (w_db w) = Inr True} \<and>
    (\<forall>r j. (r, j) \<in> subscriptions h' - subscriptions h \<longrightarrow> j = i \<and> active_member (w_db w) r (c_user (h_client h i)))"
proof -
  have "w' = w \<and> subscriptions h' = subscriptions h \<union>
      {(r, i) |r. length (RoomIDs data) \<le> 50 \<and> r \<in> set (RoomIDs data) \<and> \<not> isClosed (h_client h i) \<and>
         RoomRepo_IsMember e r (c_user (h_client h i)) (w_db w) = Inr True}"
    using assms
    by (auto simp: handleSubscribe_def Let_def split_beta maxRoomSubscriptions_def sendError_def sendAck_def
        subscribe_loop_subscriptions RoomService_IsMember_def split: if_splits)
  then show ?thesis using IsMember_True by fastforce
qed

section \<open>Channels\<close>

lemma extract_room:
  "extractRoomIDAndEvent (''ws:room:'' @ s) =
    (case IndexByte s (CHR '':'') of Some idx \<Rightarrow> (take idx s, drop (idx + 1) s) | None \<Rightarrow> (s, []))"
proof -
  have "HasPrefix (''ws:room:'' @ s) ''ws:room:''" "TrimPrefix (''ws:room:'' @ s) ''ws:room:'' = s"
    by (simp_all add: HasPrefix_def TrimPrefix_def)
  then show ?thesis by (simp only: extractRoomIDAndEvent_def Let_def simp_thms if_False)
qed

lemma room_channel: "CHR '':'' \<notin> set r \<Longrightarrow> extractRoomIDAndEvent (''ws:room:'' @ r) = (r, [])"
proof -
  assume "CHR '':'' \<notin> set r"
  then have "IndexByte r (CHR '':'') = None" by (simp add: IndexByte_None_iff)
  then show ?thesis unfolding extract_room by simp
qed

text \<open>
  The subscriber gets back the room and the kind of event that the publisher put into the name of the
  channel, for every room id without a colon.
\<close>

theorem channel_roundtrip:
  assumes "CHR '':'' \<notin> set r"
  shows "extractRoomIDAndEvent (''ws:room:'' @ r) = (r, []) \<and>
    extractRoomIDAndEvent (''ws:room:'' @ r @ '':events'') = (r, ''events'')"
proof -
  have "IndexByte (r @ '':events'') (CHR '':'') = Some (length r)"
    using assms IndexByte_append [of "CHR '':''" r "''events''"] by simp
  then have "extractRoomIDAndEvent (''ws:room:'' @ r @ '':events'') = (r, ''events'')"
    unfolding extract_room by simp
  then show ?thesis using room_channel [OF assms] by simp
qed

text \<open>
  What a subscriber is told about a deletion does not say which message was deleted: the fan-out drops the
  id of the message, so two deletions in a room have the same effect.
\<close>

theorem deletions_look_alike:
  "fanout_room e channel (Some (deleted_event r i)) h = fanout_room e channel (Some (deleted_event r j)) h"
  by (cases "extractRoomIDAndEvent channel")
    (simp add: fanout_room_def deleted_event_def member_event_frame_def message_event_frame_def json_fields)

section \<open>Backoff\<close>

lemma next_backoff_range: "initialBackoff \<le> b \<Longrightarrow> b \<le> maxBackoff \<Longrightarrow> initialBackoff \<le> next_backoff b \<and> next_backoff b \<le> maxBackoff"
  by (auto simp: next_backoff_def initialBackoff_def maxBackoff_def time_units)

lemma waits_range: "initialBackoff \<le> b \<Longrightarrow> b \<le> maxBackoff \<Longrightarrow> set (waits b as) \<subseteq> {initialBackoff..maxBackoff}"
proof (induction b as rule: waits.induct)
  case (2 b as)
  then show ?case by (simp add: initialBackoff_def maxBackoff_def time_units)
next
  case (3 b as)
  then show ?case using next_backoff_range [of b] by simp
qed simp

lemma next_backoff_power: "next_backoff (min (c * 2 ^ k) maxBackoff) = min (c * 2 ^ Suc k) maxBackoff" if "0 \<le> c"
  using that by (auto simp: next_backoff_def min_def maxBackoff_def time_units)

lemma waits_failures: "0 \<le> c \<Longrightarrow> waits (min (c * 2 ^ k) maxBackoff) (replicate n False) = map (\<lambda>j. min (c * 2 ^ (k + j)) maxBackoff) [0..<n]"
proof (induction n arbitrary: k)
  case (Suc n)
  have "waits (min (c * 2 ^ k) maxBackoff) (replicate (Suc n) False) =
      min (c * 2 ^ k) maxBackoff # waits (min (c * 2 ^ Suc k) maxBackoff) (replicate n False)"
    using next_backoff_power [OF Suc.prems, of k] by simp
  also have "\<dots> = min (c * 2 ^ k) maxBackoff # map (\<lambda>j. min (c * 2 ^ (Suc k + j)) maxBackoff) [0..<n]"
    by (simp only: Suc.IH [OF Suc.prems])
  also have "\<dots> = map (\<lambda>j. min (c * 2 ^ (k + j)) maxBackoff) [0..<Suc n]"
    by (simp add: upt_conv_Cons map_Suc_upt [symmetric] del: upt_Suc)
  finally show ?case .
qed simp

text \<open>
  A subscription loop that cannot reach Redis waits between 100 milliseconds and 10 seconds before it tries
  again; over consecutive failures the waits are the doublings of 100 milliseconds, up to 10 seconds, and a
  success starts them again.
\<close>

theorem backoff_bounds:
  "set (waits initialBackoff as) \<subseteq> {100 * millisecond..10 * second} \<and>
   waits initialBackoff (replicate n False) = map (\<lambda>k. min (100 * millisecond * 2 ^ k) (10 * second)) [0..<n] \<and>
   waits b (True # as) = waits initialBackoff as"
proof -
  have "min (initialBackoff * 2 ^ 0) maxBackoff = initialBackoff"
    by (simp add: initialBackoff_def maxBackoff_def time_units)
  then have "waits initialBackoff (replicate n False) = map (\<lambda>k. min (100 * millisecond * 2 ^ k) (10 * second)) [0..<n]"
    using waits_failures [of initialBackoff 0 n] by (simp add: initialBackoff_def maxBackoff_def time_units)
  moreover have "set (waits initialBackoff as) \<subseteq> {initialBackoff..maxBackoff}"
    by (rule waits_range) (simp_all add: initialBackoff_def maxBackoff_def time_units)
  ultimately show ?thesis by (simp add: initialBackoff_def maxBackoff_def)
qed

section \<open>From the frame to the subscribers\<close>

lemma send_new_publishes:
  assumes "send_new (Some api) e inp w = (Inr m, w')" "no_faults e"
  shows "published (w_bus w') = published (w_bus w) @ [(''ws:room:'' @ in_room inp, new_message_event m)]"
proof -
  let ?m = "(new_message inp (clean_content (in_content inp)))\<lparr>m_id := new_id e, m_created_at := now e ''create_message''\<rparr>"
  let ?w1 = "w\<lparr>w_db := snd (db_exec e ''create_message'' (insert_message ?m) (w_db w))\<rparr>"
  let ?w2 = "if in_client inp \<noteq> [] then markDedup (Some api) e (in_user inp) (in_client inp) (m_id ?m) ?w1 else ?w1"
  have "m = ?m" "w' = publish_room (Some api) e (m_room_id ?m) (new_message_event ?m) ?w2"
    using assms(1)
    by (auto simp: send_new_def Let_def on_db_def MessageRepo_Create_def split_beta split: if_splits sum.splits bool.splits)
  moreover have "m_room_id ?m = in_room inp" by (simp add: new_message_def)
  ultimately show ?thesis by (simp add: publish_room_delivers [OF assms(2)])
qed

lemma SendMessage_stores:
  assumes "SendMessage (Some api) e inp w = (r, w')" "no_faults e" "t_messages (w_db w') \<noteq> t_messages (w_db w)"
  obtains m where "r = Inr m" "m_user_id m = in_user inp" "m_room_id m = in_room inp" "m_content m = clean_content (in_content inp)"
    "t_messages (w_db w') = t_messages (w_db w) @ [message_row m]"
    "published (w_bus w') = published (w_bus w) @ [(''ws:room:'' @ in_room inp, new_message_event m)]"
proof -
  have "\<exists>w1. send_new (Some api) e inp w1 = (r, w') \<and> w_db w1 = w_db w \<and> w_bus w1 = w_bus w"
  proof (cases "in_client inp = []")
    case False
    obtain x w1 where c: "checkDedup (Some api) e (in_user inp) (in_client inp) w = (x, w1)" by fastforce
    note same = checkDedup_frame [OF c]
    show ?thesis
    proof (cases x)
      case None
      then show ?thesis using assms(1) False c same by (intro exI [of _ w1]) (simp add: SendMessage_def)
    next
      case (Some y)
      then show ?thesis using assms(1,3) False c same by (simp add: SendMessage_def)
    qed
  next
    case True
    then show ?thesis using assms(1) by (intro exI [of _ w]) (simp add: SendMessage_def)
  qed
  then obtain w1 where new: "send_new (Some api) e inp w1 = (r, w')" "w_db w1 = w_db w" "w_bus w1 = w_bus w" by blast
  obtain m where m: "r = Inr m"
  proof (cases r)
    case (Inl x)
    have "db_fault e ''create_message'' = None" using assms(2) by (simp add: no_faults_def)
    then have "w_db w' = w_db w1" using send_new_error new(1) Inl by blast
    then show ?thesis using new(2) assms(3) by simp
  qed
  have sent: "send_new (Some api) e inp w1 = (Inr m, w')" using new(1) m by simp
  show thesis
  proof (rule that [OF m])
    show "m_user_id m = in_user inp" "m_room_id m = in_room inp" "m_content m = clean_content (in_content inp)"
      using send_new_ok [OF sent] by (simp_all add: new_message_def)
    show "t_messages (w_db w') = t_messages (w_db w) @ [message_row m]"
      using send_new_ok [OF sent] unfolding new(2) by blast
    show "published (w_bus w') = published (w_bus w) @ [(''ws:room:'' @ in_room inp, new_message_event m)]"
      using send_new_publishes [OF sent assms(2)] unfolding new(3) .
  qed
qed

lemma new_message_frame:
  "CHR '':'' \<notin> set r \<Longrightarrow> r \<noteq> [] \<Longrightarrow> m_room_id m = r \<Longrightarrow>
   fanout_room e (''ws:room:'' @ r) (Some (new_message_event m)) h = enqueue r (frame e ServerMsgNewMessage (new_message_event m)) h"
  using room_channel [of r]
  by (simp add: fanout_room_def new_message_event_def message_event_frame_def json_fields Let_def)

lemma broadcast_queue: "h_broadcast (broadcastMessage ids d h) = h_broadcast h"
  unfolding broadcastMessage_def
  by (induction ids arbitrary: h) (simp_all add: deliver_def hub_defs Let_def split_beta)

lemma fanout_runs:
  assumes "\<not> h_panicked g" "h_pc g = Waiting" "h_broadcast g = []" "finite (ids_of (h_rooms g) r)"
  shows "\<exists>g'. hub_step\<^sup>*\<^sup>* (enqueue r d g) g' \<and> h_pc g' = Waiting \<and> h_broadcast g' = [] \<and> \<not> h_panicked g' \<and>
    (\<forall>j. c_send (h_client g' j) = c_send (h_client g j) @ (if j \<in> ids_of (h_rooms g) r \<and> receives j g then [d] else []))"
proof -
  obtain ids where ids: "set ids = ids_of (h_rooms g) r" "distinct ids" using finite_distinct_list [OF assms(4)] by blast
  let ?h = "enqueue r d g" and ?h1 = "g\<lparr>h_broadcast := [], h_pc := Delivering ids d\<rparr>"
  let ?g = "(broadcastMessage ids d ?h1)\<lparr>h_pc := Waiting\<rparr>"
  have "hub_step ?h ?h1"
    using take_broadcast [of ?h r d "[]" ids] assms ids by (simp add: enqueue_def queueCap_def)
  moreover have "hub_step\<^sup>*\<^sup>* ?h1 ?g" by (rule delivering_steps) (use assms in simp_all)
  ultimately have "hub_step\<^sup>*\<^sup>* ?h ?g" by (rule converse_rtranclp_into_rtranclp)
  moreover have "receives j ?h1 = receives j g" for j by (simp add: receives_def)
  moreover have "h_broadcast (broadcastMessage ids d ?h1) = []"
    using assms(3) by (simp add: broadcast_queue)
  ultimately show ?thesis
    using broadcast_outcome [where d = d and h = ?h1, OF ids(2)] ids(1) assms(1) by (intro exI [of _ ?g]) simp
qed

text \<open>A chat frame that is stored is that of the user of the connection, who is a member and has subscribed.\<close>

lemma chat_is_stored:
  assumes "handleChatMessage (Some api) e i msg (w, h) = (w', h')" "unmarshal message_data_of msg = Some data"
    and "no_faults e" "t_messages (w_db w') \<noteq> t_messages (w_db w)"
  shows "\<exists>m. m_user_id m = c_user (h_client h i) \<and> m_room_id m = md_room data \<and> m_content m = clean_content (md_content data) \<and>
    active_member (w_db w) (md_room data) (m_user_id m) \<and> isSubscribed i (md_room data) h \<and> md_room data \<noteq> [] \<and>
    t_messages (w_db w') = t_messages (w_db w) @ [message_row m] \<and>
    published (w_bus w') = published (w_bus w) @ [(''ws:room:'' @ md_room data, new_message_event m)] \<and>
    h' = sendAck e i (cm_id msg) (m_id m) ''delivered'' h"
proof -
  let ?u = "c_user (h_client h i)"
  obtain r w1 where send: "SendMessage (Some api) e (chat_input data ?u) w = (r, w1)" by fastforce
  have room: "md_room data \<noteq> []" "RoomRepo_IsMember e (md_room data) ?u (w_db w) = Inr True"
    and sub: "isSubscribed i (md_room data) h" and w1: "w' = w1"
    and h': "\<And>m. r = Inr m \<Longrightarrow> h' = sendAck e i (cm_id msg) (m_id m) ''delivered'' h"
    using assms(1,2,4) send
    by (auto simp: handleChatMessage_def Let_def RoomService_IsMember_def split: if_splits sum.splits)
  obtain m where m: "r = Inr m" "m_user_id m = ?u" "m_room_id m = md_room data" "m_content m = clean_content (md_content data)"
    "t_messages (w_db w') = t_messages (w_db w) @ [message_row m]"
    "published (w_bus w') = published (w_bus w) @ [(''ws:room:'' @ md_room data, new_message_event m)]"
    using SendMessage_stores [OF send assms(3)] assms(4) unfolding w1 by (auto simp: chat_input_def)
  then show ?thesis using room sub h' [OF m(1)] IsMember_True [OF room(2)] by (intro exI [of _ m]) simp
qed

section \<open>Examples\<close>

text \<open>A connection \<open>b\<close> of \<open>bob\<close>, registered.\<close>

definition bob_hub :: hub where
  "bob_hub = register_client ''b'' ((add_client ''b'' ''bob'' None NewHub)\<lparr>h_register := []\<rparr>)"

lemmas bob_defs = bob_hub_def add_client_def register_client_def NewHub_def NewClient_def

lemma bob_hub_simps [simp]:
  "c_user (h_client bob_hub ''b'') = ''bob''" "\<not> isClosed (h_client bob_hub ''b'')" "subscriptions bob_hub = {}"
  by (simp_all add: bob_defs isClosed_def subscriptions_def ids_of_def)

definition subscribe_msg :: client_message where
  "subscribe_msg = \<lparr>cm_id = ''m1'', cm_type = ''subscribe'', cm_timestamp = 0,
     cm_data = Some (JObj [(''room_ids'', JArr [JStr ''r1'', JStr ''r9''])])\<rparr>"

lemma subscribe_msg_data: "unmarshal subscribe_data_of subscribe_msg = Some \<lparr>RoomIDs = [''r1'', ''r9''], PresenceSubscribe = []\<rparr>"
  by (simp add: unmarshal_def subscribe_msg_def subscribe_data_of_def is_struct_def str_list_field_def)

lemma no_such_room: "RoomRepo_IsMember (quiet_env t) ''r9'' ''bob'' sample_db = Inr False"
  by (simp add: RoomRepo_IsMember_def sql_eval is_key_def sample_defs row_result_def)

lemma subscribes_members_only_witness:
  "\<exists>h'. handleSubscribe (quiet_env 0) ''b'' subscribe_msg (sample_world, bob_hub) = (sample_world, h') \<and>
     subscriptions h' = {(''r1'', ''b'')}"
proof -
  obtain w' h' where run: "handleSubscribe (quiet_env 0) ''b'' subscribe_msg (sample_world, bob_hub) = (w', h')" by (rule prod.exhaust)
  note made = subscribes_members_only [OF run subscribe_msg_data]
  have "w' = sample_world" using made by (rule conjunct1)
  moreover have "subscriptions h' = {(''r1'', ''b'')}"
    unfolding made [THEN conjunct2, THEN conjunct1] by (auto simp: no_such_room)
  ultimately show ?thesis using run by (intro exI [of _ h']) simp
qed

lemma channel_roundtrip_witness:
  "extractRoomIDAndEvent ''ws:room:r1'' = (''r1'', []) \<and> extractRoomIDAndEvent ''ws:room:r1:events'' = (''r1'', ''events'')"
  using channel_roundtrip [of "''r1''"] by simp

text \<open>A second server, whose hub waits.\<close>

definition other_hub :: hub where
  "other_hub = Hub_SubscribeToRoom ''b'' ''r1'' bob_hub"

definition chat_msg :: client_message where
  "chat_msg = \<lparr>cm_id = ''m2'', cm_type = ''message'', cm_timestamp = 0,
     cm_data = Some (JObj [(''room_id'', JStr ''r1''), (''content'', JStr ''hi'')])\<rparr>"

lemma chat_msg_data: "unmarshal message_data_of chat_msg = Some \<lparr>md_room = ''r1'', md_content = ''hi'', md_client = [], md_parent = None\<rparr>"
  by (simp add: unmarshal_def chat_msg_def message_data_of_def json_fields)

lemma other_hub_simps [simp]:
  "isSubscribed ''b'' ''r1'' other_hub" "c_user (h_client other_hub ''b'') = ''bob''" "receives ''b'' other_hub"
  "ids_of (h_rooms other_hub) ''r1'' = {''b''}" "h_pc other_hub = Waiting" "h_broadcast other_hub = []"
  "\<not> h_panicked other_hub" "c_send (h_client other_hub ''b'') = []"
  by (simp_all add: other_hub_def Hub_SubscribeToRoom_def bob_defs isClosed_def isSubscribed_def receives_def sendCap_def
      add_id_def ids_of_def)

end
