(* ===== verification/Queries.thy ===== *)
theory Queries
  imports Integrity
begin

text \<open>
  What the reads of the repositories return: a page of a room's history, and a user search.
\<close>

section \<open>Pages of a room's history\<close>

text \<open>The messages a page is cut from.\<close>

definition visible :: "db \<Rightarrow> string \<Rightarrow> gotime option \<Rightarrow> message \<Rightarrow> bool" where
  "visible d r before m \<longleftrightarrow> m \<in> set (t_messages d) \<and> m_room_id m = r \<and> m_deleted_at m = None \<and>
     (case before of None \<Rightarrow> True | Some b \<Rightarrow> m_created_at m < pg_time b)"

lemma take_sort_key_least:
  assumes "x \<in> set (take n (sort_key f xs))" "y \<in> set xs" "y \<notin> set (take n (sort_key f xs))"
  shows "f x \<le> f y"
proof -
  have "y \<in> set (drop n (sort_key f xs))"
    using assms(2,3) by (metis Un_iff append_take_drop_id set_append set_sort)
  moreover have "sorted (map f (take n (sort_key f xs)) @ map f (drop n (sort_key f xs)))"
    by (metis append_take_drop_id map_append sorted_sort_key)
  ultimately show ?thesis using assms(1) by (auto simp: sorted_append)
qed

text \<open>
  A page of a room's history, when the query succeeds: the requested number of messages or, if
  there are fewer, all; only undeleted messages of that room, older than the cursor; newest first; and no
  message that was left out is newer than one on the page.
\<close>

theorem GetByRoom_page:
  assumes "GetByRoom e r n before d = Inr ms"
  shows "0 \<le> n \<and> length ms = min (nat n) (length (filter (visible d r before) (t_messages d))) \<and>
    (\<forall>m \<in> set ms. visible d r before m) \<and> sorted_wrt (\<lambda>a b. m_created_at b \<le> m_created_at a) ms \<and>
    (\<forall>m. visible d r before m \<longrightarrow> m \<in> set ms \<or> (\<forall>a \<in> set ms. m_created_at m \<le> m_created_at a))"
proof -
  let ?rows = "filter (visible d r before) (t_messages d)"
  let ?key = "\<lambda>m. - m_created_at m"
  have rows: "(case before of
          Some b \<Rightarrow> sql_select (\<lambda>m. m_room_id m = r \<and> m_created_at m < pg_time b \<and> m_deleted_at m = None) (t_messages d)
        | None \<Rightarrow> sql_select (\<lambda>m. m_room_id m = r \<and> m_deleted_at m = None) (t_messages d)) = ?rows"
    by (cases before) (auto simp: sql_select_def visible_def intro!: filter_cong)
  have ms: "0 \<le> n" "ms = take (nat n) (sort_key ?key ?rows)"
    using db_query_ok [OF assms [unfolded GetByRoom_def], unfolded rows]
    by (simp_all add: sql_limit_def split: if_splits)
  have "sorted (map ?key ms)"
    unfolding ms(2) take_map [symmetric] by (intro sorted_wrt_take) simp
  then have "sorted_wrt (\<lambda>a b. m_created_at b \<le> m_created_at a) ms"
    by (simp add: sorted_map)
  moreover have "\<forall>m \<in> set ms. visible d r before m"
    unfolding ms(2) by (auto dest!: in_set_takeD)
  moreover have "m_created_at m \<le> m_created_at a"
    if "visible d r before m" "m \<notin> set ms" "a \<in> set ms" for m a
    using take_sort_key_least [of a "nat n" ?key ?rows m] that by (auto simp: ms(2) visible_def)
  moreover have "length ms = min (nat n) (length ?rows)" by (simp add: ms(2))
  ultimately show ?thesis using ms(1) by blast
qed

lemma GetByRoom_page_witness:
  "\<exists>ms. GetByRoom (quiet_env 0) ''r1'' 10 (Some 5000) sample_db = Inr ms \<and>
     length ms = min 10 (length (filter (visible sample_db ''r1'' (Some 5000)) (t_messages sample_db)))"
proof -
  have "GetByRoom (quiet_env 0) ''r1'' 10 (Some 5000) sample_db = Inr [sample_message]"
    by (simp add: GetByRoom_def sql_limit_def sql_select_def sample_db_def) (simp add: sample_message_def pg_time_def)
  with GetByRoom_page [OF this] show ?thesis by auto
qed

section \<open>User search\<close>

definition literal :: "string \<Rightarrow> bool" where
  "literal q \<longleftrightarrow> (\<forall>c \<in> set q. c \<noteq> CHR ''%'' \<and> c \<noteq> CHR ''_'' \<and> c \<noteq> CHR 0x5C)"

lemma like_percent_all: "like ''%'' t"
  by (auto simp: list_ex_iff intro!: bexI [of _ "length t"])

lemma like_literal: "literal q \<Longrightarrow> like (q @ ps) t \<longleftrightarrow> (\<exists>r. t = q @ r \<and> like ps r)"
proof (induction q arbitrary: t)
  case (Cons c q)
  then have c: "c \<noteq> CHR ''%''" "c \<noteq> CHR ''_''" "c \<noteq> CHR 0x5C" and q: "literal q"
    by (auto simp: literal_def)
  show ?case
    using Cons.IH [OF q] c by (cases t) auto
qed simp

lemma like_contains: "literal q \<Longrightarrow> like (''%'' @ q @ ''%'') t \<longleftrightarrow> (\<exists>a b. t = a @ q @ b)"
proof -
  assume q: "literal q"
  have "like (''%'' @ q @ ''%'') t \<longleftrightarrow> list_ex (\<lambda>i. like (q @ ''%'') (drop i t)) [0..<length t + 1]"
    by (simp only: append_Cons append_Nil like.simps(2) if_True refl)
  also have "\<dots> \<longleftrightarrow> (\<exists>i < length t + 1. \<exists>r. drop i t = q @ r)"
    by (simp only: like_literal [OF q] like_percent_all simp_thms list_ex_iff set_upt Bex_def
        atLeastLessThan_iff le0)
  also have "\<dots> \<longleftrightarrow> (\<exists>a b. t = a @ q @ b)"
  proof
    assume "\<exists>i < length t + 1. \<exists>r. drop i t = q @ r"
    then show "\<exists>a b. t = a @ q @ b" by (metis append_take_drop_id)
  next
    assume "\<exists>a b. t = a @ q @ b"
    then obtain a b where "t = a @ q @ b" by blast
    then show "\<exists>i < length t + 1. \<exists>r. drop i t = q @ r"
      by (intro exI [of _ "length a"]) auto
  qed
  finally show ?thesis .
qed

text \<open>
  A search, when the query succeeds and the folded term has no wildcard, returns users whose folded
  name or display name contains the term, at most as many as asked for, all of them when there are no
  more; and never a password hash.
\<close>

theorem Search_contains:
  assumes "pg_lower e (''%'' @ q @ ''%'') = ''%'' @ p @ ''%''" "literal p"
    and "UserRepo_Search e q n d = Inr us"
  defines "hit u \<equiv> \<exists>a b. pg_lower e (u_username u) = a @ p @ b \<or> pg_lower e (u_display_name u) = a @ p @ b"
  shows "us = map (\<lambda>u. u\<lparr>u_password_hash := []\<rparr>) (take (nat n) (filter hit (t_users d))) \<and> 0 \<le> n"
proof -
  have hit: "(\<lambda>u. ilike e (u_username u) (''%'' @ q @ ''%'') \<or> ilike e (u_display_name u) (''%'' @ q @ ''%'')) = hit"
    by (rule ext) (unfold ilike_def assms(1) like_contains [OF assms(2)] hit_def, blast)
  show ?thesis
    using assms(3) unfolding UserRepo_Search_def hit
    by (auto dest!: db_query_ok simp: sql_limit_def sql_select_def take_map split: if_splits)
qed

lemma Search_contains_witness:
  "\<exists>us. UserRepo_Search (quiet_env 0) ''nn'' 5 sample_db = Inr us \<and>
     us = map (\<lambda>u. u\<lparr>u_password_hash := []\<rparr>) (take 5 (filter (\<lambda>u. \<exists>a b.
       pg_lower (quiet_env 0) (u_username u) = a @ ''nn'' @ b \<or> pg_lower (quiet_env 0) (u_display_name u) = a @ ''nn'' @ b)
       (t_users sample_db)))"
proof -
  have "pg_lower (quiet_env 0) (''%'' @ ''nn'' @ ''%'') = ''%'' @ ''nn'' @ ''%''" "literal ''nn''"
    by (simp_all add: quiet_env_def to_lower_def is_upper_def literal_def)
  moreover have "UserRepo_Search (quiet_env 0) ''nn'' 5 sample_db = Inr (the (case UserRepo_Search (quiet_env 0) ''nn'' 5 sample_db of Inl _ \<Rightarrow> None | Inr v \<Rightarrow> Some v))"
    by (simp add: UserRepo_Search_def sql_limit_def)
  ultimately show ?thesis using Search_contains by fastforce
qed

end
