(* ===== verification/Http_Properties.thy ===== *)
theory Http_Properties
  imports Http Room_Delivery Queries
begin

text \<open>
  What the REST interface promises: whose rows a request can touch, who can read a room, and that joining by
  REST lets the user subscribe over the socket.
\<close>

section \<open>Through the middleware\<close>

lemma serve_cases:
  assumes "serve d e r w = (resp, w')"
  obtains (options) "status resp = 204" "w' = w"
    | (no_route) "hr_route r = None" "status resp = 404" "w' = w"
    | (ran) p resp0 where "hr_route r = Some p" "run_route d e r p w = (resp0, w')" "status resp = status resp0" "body resp = body resp0"
proof (cases "hr_method r = ''OPTIONS''")
  case True
  then show ?thesis using assms options by (auto simp: serve_def CORSMiddleware_def Let_def)
next
  case False
  show ?thesis
  proof (cases "hr_route r")
    case None
    then show ?thesis
      using assms False no_route by (auto simp: serve_def CORSMiddleware_def RequestIDMiddleware_def add_headers_def Let_def)
  next
    case (Some p)
    obtain resp0 w0 where run: "run_route d e r p w = (resp0, w0)" by (rule prod.exhaust)
    then have "w' = w0" "status resp = status resp0" "body resp = body resp0"
      using assms False Some by (auto simp: serve_def CORSMiddleware_def RequestIDMiddleware_def add_headers_def Let_def)
    then show ?thesis using ran Some run by blast
  qed
qed

fun rooms_route :: "route \<Rightarrow> bool" where
  "rooms_route ListRoomsRoute = True"
| "rooms_route CreateRoomRoute = True"
| "rooms_route (GetRoomRoute i) = True"
| "rooms_route (RoomMessagesRoute i) = True"
| "rooms_route (JoinRoute i) = True"
| "rooms_route (LeaveRoute i) = True"
| "rooms_route _ = False"

text \<open>The handler behind the middleware of the group.\<close>

fun rooms_handler :: "'r http_deps \<Rightarrow> env \<Rightarrow> http_request \<Rightarrow> route \<Rightarrow> string \<Rightarrow> 'r world \<Rightarrow> http_response \<times> 'r world" where
  "rooms_handler d e r ListRoomsRoute u w = ListRooms e (Some u) w"
| "rooms_handler d e r CreateRoomRoute u w = Handlers_CreateRoom d e r (Some u) w"
| "rooms_handler d e r (GetRoomRoute i) u w = GetRoom d e i (Some u) w"
| "rooms_handler d e r (RoomMessagesRoute i) u w = Handlers_GetRoomMessages e r i (Some u) w"
| "rooms_handler d e r (JoinRoute i) u w = Handlers_JoinRoom d e i (Some u) w"
| "rooms_handler d e r (LeaveRoute i) u w = Handlers_LeaveRoom d e i (Some u) w"
| "rooms_handler d e r _ u w = (refusal 404 [] [], w)"

definition token_user :: "'r http_deps \<Rightarrow> env \<Rightarrow> http_request \<Rightarrow> 'r world \<Rightarrow> user option" where
  "token_user d e r w =
     (if hr_authorization r = [] then None
      else case ValidateToken (hd_auth d) e (strip_bearer (hr_authorization r)) w of Inl _ \<Rightarrow> None | Inr u \<Rightarrow> Some u)"

lemma rooms_run:
  assumes "rooms_route p" "run_route d e r p w = (resp, w')"
  shows "case token_user d e r w of None \<Rightarrow> status resp = 401 \<and> w' = w | Some u \<Rightarrow> (resp, w') = rooms_handler d e r p (u_id u) w"
  using assms
  by (cases p) (auto simp: rooms_group_def AuthMiddleware_def token_user_def refusal_def respond_def split: sum.splits if_splits)

section \<open>Whose rows change\<close>

text \<open>Everything but the memberships of \<open>u\<close> and the table of rooms is as before.\<close>

definition own_change :: "string \<Rightarrow> db \<Rightarrow> db \<Rightarrow> bool" where
  "own_change u d d' \<longleftrightarrow> t_users d' = t_users d \<and> t_messages d' = t_messages d \<and> t_receipts d' = t_receipts d \<and>
     filter (\<lambda>x. rm_user_id x \<noteq> u) (t_members d') = filter (\<lambda>x. rm_user_id x \<noteq> u) (t_members d)"

lemma own_refl [simp]: "own_change u d d"
  by (simp add: own_change_def)

lemma own_trans: "own_change u d1 d2 \<Longrightarrow> own_change u d2 d3 \<Longrightarrow> own_change u d1 d3"
  by (simp add: own_change_def)

lemma filter_update_own:
  "(\<And>x. rm_user_id (f x) = rm_user_id x) \<Longrightarrow> (\<And>x. p x \<Longrightarrow> rm_user_id x = u) \<Longrightarrow>
   filter (\<lambda>x. rm_user_id x \<noteq> u) (sql_update p f xs) = filter (\<lambda>x. rm_user_id x \<noteq> u) xs"
  by (induction xs) (auto simp: sql_update_def)

lemma own_writes:
  "upsert_member m d = Inr d' \<Longrightarrow> rm_user_id m = u \<Longrightarrow> own_change u d d'"
  "insert_member m d = Inr d' \<Longrightarrow> rm_user_id m = u \<Longrightarrow> own_change u d d'"
  "mark_left i u t d = Inr d' \<Longrightarrow> own_change u d d'"
  "recount_members i t d = Inr d' \<Longrightarrow> own_change u d d'"
  "insert_room x d = Inr d' \<Longrightarrow> own_change u d d'"
  by (auto simp: upsert_member_def insert_member_def mark_left_def recount_members_def insert_room_def own_change_def
      member_row_def is_key_def intro!: filter_update_own split: if_splits)

lemma JoinRoomTx_own: "JoinRoomTx e m d = (res, d') \<Longrightarrow> rm_user_id m = u \<Longrightarrow> own_change u d d'"
  by (auto simp: JoinRoomTx_def tx_commit_failed_def split: option.splits sum.splits if_splits
      dest!: tx_exec_ok tx_commitD intro: own_trans own_writes)

lemma LeaveRoomTx_own: "LeaveRoomTx e i u d = (res, d') \<Longrightarrow> own_change u d d'"
  by (auto simp: LeaveRoomTx_def split: option.splits sum.splits
      dest!: tx_exec_ok tx_commitD intro: own_trans own_writes)

lemma tx_commit_own: "own_change u d c \<Longrightarrow> own_change u d (snd (tx_commit e q d c))"
  by (auto simp: tx_commit_def split: option.splits fault.splits)

lemma create_own: "insert_room x d = Inr d1 \<Longrightarrow> insert_member m d1 = Inr d2 \<Longrightarrow> rm_user_id m = u \<Longrightarrow> own_change u d d2"
  by (rule own_trans [OF own_writes(5) own_writes(2)])

lemma CreateRoomWithOwner_own: "CreateRoomWithOwner e x m d = (res, y, d') \<Longrightarrow> rm_user_id m = u \<Longrightarrow> own_change u d d'"
  by (auto simp: CreateRoomWithOwner_def Let_def split_beta split: option.splits sum.splits if_splits
      dest!: tx_exec_ok intro!: tx_commit_own elim!: create_own)

lemma GetByID_world [simp]: "w_db (snd (RoomService_GetByID c e i w)) = w_db w"
  by (auto simp: RoomService_GetByID_def on_bus_def split_beta split: option.splits sum.splits)

lemma handlers_own:
  assumes "rooms_route p" "rooms_handler d e r p u w = (resp, w')"
  shows "own_change u (w_db w) (w_db w')"
proof (cases p)
  case CreateRoomRoute
  show ?thesis
    using assms(2) CreateRoomRoute
    by (auto simp: Handlers_CreateRoom_def with_user_def RoomService_Create_def on_db_def Let_def split_beta prod_eq_iff
        split: option.splits sum.splits intro!: CreateRoomWithOwner_own [OF surjective_pairing [THEN trans]])
next
  case (GetRoomRoute i)
  obtain x w1 where "RoomService_GetByID (hd_cache d) e i w = (x, w1)" by (rule prod.exhaust)
  moreover from this have "w_db w1 = w_db w" using GetByID_world [of "hd_cache d" e i w] by simp
  ultimately show ?thesis
    using assms(2) GetRoomRoute by (auto simp: GetRoom_def with_user_def split: sum.splits bool.splits)
next
  case (JoinRoute i)
  have "own_change u (w_db w) (w_db (snd (JoinRoom (hd_cache d) (hd_ps d) e i u w)))"
    using JoinRoomTx_own [of e "new_member e ''join_room'' i u RoleMember" "w_db w" _ _ u]
    by (auto simp: JoinRoom_def on_db_def split_beta new_member_def prod_eq_iff split: join_plan.splits sum.splits)
  then show ?thesis using assms(2) JoinRoute by (auto simp: Handlers_JoinRoom_def with_user_def split: sum.splits prod.splits)
next
  case (LeaveRoute i)
  have "own_change u (w_db w) (w_db (snd (LeaveRoom (hd_cache d) (hd_ps d) e i u w)))"
    using LeaveRoomTx_own [of e i u "w_db w"]
    by (auto simp: LeaveRoom_def on_db_def split_beta prod_eq_iff on_bus_def split: option.splits sum.splits)
  then show ?thesis using assms(2) LeaveRoute by (auto simp: Handlers_LeaveRoom_def with_user_def split: sum.splits prod.splits)
qed (use assms in \<open>auto simp: ListRooms_def Handlers_GetRoomMessages_def with_user_def split: sum.splits bool.splits\<close>)

text \<open>
  C13. A request for rooms acts for the user of its access token and for nobody else: without a token that
  validates it is answered 401 (or is a preflight) and changes nothing; with one it leaves accounts, messages,
  receipts and the memberships of all other users as they are, whatever fails on the way.
\<close>

theorem rooms_act_for_token_user:
  assumes "serve d e r w = (resp, w')" "hr_route r = Some p" "rooms_route p"
  shows "case token_user d e r w of None \<Rightarrow> status resp \<in> {204, 401} \<and> w' = w
    | Some u \<Rightarrow> own_change (u_id u) (w_db w) (w_db w')"
  using assms(1)
proof (cases rule: serve_cases)
  case (ran q resp0)
  then have "case token_user d e r w of None \<Rightarrow> status resp0 = 401 \<and> w' = w | Some u \<Rightarrow> (resp0, w') = rooms_handler d e r p (u_id u) w"
    using assms(2) rooms_run [OF assms(3)] by simp
  then show ?thesis
    using ran(3) handlers_own [OF assms(3), of d e r _ w resp0 w'] by (simp split: option.splits)
qed (use assms(2) in \<open>auto split: option.splits\<close>)

section \<open>Reading\<close>

lemma GetByRoom_rows:
  assumes "GetByRoom e i n before d = Inr ms"
  shows "length ms \<le> nat n \<and> set ms \<subseteq> {m. visible d i before m}"
  using db_query_ok [OF assms [unfolded GetByRoom_def]]
  by (auto simp: sql_limit_def visible_def sql_select_def split: if_splits option.splits dest!: in_set_takeD)

lemma page_limit_range: "0 < page_limit l \<and> page_limit l \<le> 200"
  by (auto simp: page_limit_def split: option.splits)

lemma token_user_valid:
  "token_user d e r w = Some u \<Longrightarrow> ValidateToken (hd_auth d) e (strip_bearer (hr_authorization r)) w = Inr u"
  by (auto simp: token_user_def split: if_splits sum.splits)

text \<open>
  C12. The history of a room is read by its active members only: a 200 answer goes to a user whose token
  validates and who is an active member. It holds messages of that room that are not deleted and older than the
  cursor, newest first and none that is newer left out, as many as the limit in the handler's reading allows if
  there are so many; and reading changes nothing. The documentation gives 1 to 100 as the range of the limit; the
  handler, and so this theorem, takes 1 to 200.
\<close>

theorem history_members_only:
  assumes "serve d e r w = (resp, w')" "hr_route r = Some (RoomMessagesRoute i)" "status resp = 200"
  shows "\<exists>u ms. ValidateToken (hd_auth d) e (strip_bearer (hr_authorization r)) w = Inr u \<and>
    active_member (w_db w) i (u_id u) \<and> body resp = Some (slice_json message_json ms) \<and>
    length ms = min (nat (page_limit (hr_limit r))) (length (filter (visible (w_db w) i (hr_before r)) (t_messages (w_db w)))) \<and>
    0 < page_limit (hr_limit r) \<and> page_limit (hr_limit r) \<le> 200 \<and>
    set ms \<subseteq> {m. visible (w_db w) i (hr_before r) m} \<and> sorted_wrt (\<lambda>a b. m_created_at b \<le> m_created_at a) ms \<and>
    (\<forall>m. visible (w_db w) i (hr_before r) m \<longrightarrow> m \<in> set ms \<or> (\<forall>a \<in> set ms. m_created_at m \<le> m_created_at a)) \<and> w' = w"
  using assms(1)
proof (cases rule: serve_cases)
  case (ran q resp0)
  then have "run_route d e r (RoomMessagesRoute i) w = (resp0, w')" using assms(2) by simp
  then have run: "case token_user d e r w of None \<Rightarrow> status resp0 = 401 \<and> w' = w
      | Some u \<Rightarrow> (resp0, w') = Handlers_GetRoomMessages e r i (Some (u_id u)) w"
    using rooms_run [of "RoomMessagesRoute i" d e r w resp0 w'] by (simp del: run_route.simps split: option.splits)
  then obtain u where u: "token_user d e r w = Some u" "(resp0, w') = Handlers_GetRoomMessages e r i (Some (u_id u)) w"
    using ran(3) assms(3) by (auto split: option.splits)
  obtain ms where "RoomRepo_IsMember e i (u_id u) (w_db w) = Inr True" "GetByRoom e i (page_limit (hr_limit r)) (hr_before r) (w_db w) = Inr ms"
      "resp0 = respond 200 (slice_json message_json ms)" "w' = w"
    using u(2) ran(3) assms(3)
    by (auto simp: Handlers_GetRoomMessages_def with_user_def refusal_def respond_def RoomService_IsMember_def GetRoomMessages_def
        split: sum.splits bool.splits)
  then show ?thesis
    using token_user_valid [OF u(1)] ran(4) GetByRoom_page [of e i "page_limit (hr_limit r)" "hr_before r" "w_db w" ms]
      IsMember_True [of e i "u_id u" "w_db w"] page_limit_range [of "hr_limit r"]
    by (intro exI [of _ u] exI [of _ ms]) (simp add: respond_def subset_iff)
qed (use assms(2,3) in auto)

section \<open>Joining, then subscribing\<close>

lemma active_IsMember: "active_member d i u \<Longrightarrow> db_fault e ''is_member'' = None \<Longrightarrow> RoomRepo_IsMember e i u d = Inr True"
  by (auto simp: active_member_def RoomRepo_IsMember_def db_query_def sql_exists_iff)

lemma JoinRoom_active:
  assumes "db_ok (w_db w)" "JoinRoom cache ps e i u w = (Inr (), w')"
  shows "active_member (w_db w') i u"
proof (cases "plan_join e i u (w_db w)")
  case Already
  then show ?thesis using assms(2) plan_already [of e i u "w_db w"] by (simp add: JoinRoom_def)
next
  case Rejoin
  then have "JoinRoomTx e (new_member e ''join_room'' i u RoleMember) (w_db w) = (Inr (), w_db w')"
    using assms by (auto simp: JoinRoom_def on_db_def split_beta prod_eq_iff split: sum.splits)
  from JoinRoomTx_active [OF assms(1) this] show ?thesis by (simp add: new_member_def)
qed (use assms(2) in \<open>simp add: JoinRoom_def\<close>)

text \<open>
  C32. Joining works across the two interfaces: after a join request was answered 200, a subscribe frame of an
  open connection of the same user for that room makes that subscription, and is acknowledged.
\<close>

theorem join_then_subscribe:
  assumes "db_ok (w_db w)" "serve d e r w = (resp, w')" "hr_route r = Some (JoinRoute i)" "status resp = 200"
    and "ValidateToken (hd_auth d) e (strip_bearer (hr_authorization r)) w = Inr u"
    and "c_user (h_client h c) = u_id u" "\<not> isClosed (h_client h c)"
    and "unmarshal subscribe_data_of msg = Some data" "RoomIDs data = [i]" "db_fault e' ''is_member'' = None"
  shows "\<exists>h1. handleSubscribe e' c msg (w', h) = (w', sendAck e' c (cm_id msg) [] ''subscribed'' h1) \<and>
    subscriptions h1 = insert (i, c) (subscriptions h) \<and> active_member (w_db w') i (u_id u)"
  using assms(2)
proof (cases rule: serve_cases)
  case (ran q resp0)
  then have "run_route d e r (JoinRoute i) w = (resp0, w')" using assms(3) by simp
  then have run: "case token_user d e r w of None \<Rightarrow> status resp0 = 401 \<and> w' = w
      | Some u \<Rightarrow> (resp0, w') = Handlers_JoinRoom d e i (Some (u_id u)) w"
    using rooms_run [of "JoinRoute i" d e r w resp0 w'] by (simp del: run_route.simps split: option.splits)
  then have "(resp0, w') = Handlers_JoinRoom d e i (Some (u_id u)) w"
    using ran(3) assms(4,5) by (auto simp: token_user_def split: if_splits)
  then have "JoinRoom (hd_cache d) (hd_ps d) e i (u_id u) w = (Inr (), w')"
    using ran(3) assms(4) by (auto simp: Handlers_JoinRoom_def with_user_def refusal_def respond_def split: sum.splits prod.splits if_splits)
  then have act: "active_member (w_db w') i (u_id u)" by (rule JoinRoom_active [OF assms(1)])
  then have "RoomRepo_IsMember e' i (u_id u) (w_db w') = Inr True" using active_IsMember assms(10) by blast
  then show ?thesis
    using act assms(6-9) subscribe_subscriptions [of h c i]
    by (intro exI [of _ "Hub_SubscribeToRoom c i h"])
      (simp add: handleSubscribe_def Let_def maxRoomSubscriptions_def RoomService_IsMember_def)
qed (use assms(3,4) in auto)

section \<open>Origins\<close>

lemma cors_loop_snd: "snd (cors_loop origin as b) \<longleftrightarrow> origin \<in> set as"
  by (induction as arbitrary: b) auto

lemma cors_loop_fst: "origin \<in> set as \<Longrightarrow> fst (cors_loop origin as b)"
  by (induction as arbitrary: b) auto

text \<open>
  The browser is told to send credentials exactly when no wildcard is configured and the origin is in the list,
  and then it is told this origin only.
\<close>

theorem cors_credentials:
  "(if ''*'' \<notin> set allowed \<and> origin \<in> set allowed
    then {v. (''Access-Control-Allow-Origin'', v) \<in> set (cors_headers allowed origin)} = {origin} \<and>
         (''Access-Control-Allow-Credentials'', ''true'') \<in> set (cors_headers allowed origin)
    else ''Access-Control-Allow-Credentials'' \<notin> fst ` set (cors_headers allowed origin))"
proof -
  obtain a b where l: "cors_loop origin allowed False = (a, b)" by (rule prod.exhaust)
  have b: "b \<longleftrightarrow> origin \<in> set allowed" using cors_loop_snd [of origin allowed False] l by simp
  have "a" if "origin \<in> set allowed" using cors_loop_fst [OF that, of False] l by simp
  then show ?thesis
    by (auto simp: cors_headers_def l b list_ex_iff)
qed

section \<open>The node id\<close>

lemma SetNodeID_range:
  "0 \<le> sint (nodeID g) \<Longrightarrow> sint (nodeID g) \<le> 1023 \<Longrightarrow>
   0 \<le> sint (nodeID (snd (SetNodeID n g))) \<and> sint (nodeID (snd (SetNodeID n g))) \<le> 1023"
  by (simp add: SetNodeID_def maxNodeID_eq)

lemma pod_id:
  fixes x :: "32 word"
  shows "uint (ucast (x AND 0x3FF) :: int64) = uint x mod 1024" "sint (ucast (x AND 0x3FF) :: int64) = uint x mod 1024"
proof -
  have "uint (x AND 0x3FF) = take_bit 10 (uint x)"
    by (simp add: unsigned_and_eq take_bit_eq_mask mask_eq_exp_minus_1)
  moreover have "take_bit 10 (uint x) mod 2 ^ 64 = take_bit 10 (uint x)"
    by (simp add: take_bit_eq_mod)
  ultimately show u: "uint (ucast (x AND 0x3FF) :: int64) = uint x mod 1024"
    by (simp add: unsigned_ucast_eq take_bit_eq_mod)
  have "uint x mod 1024 < 1024" by simp
  then have "uint (ucast (x AND 0x3FF) :: int64) < 2 ^ 63" unfolding u by (rule less_trans) simp
  from uint_small_sint [OF this] u show "sint (ucast (x AND 0x3FF) :: int64) = uint x mod 1024" by (rule trans)
qed

text \<open>
  The node id of the generator stays between 0 and 1023 whatever the environment says, and an id that is derived
  from the name of a pod is always accepted.
\<close>

theorem node_id_in_range:
  "(if 0 \<le> sint (nodeID g) \<and> sint (nodeID g) \<le> 1023
    then 0 \<le> sint (nodeID (choose_node_id env_of g)) \<and> sint (nodeID (choose_node_id env_of g)) \<le> 1023 else True) \<and>
   (if env_of ''SNOWFLAKE_NODE_ID'' = [] \<and> env_of ''MY_POD_NAME'' \<noteq> []
    then uint (nodeID (choose_node_id env_of g)) = uint (fnv32a (env_of ''MY_POD_NAME'')) mod 1024 else True)"
proof -
  have "0 \<le> uint (fnv32a (env_of ''MY_POD_NAME'')) mod 1024 \<and> uint (fnv32a (env_of ''MY_POD_NAME'')) mod 1024 \<le> 1023"
    using pos_mod_bound [of 1024 "uint (fnv32a (env_of ''MY_POD_NAME''))"] by simp
  then show ?thesis
    using SetNodeID_range [of g] by (auto simp: choose_node_id_def SetNodeID_def pod_id maxNodeID_eq split: option.splits)
qed

section \<open>Examples\<close>

definition sample_http :: "ref_redis http_deps" where
  "sample_http = \<lparr>hd_cfg = defaultConfig (\<lambda>_. []), hd_auth = sample_auth, hd_cache = Some ref_api, hd_ps = Some ref_api,
     hd_has_db = True, binding = (\<lambda>tag s. s \<noteq> []), getenv = (\<lambda>_. [])\<rparr>"

definition bob_asks :: "string \<Rightarrow> route \<Rightarrow> http_request" where
  "bob_asks verb p = \<lparr>hr_method = verb, hr_route = Some p, hr_client_ip = ''10.0.0.1'',
     hr_authorization = ''Bearer '' @ sample_token ''access'' (15 * minute), hr_origin = [], hr_request_id = ''q1'', hr_body = None,
     hr_limit = ''10'', hr_before = None\<rparr>"

lemma bob_fields [simp]:
  "hr_method (bob_asks verb p) = verb" "hr_route (bob_asks verb p) = Some p" "hr_limit (bob_asks verb p) = ''10''"
  "hr_before (bob_asks verb p) = None" "hr_authorization (bob_asks verb p) \<noteq> []"
  "hr_authorization (bob_asks verb p) = ''Bearer '' @ sample_token ''access'' (15 * minute)"
  by (simp_all add: bob_asks_def)

lemma lower_bearer: "map to_lower ''Bearer '' = ''bearer ''"
  by code_simp

lemma bob_lookups:
  "RoomRepo_IsMember sample_env ''r1'' ''bob'' sample_db = Inr True" "RoomRepo_GetByID sample_env ''r1'' sample_db = Inr sample_room"
  "GetMember sample_env ''r1'' ''bob'' sample_db = Inr (sample_member ''bob'' RoleMember 0)"
  unfolding sample_env_def by (rule sample_guards(2), rule sample_guards(1))
    (simp add: GetMember_def sql_row_def is_key_def sample_defs)

lemma bob_token:
  "ValidateToken (hd_auth sample_http) sample_env (strip_bearer (hr_authorization (bob_asks verb p))) sample_world = Inr (sample_user ''bob'')"
proof -
  have "strip_bearer (''Bearer '' @ sample_token ''access'' (15 * minute)) = sample_token ''access'' (15 * minute)"
    using lower_bearer by (simp add: strip_bearer_def sample_token_def)
  then show ?thesis using sample_valid unfolding bob_fields(6) by (simp add: sample_http_def)
qed

lemma bob_user: "token_user sample_http sample_env (bob_asks verb p) sample_world = Some (sample_user ''bob'')"
  unfolding token_user_def bob_token by simp

lemma bob_runs:
  "verb \<noteq> ''OPTIONS'' \<Longrightarrow> rooms_route p \<Longrightarrow>
   rooms_handler sample_http sample_env (bob_asks verb p) p ''bob'' sample_world = (resp0, w') \<Longrightarrow>
   \<exists>resp. serve sample_http sample_env (bob_asks verb p) sample_world = (resp, w') \<and> status resp = status resp0 \<and> body resp = body resp0"
  using rooms_run [of p sample_http sample_env "bob_asks verb p" sample_world]
  by (cases "run_route sample_http sample_env (bob_asks verb p) p sample_world")
    (auto simp: bob_user serve_def CORSMiddleware_def RequestIDMiddleware_def add_headers_def Let_def sample_user_def)

lemma rooms_act_for_token_user_witness:
  "\<exists>resp w'. serve sample_http sample_env (bob_asks ''POST'' (LeaveRoute ''r1'')) sample_world = (resp, w') \<and>
     own_change ''bob'' sample_db (w_db w')"
proof -
  obtain resp w' where run: "serve sample_http sample_env (bob_asks ''POST'' (LeaveRoute ''r1'')) sample_world = (resp, w')"
    by (rule prod.exhaust)
  from rooms_act_for_token_user [OF run bob_fields(2)] run show ?thesis by (simp add: bob_user sample_user_def)
qed

lemma history_members_only_witness:
  "\<exists>resp ms. serve sample_http sample_env (bob_asks ''GET'' (RoomMessagesRoute ''r1'')) sample_world = (resp, sample_world) \<and>
     status resp = 200 \<and> body resp = Some (slice_json message_json ms) \<and> active_member sample_db ''r1'' ''bob'' \<and>
     set ms \<subseteq> {m. visible sample_db ''r1'' None m}"
proof -
  have page: "GetByRoom sample_env ''r1'' 10 None sample_db = Inr [sample_message]"
    by (simp add: GetByRoom_def sample_env_def sql_limit_def sql_select_def sample_db_def sample_message_def)
  have "page_limit ''10'' = 10" by code_simp
  then have "rooms_handler sample_http sample_env (bob_asks ''GET'' (RoomMessagesRoute ''r1'')) (RoomMessagesRoute ''r1'') ''bob'' sample_world =
      (respond 200 (slice_json message_json [sample_message]), sample_world)"
    using page by (simp add: Handlers_GetRoomMessages_def with_user_def RoomService_IsMember_def GetRoomMessages_def bob_lookups)
  from bob_runs [OF _ _ this] obtain resp where
    run: "serve sample_http sample_env (bob_asks ''GET'' (RoomMessagesRoute ''r1'')) sample_world = (resp, sample_world)" and ok: "status resp = 200"
    by (auto simp: respond_def)
  from history_members_only [OF run bob_fields(2) ok] bob_token [of "''GET''" "RoomMessagesRoute ''r1''"] run ok show ?thesis
    by (auto simp: sample_user_def)
qed

lemma join_then_subscribe_witness:
  "\<exists>resp w' h1. serve sample_http sample_env (bob_asks ''POST'' (JoinRoute ''r1'')) sample_world = (resp, w') \<and> status resp = 200 \<and>
     handleSubscribe (quiet_env 0) ''b'' (subscribe_msg\<lparr>cm_data := Some (JObj [(''room_ids'', JArr [JStr ''r1''])])\<rparr>) (w', bob_hub) =
       (w', sendAck (quiet_env 0) ''b'' ''m1'' [] ''subscribed'' h1) \<and>
     subscriptions h1 = {(''r1'', ''b'')}"
proof -
  let ?msg = "subscribe_msg\<lparr>cm_data := Some (JObj [(''room_ids'', JArr [JStr ''r1''])])\<rparr>"
  have data: "unmarshal subscribe_data_of ?msg = Some \<lparr>RoomIDs = [''r1''], PresenceSubscribe = []\<rparr>"
    by (simp add: unmarshal_def subscribe_msg_def subscribe_data_of_def is_struct_def str_list_field_def)
  have "JoinRoom (Some ref_api) (Some ref_api) sample_env ''r1'' ''bob'' sample_world = (Inr (), sample_world)"
    by (simp add: JoinRoom_def plan_join_def bob_lookups) (simp add: sample_member_def)
  then have "rooms_handler sample_http sample_env (bob_asks ''POST'' (JoinRoute ''r1'')) (JoinRoute ''r1'') ''bob'' sample_world =
      (respond 200 (JObj [(''status'', JStr ''joined'')]), sample_world)"
    by (simp add: Handlers_JoinRoom_def with_user_def sample_http_def)
  from bob_runs [OF _ _ this] obtain resp where
    run: "serve sample_http sample_env (bob_asks ''POST'' (JoinRoute ''r1'')) sample_world = (resp, sample_world)" and ok: "status resp = 200"
    by (auto simp: respond_def)
  from join_then_subscribe [OF _ run bob_fields(2) ok bob_token _ _ data, of bob_hub "''b''" "quiet_env 0"]
  show ?thesis using run ok by (auto simp: sample_db_ok sample_user_def subscribe_msg_def)
qed

end
