(* ===== verification/Error_Paths.thy ===== *)
theory Error_Paths
  imports Http_Properties
begin

text \<open>
  What a refused request leaves behind: nothing in the tables and nothing on the channels. Statements of the
  database may fail anywhere, as long as a statement that was applied is not reported as failed.
\<close>

section \<open>Statements that fail\<close>

definition lossless :: "env \<Rightarrow> bool" where
  "lossless e \<longleftrightarrow> (\<forall>q x. db_fault e q \<noteq> Some (ReplyLost x))"

definition tables_and_log :: "'r world \<Rightarrow> db \<times> (string \<times> json) list" where
  "tables_and_log w = (w_db w, published (w_bus w))"

lemma db_exec_error: "lossless e \<Longrightarrow> db_exec e q f d = (Inl x, d') \<Longrightarrow> d' = d"
  by (auto simp: db_exec_def lossless_def split: option.splits fault.splits sum.splits)

lemma tx_commit_error: "lossless e \<Longrightarrow> tx_commit e q d c = (Inl x, d') \<Longrightarrow> d' = d"
  by (auto simp: tx_commit_def lossless_def split: option.splits fault.splits)

lemma JoinRoomTx_error: "lossless e \<Longrightarrow> JoinRoomTx e m d = (Inl x, d') \<Longrightarrow> d' = d"
  by (auto simp: JoinRoomTx_def tx_commit_failed_def split: option.splits sum.splits if_splits dest: tx_commit_error)

lemma LeaveRoomTx_error: "lossless e \<Longrightarrow> LeaveRoomTx e r u d = (Inl x, d') \<Longrightarrow> d' = d"
  by (auto simp: LeaveRoomTx_def split: option.splits sum.splits dest: tx_commit_error)

lemma UpdateReactionsTx_error: "lossless e \<Longrightarrow> UpdateReactionsTx e i f d = (Inl x, d') \<Longrightarrow> d' = d"
  by (auto simp: UpdateReactionsTx_def split: option.splits sum.splits dest: tx_commit_error)

lemma CreateRoomWithOwner_error: "lossless e \<Longrightarrow> CreateRoomWithOwner e r m d = (Inl x, r', d') \<Longrightarrow> d' = d"
  by (auto simp: CreateRoomWithOwner_def Let_def split: option.splits sum.splits prod.splits dest: tx_commit_error)

section \<open>Operations that fail\<close>

lemma redis_write_log: "redis_write e q f b = (r, b') \<Longrightarrow> published b' = published b"
  using redis_write_published [of e q f b] by simp

lemma invalidateToken_frame: "invalidateToken s e j t w = (r, w') \<Longrightarrow> tables_and_log w' = tables_and_log w"
  by (auto simp: tables_and_log_def invalidateToken_def on_bus_def InvalidateToken_def set_key_def split: option.splits prod.splits
      dest: redis_write_log)

lemma RefreshToken_frame: "AuthService_RefreshToken s e token w = (r, w') \<Longrightarrow> tables_and_log w' = tables_and_log w"
  by (auto simp: AuthService_RefreshToken_def split: sum.splits if_splits prod.splits dest: invalidateToken_frame)

lemma logout_one_frame: "logout_one s e token ttl w = (r, w') \<Longrightarrow> tables_and_log w' = tables_and_log w"
  by (auto simp: logout_one_def split: if_splits option.splits dest: invalidateToken_frame)

lemma Logout_frame: "Logout s e a b w = (r, w') \<Longrightarrow> tables_and_log w' = tables_and_log w"
  by (auto simp: Logout_def split: sum.splits prod.splits dest!: logout_one_frame)

lemma Register_error: "lossless e \<Longrightarrow> Register s e inp w = (Inl x, w') \<Longrightarrow> tables_and_log w' = tables_and_log w"
  by (auto simp: tables_and_log_def Register_def on_db_def UserRepo_Create_def Let_def split: sum.splits if_splits prod.splits dest: db_exec_error)

lemma Create_error: "lossless e \<Longrightarrow> RoomService_Create e n t s u w = (Inl x, w') \<Longrightarrow> tables_and_log w' = tables_and_log w"
  by (auto simp: tables_and_log_def RoomService_Create_def on_db_def Let_def split: sum.splits prod.splits dest: CreateRoomWithOwner_error)

lemma JoinRoom_error: "lossless e \<Longrightarrow> JoinRoom cache ps e i u w = (Inl x, w') \<Longrightarrow> tables_and_log w' = tables_and_log w"
  by (auto simp: tables_and_log_def JoinRoom_def on_db_def split: join_plan.splits sum.splits prod.splits dest: JoinRoomTx_error)

lemma LeaveRoom_error: "lossless e \<Longrightarrow> LeaveRoom cache ps e i u w = (Inl x, w') \<Longrightarrow> tables_and_log w' = tables_and_log w"
  by (auto simp: tables_and_log_def LeaveRoom_def on_db_def split: sum.splits prod.splits dest: LeaveRoomTx_error)

lemma GetByID_log: "RoomService_GetByID c e i w = (r, w') \<Longrightarrow> tables_and_log w' = tables_and_log w"
  by (auto simp: tables_and_log_def RoomService_GetByID_def on_bus_def SetObject_def set_key_def split: option.splits sum.splits prod.splits
      dest: redis_write_log)

lemma CheckRateLimit_log: "CheckRateLimit api e k n t b = (r, b') \<Longrightarrow> published b' = published b"
  by (auto simp: CheckRateLimit_def Let_def split: option.splits fault.splits prod.splits)

section \<open>Handlers that refuse\<close>

text \<open>An answer with an error status comes with the tables and the log as they were.\<close>

definition refuses_cleanly :: "'r world \<Rightarrow> http_response \<times> 'r world \<Rightarrow> bool" where
  "refuses_cleanly w r \<longleftrightarrow> (400 \<le> status (fst r) \<longrightarrow> tables_and_log (snd r) = tables_and_log w)"

lemma refuses_refl: "refuses_cleanly w (resp, w)"
  by (simp add: refuses_cleanly_def)

lemma refuses_frame: "tables_and_log w' = tables_and_log w \<Longrightarrow> refuses_cleanly w (resp, w')"
  by (simp add: refuses_cleanly_def)

lemma refuses_ok: "status resp < 400 \<Longrightarrow> refuses_cleanly w (resp, w')"
  by (simp add: refuses_cleanly_def)

lemma respond_status [simp]: "status (respond c j) = c" "status (refusal c k t) = c"
  by (simp_all add: respond_def refusal_def)

lemmas refuses = refuses_refl refuses_frame refuses_ok

lemma rooms_handler_refuses:
  assumes "lossless e"
  shows "refuses_cleanly w (rooms_handler d e r p u w)"
proof (cases p)
  case CreateRoomRoute
  then show ?thesis
    by (auto simp: Handlers_CreateRoom_def with_user_def refuses_refl refuses_ok split: option.splits sum.splits prod.splits
        intro: refuses_frame dest!: Create_error [OF assms])
next
  case (GetRoomRoute i)
  then show ?thesis
    by (auto simp: GetRoom_def with_user_def split: sum.splits prod.splits bool.splits intro: refuses_frame dest!: GetByID_log)
next
  case (JoinRoute i)
  then show ?thesis
    by (auto simp: Handlers_JoinRoom_def with_user_def refuses_ok split: sum.splits prod.splits
        intro: refuses_frame dest!: JoinRoom_error [OF assms])
next
  case (LeaveRoute i)
  then show ?thesis
    by (auto simp: Handlers_LeaveRoom_def with_user_def refuses_ok split: sum.splits prod.splits
        intro: refuses_frame dest!: LeaveRoom_error [OF assms])
qed (auto simp: ListRooms_def Handlers_GetRoomMessages_def with_user_def refuses_refl split: sum.splits bool.splits)

lemma account_handlers_refuse:
  assumes "lossless e"
  shows "refuses_cleanly w (Handlers_Register d e r w)" "refuses_cleanly w (Handlers_Refresh d e r w)"
    "refuses_cleanly w (Handlers_Logout d e r w)"
  by (auto simp: Handlers_Register_def Handlers_Refresh_def Handlers_Logout_def Let_def refuses_refl refuses_ok
      split: option.splits sum.splits prod.splits
      intro: refuses_frame dest!: Register_error [OF assms] RefreshToken_frame Logout_frame)


section \<open>Through the middleware\<close>

lemma refuses_later: "refuses_cleanly w1 x \<Longrightarrow> tables_and_log w1 = tables_and_log w \<Longrightarrow> refuses_cleanly w x"
  by (simp add: refuses_cleanly_def)

lemma rate_limit_refuses:
  assumes "\<And>w. refuses_cleanly w (next w)"
  shows "refuses_cleanly w (RateLimitMiddleware ps k n t e r u next w)"
proof (cases ps)
  case (Some api)
  let ?key = "k @ '':'' @ (if u \<noteq> [] then u else hr_client_ip r)"
  obtain a w1 where c: "on_bus (CheckRateLimit api e ?key n t) w = (a, w1)" by (rule prod.exhaust)
  then have same: "tables_and_log w1 = tables_and_log w"
    by (auto simp: on_bus_def tables_and_log_def split: prod.splits dest: CheckRateLimit_log)
  have "refuses_cleanly w (next w1)" by (rule refuses_later [OF assms same])
  then show ?thesis
    using c same assms [of w] Some
    by (auto simp: RateLimitMiddleware_def Let_def split: sum.splits bool.splits intro: refuses_frame)
qed (simp add: RateLimitMiddleware_def assms)

lemma auth_refuses: "(\<And>u. refuses_cleanly w (next u w)) \<Longrightarrow> refuses_cleanly w (AuthMiddleware d e r next w)"
  by (auto simp: AuthMiddleware_def refuses_refl split: sum.splits)

lemma run_route_refuses:
  assumes "lossless e"
  shows "refuses_cleanly w (run_route d e r p w)"
proof (cases "rooms_route p")
  case True
  obtain resp w' where run: "run_route d e r p w = (resp, w')" by (rule prod.exhaust)
  note outcome = rooms_run [OF True run]
  show ?thesis
  proof (cases "token_user d e r w")
    case None
    then show ?thesis using outcome by (simp add: run refuses_refl)
  next
    case (Some u)
    then have "(resp, w') = rooms_handler d e r p (u_id u) w" using outcome by simp
    then show ?thesis using rooms_handler_refuses [OF assms, of w d r p "u_id u"] by (simp add: run)
  qed
next
  case False
  show ?thesis
    by (cases p) (use False in \<open>auto simp: auth_group_def Let_def refuses_refl
      intro!: rate_limit_refuses auth_refuses account_handlers_refuse [OF assms]\<close>)
qed

text \<open>
  C7. A request that is answered with an error has changed nothing: for every route, when the answer has a
  status from 400 on, the tables are as they were and nothing was published, whatever statement of the database
  or command of Redis failed on the way and at which point of a transaction, as long as the database does not
  report a statement or a commit that it applied as failed.
\<close>

theorem refused_requests_change_nothing:
  assumes "serve d e r w = (resp, w')" "400 \<le> status resp" "lossless e"
  shows "w_db w' = w_db w \<and> published (w_bus w') = published (w_bus w)"
  using assms(1)
proof (cases rule: serve_cases)
  case (ran p resp0)
  have "refuses_cleanly w (resp0, w')" using run_route_refuses [OF assms(3), of w d r p] ran(2) by simp
  then show ?thesis using ran(3) assms(2) by (simp add: refuses_cleanly_def tables_and_log_def)
qed (use assms(2) in simp_all)


section \<open>Frames that are refused\<close>

lemma checkDedup_db: "checkDedup ps e u c w = (r, w') \<Longrightarrow> tables_and_log w' = tables_and_log w"
  by (drule checkDedup_frame) (simp add: tables_and_log_def)

lemma SendMessage_error: "lossless e \<Longrightarrow> SendMessage ps e inp w = (Inl x, w') \<Longrightarrow> tables_and_log w' = tables_and_log w"
proof -
  assume e: "lossless e" and run: "SendMessage ps e inp w = (Inl x, w')"
  have new: "tables_and_log w2 = tables_and_log w1" if "send_new ps e inp w1 = (Inl x, w2)" for w1 w2
    using that db_exec_error [OF e]
    by (auto simp: send_new_def Let_def on_db_def MessageRepo_Create_def tables_and_log_def
        split: if_splits sum.splits bool.splits prod.splits)
  obtain y w1 where d: "checkDedup ps e (in_user inp) (in_client inp) w = (y, w1)" by (rule prod.exhaust)
  show ?thesis
    using run new [of w w'] new [of w1 w'] checkDedup_db [OF d]
    by (auto simp: SendMessage_def d split: if_splits option.splits)
qed

lemma EditMessage_error: "lossless e \<Longrightarrow> EditMessage ps e m u t w = (Inl x, w') \<Longrightarrow> tables_and_log w' = tables_and_log w"
  by (auto simp: EditMessage_def edit_write_def on_db_def MessageRepo_Update_def Let_def tables_and_log_def
      split: sum.splits prod.splits dest: db_exec_error)

lemma DeleteMessage_error: "lossless e \<Longrightarrow> DeleteMessage ps e m u w = (Inl x, w') \<Longrightarrow> tables_and_log w' = tables_and_log w"
  by (auto simp: DeleteMessage_def on_db_def MessageRepo_Delete_def tables_and_log_def
      split: sum.splits prod.splits dest: db_exec_error)

lemma Reaction_error:
  "lossless e \<Longrightarrow> AddReaction e m r u w = (Inl x, w') \<Longrightarrow> tables_and_log w' = tables_and_log w"
  "lossless e \<Longrightarrow> RemoveReaction e m r u w = (Inl x, w') \<Longrightarrow> tables_and_log w' = tables_and_log w"
  by (auto simp: AddReaction_def RemoveReaction_def on_db_def tables_and_log_def
      split: sum.splits prod.splits dest: UpdateReactionsTx_error)

lemmas operation_errors = SendMessage_error EditMessage_error DeleteMessage_error Reaction_error

definition acknowledged :: "env \<Rightarrow> string \<Rightarrow> client_message \<Rightarrow> hub \<Rightarrow> hub \<Rightarrow> bool" where
  "acknowledged e i msg h h' \<longleftrightarrow> h' \<in> range (\<lambda>(sid, st). sendAck e i (cm_id msg) sid st h)"

lemma acknowledged_ack [simp]: "acknowledged e i msg h (sendAck e i (cm_id msg) sid st h)"
  by (auto simp: acknowledged_def intro: rev_image_eqI [of "(sid, st)"])

lemma changes_acknowledged:
  assumes "lossless e"
  shows "tables_and_log (fst (handleChatMessage ps e i msg (w, h))) = tables_and_log w \<or>
      acknowledged e i msg h (snd (handleChatMessage ps e i msg (w, h)))"
    "tables_and_log (fst (handleReaction e i msg (w, h))) = tables_and_log w \<or>
      acknowledged e i msg h (snd (handleReaction e i msg (w, h)))"
    "tables_and_log (fst (handleEdit ps e i msg (w, h))) = tables_and_log w \<or>
      acknowledged e i msg h (snd (handleEdit ps e i msg (w, h)))"
    "tables_and_log (fst (handleDelete ps e i msg (w, h))) = tables_and_log w \<or>
      acknowledged e i msg h (snd (handleDelete ps e i msg (w, h)))"
  by (auto simp: handleChatMessage_def handleReaction_def handleEdit_def handleDelete_def Let_def
      split: option.splits sum.splits prod.splits dest: operation_errors [OF assms])


lemma subscribe_world [simp]: "fst (handleSubscribe e i msg (w, h)) = w"
  by (auto simp: handleSubscribe_def Let_def split: option.splits prod.splits)

lemma quiet_handlers:
  "fst (handleUnsubscribe i msg (w, h)) = w" "fst (handleTyping e i msg (w, h)) = w" "fst (handlePing e i (w, h)) = w"
  "snd (handleReadReceipt e i msg (w, h)) = h"
  by (auto simp: handleUnsubscribe_def handleTyping_def handlePing_def handleReadReceipt_def split: option.splits)

lemma presence_frame_db:
  "w_db (fst (handlePresence ps e i msg (w, h))) = w_db w"
  "tables_and_log (fst (handlePresence ps e i msg (w, h))) = tables_and_log w \<or> snd (handlePresence ps e i msg (w, h)) = h"
  by (auto simp: handlePresence_def PresenceService_SetPresence_def on_bus_def split_beta split: option.splits)


section \<open>Examples\<close>

text \<open>The commit of the transaction of a leaving member fails.\<close>

definition broken_env :: env where
  "broken_env = sample_env\<lparr>db_fault := (\<lambda>q. if q = ''leave_room_tx.commit'' then Some (Rejected (Err ''conn closed'')) else None)\<rparr>"

lemma broken_env_simps [simp]:
  "now broken_env = now sample_env" "redis_fault broken_env = redis_fault sample_env" "new_uuid broken_env = new_uuid sample_env"
  "redis_now broken_env = redis_now sample_env" "db_now broken_env = db_now sample_env"
  "db_fault broken_env q = (if q = ''leave_room_tx.commit'' then Some (Rejected (Err ''conn closed'')) else None)"
  by (simp_all add: broken_env_def)

lemma broken_lossless: "lossless broken_env"
  by (simp add: lossless_def)

lemma sample_env_calm: "db_fault sample_env q = None"
  by (simp add: sample_env_def)

lemma broken_user: "token_user sample_http broken_env (bob_asks verb p) sample_world = Some (sample_user ''bob'')"
proof -
  have "subject broken_env c (w :: ref_redis world) = subject sample_env c w" for c w
    by (simp add: subject_def UserRepo_GetByID_def db_query_def sample_env_calm split: option.splits)
  moreover have "jti_blacklisted s broken_env c w = jti_blacklisted s sample_env c w" for s :: "ref_redis auth_deps" and c w
    by (simp add: jti_blacklisted_def blacklisted_def IsTokenInvalidated_def exists_key_def redis_read_def split: option.splits)
  ultimately have "ValidateToken s broken_env t w = ValidateToken s sample_env t w" for s :: "ref_redis auth_deps" and t w
    by (simp add: ValidateToken_def validateToken_def parsed_def cong: sum.case_cong if_cong)
  then show ?thesis using bob_user [of verb p] by (simp add: token_user_def)
qed

lemma sample_http_simps: "hd_cache sample_http = Some ref_api" "hd_ps sample_http = Some ref_api"
  by (simp_all add: sample_http_def)

lemma refused_requests_change_nothing_witness:
  "\<exists>resp w'. serve sample_http broken_env (bob_asks ''POST'' (LeaveRoute ''r1'')) sample_world = (resp, w') \<and>
     status resp = 400 \<and> w_db w' = sample_db \<and> published (w_bus w') = []"
proof -
  let ?r = "bob_asks ''POST'' (LeaveRoute ''r1'')"
  obtain resp0 w0 where run: "run_route sample_http broken_env ?r (LeaveRoute ''r1'') sample_world = (resp0, w0)" by (rule prod.exhaust)
  have "GetMember broken_env ''r1'' ''bob'' sample_db = GetMember sample_env ''r1'' ''bob'' sample_db"
    by (simp add: GetMember_def db_query_def sample_env_calm)
  then have "LeaveRoom (Some ref_api) (Some ref_api) broken_env ''r1'' ''bob'' sample_world = (Inl (Err ''conn closed''), sample_world)"
    by (simp add: LeaveRoom_def bob_lookups on_db_def LeaveRoomTx_def tx_begin_def tx_exec_def tx_commit_def mark_left_def recount_members_def sample_world_def)
  then have "status resp0 = 400"
    using rooms_run [OF _ run] by (simp add: broken_user Handlers_LeaveRoom_def with_user_def sample_http_simps sample_user_def)
  moreover obtain resp w' where s: "serve sample_http broken_env ?r sample_world = (resp, w')" by (rule prod.exhaust)
  moreover from s run have "status resp = status resp0"
    by (simp add: serve_def CORSMiddleware_def RequestIDMiddleware_def add_headers_def Let_def del: run_route.simps) auto
  ultimately show ?thesis using refused_requests_change_nothing [OF s _ broken_lossless] by simp
qed


end
