(* ===== verification/Observability.thy ===== *)
theory Observability
  imports Error_Paths
begin

text \<open>
  What \<open>main\<close> sets up around the services: \<open>internal/logging\<close>, \<open>internal/tracing\<close>, \<open>internal/metrics\<close>, the
  connection of \<open>internal/repository/db.go\<close>, the Redis client of \<open>internal/pubsub\<close> and the keys of the
  authentication service. zerolog, Prometheus, pgx and go-redis are parameters.
\<close>

section \<open>Logging\<close>

datatype log_output = Stdout | LogFile string

text \<open>\<open>ConsoleWriter\<close> or JSON; the level; the fields of every line; whether \<open>Close\<close> closes a file.\<close>

record logger =
  lg_output :: log_output
  lg_console :: bool
  lg_level :: int
  lg_fields :: "(string \<times> string) list"
  lg_closes :: bool

record zerolog =
  ParseLevel :: "string \<Rightarrow> int option"
  InfoLevel :: int
  OpenFile :: "string \<Rightarrow> bool"

definition parseLevel :: "zerolog \<Rightarrow> string \<Rightarrow> int" where
  "parseLevel z level = (case ParseLevel z level of None \<Rightarrow> InfoLevel z | Some l \<Rightarrow> l)"

definition NewLogger :: "zerolog \<Rightarrow> config \<Rightarrow> logger" where
  "NewLogger z c =
     (let l = Logging c;
          file = log_output l = ''file'' \<and> log_file l \<noteq> [] \<and> OpenFile z (log_file l)
      in \<lparr>lg_output = (if file then LogFile (log_file l) else Stdout), lg_console = (log_format l \<noteq> ''json''),
          lg_level = parseLevel z (log_level l),
          lg_fields = [(''app'', app_name (App c)), (''version'', app_version (App c)), (''environment'', app_environment (App c))],
          lg_closes = file\<rparr>)"

section \<open>Tracing\<close>

record span =
  sp_name :: string
  sp_start :: gotime

text \<open>
  \<open>Start\<close> returns the context, here the list of the spans that it carries, and the function that ends the span;
  what either logs is a list of lines. The duration is written in milliseconds, from whole microseconds.
\<close>

datatype trace_line = SpanStarted string | SpanEnded string rat

definition Tracer_Start :: "bool \<Rightarrow> gotime \<Rightarrow> string \<Rightarrow> span list \<Rightarrow> trace_line list \<times> span list \<times> (gotime \<Rightarrow> trace_line list)" where
  "Tracer_Start enabled t name ctx =
     (if \<not> enabled then ([], ctx, \<lambda>_. [])
      else ([SpanStarted name], \<lparr>sp_name = name, sp_start = t\<rparr> # ctx,
        \<lambda>t'. [SpanEnded name (of_int ((t' - t) sdiv 1000) / 1000)]))"

text \<open>The global tracer, which is disabled until \<open>InitTracer\<close>.\<close>

definition globalTracer :: bool where
  "globalTracer = False"

definition InitTracer :: "config \<Rightarrow> bool" where
  "InitTracer c = tracing_enabled (Tracing c)"

section \<open>Metrics\<close>

datatype collector = Gauge string string | CounterVec string string "string list" | HistogramVec string string "string list"

definition collectors :: "collector list" where
  "collectors =
     [Gauge ''websocket_connections_active'' ''Number of active WebSocket connections'',
      CounterVec ''websocket_messages_sent_total'' ''Total number of messages sent'' [''room_type''],
      CounterVec ''websocket_messages_received_total'' ''Total number of messages received'' [''room_type''],
      CounterVec ''websocket_connection_errors_total'' ''Total number of WebSocket connection errors'' [''error_type''],
      Gauge ''room_subscriptions_active'' ''Number of active room subscriptions'',
      CounterVec ''auth_attempts_total'' ''Total number of authentication attempts'' [''status''],
      CounterVec ''rate_limited_requests_total'' ''Total number of rate-limited requests'' [''key''],
      HistogramVec ''db_query_duration_seconds'' ''Duration of database queries'' [''query_type''],
      HistogramVec ''redis_operation_duration_seconds'' ''Duration of Redis operations'' [''operation'']]"

text \<open>\<open>prometheus.Register\<close> on a registry.\<close>

datatype register_result = Registered | AlreadyRegistered | RegisterFailed err

type_synonym 'g prometheus = "collector \<Rightarrow> 'g \<Rightarrow> register_result \<times> 'g"

fun register_all :: "'g prometheus \<Rightarrow> collector list \<Rightarrow> 'g \<Rightarrow> err option \<times> 'g" where
  "register_all reg [] g = (None, g)"
| "register_all reg (c # cs) g =
     (case reg c g of
        (RegisterFailed x, g') \<Rightarrow> (Some x, g')
      | (_, g') \<Rightarrow> register_all reg cs g')"

record 'g metrics_package =
  registered_once :: bool
  registerErr :: "err option"
  registry :: 'g

text \<open>\<open>Start\<close> of a \<open>MetricsServer\<close>: an error, or the address that it listens on for \<open>/metrics\<close>.\<close>

definition MetricsServer_Start :: "'g prometheus \<Rightarrow> int \<Rightarrow> 'g metrics_package \<Rightarrow> string result \<times> 'g metrics_package" where
  "MetricsServer_Start reg port m =
     (let m' = (if registered_once m then m
                else let (x, g) = register_all reg collectors (registry m)
                  in \<lparr>registered_once = True, registerErr = x, registry = g\<rparr>)
      in case registerErr m' of
           Some x \<Rightarrow> (Inl x, m')
         | None \<Rightarrow> (Inr ('':'' @ FormatInt10 port), m'))"

text \<open>
  The collectors are registered once: a second start of the metrics server leaves the registry alone and has the
  outcome of the first one.
\<close>

theorem metrics_registered_once:
  "MetricsServer_Start reg port (snd (MetricsServer_Start reg port' m)) =
    (case fst (MetricsServer_Start reg port' m) of Inl x \<Rightarrow> Inl x | Inr _ \<Rightarrow> Inr ('':'' @ FormatInt10 port),
     snd (MetricsServer_Start reg port' m))"
  by (simp add: MetricsServer_Start_def Let_def split: prod.splits option.splits)

section \<open>The database\<close>

definition dsn :: "postgresql_config \<Rightarrow> string" where
  "dsn p = ''postgres://'' @ pg_user p @ '':'' @ pg_password p @ ''@'' @ pg_host p @ '':'' @ FormatInt10 (pg_port p) @ ''/'' @
     pg_database p @ ''?sslmode='' @ SSLMode p"

record pool_config =
  MaxConns :: "32 word"
  MinConns :: "32 word"
  MaxConnLifetime :: gotime
  MaxConnLifetimeJitter :: gotime
  MaxConnIdleTime :: gotime
  HealthCheckPeriod :: gotime

definition pool_settings :: "postgresql_config \<Rightarrow> pool_config" where
  "pool_settings p = \<lparr>MaxConns = word_of_int (MaxOpenConns p), MinConns = word_of_int (pg_MinIdleConns p),
     MaxConnLifetime = ConnMaxLifetime p, MaxConnLifetimeJitter = 5 * minute, MaxConnIdleTime = 30 * minute,
     HealthCheckPeriod = minute\<rparr>"

record pgxpool =
  ParseConfig :: "string \<Rightarrow> unit result"
  NewWithConfig :: "string \<Rightarrow> pool_config \<Rightarrow> unit result"
  Ping :: "string \<Rightarrow> unit result"

definition NewPostgresDB :: "pgxpool \<Rightarrow> config \<Rightarrow> (string \<times> pool_config) result" where
  "NewPostgresDB x c =
     (let d = dsn (Postgresql c); s = pool_settings (Postgresql c) in
      case ParseConfig x d of
        Inl e \<Rightarrow> Inl (Err (''failed to parse config: '' @ Error e))
      | Inr _ \<Rightarrow>
         (case NewWithConfig x d s of
            Inl e \<Rightarrow> Inl (Err (''failed to create pool: '' @ Error e))
          | Inr _ \<Rightarrow>
             (case Ping x d of
                Inl e \<Rightarrow> Inl (Err (''failed to ping database: '' @ Error e))
              | Inr _ \<Rightarrow> Inr (d, s))))"

text \<open>
  The parts of the connection string are not escaped: two configurations with different passwords and hosts give
  the same string, so that a password with an at sign may be read as a part of the host.
\<close>

theorem dsn_ambiguous:
  "\<exists>p q. dsn p = dsn q \<and> pg_password p \<noteq> pg_password q \<and> pg_host p \<noteq> pg_host q"
proof -
  let ?p = "\<lparr>pg_host = ''db'', pg_port = 5432, pg_database = ''chat'', pg_user = ''chat'', pg_password = ''p@x'', SSLMode = ''disable'',
    MaxOpenConns = 50, MaxIdleConns = 10, pg_MinIdleConns = 5, ConnMaxLifetime = 0\<rparr>"
  have "dsn ?p = dsn (?p\<lparr>pg_password := ''p'', pg_host := ''x@db''\<rparr>)" by (simp add: dsn_def)
  then show ?thesis by (intro exI [of _ ?p] exI [of _ "?p\<lparr>pg_password := ''p'', pg_host := ''x@db''\<rparr>"]) simp
qed

section \<open>Redis\<close>

record redis_options =
  ro_addr :: string
  ro_password :: string
  ro_db :: int
  ro_pool :: int

text \<open>\<open>pubsub.Config\<close>. Without one the defaults hold; of several addresses the first is taken.\<close>

record pubsub_config =
  pc_addrs :: "string list"
  pc_password :: string
  pc_db :: int
  pc_pool :: int

definition NewRedisClient :: "pubsub_config option \<Rightarrow> redis_options" where
  "NewRedisClient given =
     (let c = (case given of None \<Rightarrow> \<lparr>pc_addrs = [''localhost:6379''], pc_password = [], pc_db = 0, pc_pool = 10\<rparr> | Some c \<Rightarrow> c)
      in \<lparr>ro_addr = (case pc_addrs c of [] \<Rightarrow> ''localhost:6379'' | a # _ \<Rightarrow> a), ro_password = pc_password c,
          ro_db = pc_db c, ro_pool = pc_pool c\<rparr>)"

definition redisCfg :: "redis_config \<Rightarrow> pubsub_config" where
  "redisCfg c = \<lparr>pc_addrs = Addrs c, pc_password = rd_password c, pc_db = rd_DB c, pc_pool = PoolSize c\<rparr>"

section \<open>The keys of the authentication service\<close>

text \<open>A key that does not parse is nil, without an error.\<close>

record 'key pem =
  ParsePrivateKey :: "string \<Rightarrow> 'key option"
  ParsePublicKey :: "string \<Rightarrow> 'key option"

definition NewAuthService :: "'key pem \<Rightarrow> ('key option \<Rightarrow> 'key option \<Rightarrow> jwt_api) \<Rightarrow> bcrypt_api \<Rightarrow> config \<Rightarrow> 'r auth_deps" where
  "NewAuthService k lib b c =
     (let rsaPriv = ParsePrivateKey k (PrivateKey (JWT (Auth c))); rsaPub = ParsePublicKey k (PublicKey (JWT (Auth c)))
      in \<lparr>jwt = lib rsaPriv rsaPub, bcrypt = b, invalidator = None, auth_cfg = Auth c\<rparr>)"

definition SetTokenInvalidator :: "'r redis_api \<Rightarrow> 'r auth_deps \<Rightarrow> 'r auth_deps" where
  "SetTokenInvalidator ps s = s\<lparr>invalidator := Some ps\<rparr>"

end
