(* ===== verification/Pumps.thy ===== *)
theory Pumps
  imports Server_Properties
begin

text \<open>
  The two goroutines of a connection as the loops they are, \<open>ReadPump\<close> and \<open>WritePump\<close> of
  \<open>internal/server/server.go\<close>, over the events of the connection; what they do to the hub are steps of it, and a
  frame that was accepted for a connection goes out on it in its turn.
\<close>

section \<open>WritePump\<close>

text \<open>
  What the \<open>select\<close> takes: the context is done, a frame comes from the channel, the ticker fires. A flag says
  whether the connection takes the write: \<open>NextWriter\<close> and \<open>Close\<close> for a frame, \<open>WriteMessage\<close> for a ping.
\<close>

datatype write_event = ContextDone | SendFrame bool | Tick bool

text \<open>A case of the \<open>select\<close> can be taken only when it is ready.\<close>

fun ready :: "write_event \<Rightarrow> client \<Rightarrow> bool" where
  "ready ContextDone c = c_cancelled c"
| "ready (SendFrame ok) c = (c_send c \<noteq> [])"
| "ready (Tick ok) c = True"

fun write_turn :: "write_event \<Rightarrow> client \<Rightarrow> client" where
  "write_turn ContextDone c = (drainAndClose c)\<lparr>c_writing := False\<rparr>"
| "write_turn (SendFrame ok) c =
     (if ok then c\<lparr>c_send := tl (c_send c), c_wire := c_wire c @ [hd (c_send c)]\<rparr>
      else c\<lparr>c_send := tl (c_send c), c_writing := False\<rparr>)"
| "write_turn (Tick ok) c = (if ok then c else c\<lparr>c_writing := False\<rparr>)"

text \<open>Events that are not ready do not happen; after the loop has returned nothing is written.\<close>

fun WritePump :: "write_event list \<Rightarrow> client \<Rightarrow> client" where
  "WritePump [] c = c"
| "WritePump (ev # evs) c =
     (if \<not> c_writing c then c
      else if ready ev c then WritePump evs (write_turn ev c)
      else WritePump evs c)"

text \<open>The frames of a connection, those that went out and those that wait.\<close>

definition stream :: "client \<Rightarrow> json list" where
  "stream c = c_wire c @ c_send c"

lemma write_turn_same [simp]:
  "c_user (write_turn ev c) = c_user c" "c_rooms (write_turn ev c) = c_rooms c" "c_closed (write_turn ev c) = c_closed c"
  "c_reading (write_turn ev c) = c_reading c" "c_cancelled (write_turn ev c) = c_cancelled c" "c_ip (write_turn ev c) = c_ip c"
  by (cases ev; simp add: drainAndClose_def)+

lemma write_turn_stream:
  "ready ev c \<Longrightarrow> c_writing (write_turn ev c) \<Longrightarrow> stream (write_turn ev c) = stream c"
  by (cases ev) (auto simp: stream_def split: if_splits)

lemma write_turn_stops:
  "ready ev c \<Longrightarrow> \<not> c_writing (write_turn ev c) \<Longrightarrow>
   c_wire (write_turn ev c) = c_wire c \<and> c_send (write_turn ev c) \<in> {c_send c, tl (c_send c)} \<or> \<not> c_writing c"
  by (cases ev) (auto simp: drainAndClose_def split: if_splits)

lemma write_turn_ready_frame:
  "ready (SendFrame True) c \<Longrightarrow> write_turn (SendFrame True) c = c\<lparr>c_send := tl (c_send c), c_wire := c_wire c @ [hd (c_send c)]\<rparr>"
  by simp

text \<open>
  The write loop puts frames on the connection in the order of the channel, each once: what went out is what
  had gone out before and then a prefix of the channel, and while the loop runs the rest is still in the
  channel; when it returns at most one frame, the one it was writing, is missing from both.
\<close>

theorem WritePump_in_order:
  "\<exists>k. c_wire (WritePump evs c) = c_wire c @ take k (c_send c) \<and>
     (if c_writing (WritePump evs c) then c_send (WritePump evs c) = drop k (c_send c)
      else c_send (WritePump evs c) \<in> {drop k (c_send c), drop (Suc k) (c_send c)})"
proof (induction evs c rule: WritePump.induct)
  case (1 c)
  show ?case by (intro exI [of _ 0]) simp
next
  case (2 ev evs c)
  show ?case
  proof (cases "c_writing c \<and> ready ev c")
    case True
    let ?c = "write_turn ev c"
    obtain k where k: "c_wire (WritePump evs ?c) = c_wire ?c @ take k (c_send ?c)"
        "if c_writing (WritePump evs ?c) then c_send (WritePump evs ?c) = drop k (c_send ?c)
         else c_send (WritePump evs ?c) \<in> {drop k (c_send ?c), drop (Suc k) (c_send ?c)}"
      using "2.IH"(1) True by blast
    show ?thesis
    proof (cases "c_writing ?c")
      case go: True
      have "c_wire ?c = c_wire c \<and> c_send ?c = c_send c \<or>
          (\<exists>d q. c_send c = d # q \<and> c_wire ?c = c_wire c @ [d] \<and> c_send ?c = q)"
        using True go by (cases ev; cases "c_send c") (auto split: if_splits)
      then show ?thesis
      proof (elim disjE exE conjE)
        assume "c_wire ?c = c_wire c" "c_send ?c = c_send c"
        then show ?thesis using True k by (intro exI [of _ k]) (auto split: if_splits)
      next
        fix d q assume "c_send c = d # q" "c_wire ?c = c_wire c @ [d]" "c_send ?c = q"
        then show ?thesis using True k by (intro exI [of _ "Suc k"]) (auto split: if_splits)
      qed
    next
      case False
      then have "WritePump evs ?c = ?c" by (cases evs) simp_all
      then show ?thesis
        using True write_turn_stops [of ev c] False by (intro exI [of _ 0]) (auto simp: drop_Suc)
    qed
  next
    case False
    then show ?thesis using "2.IH"(2) by (cases "c_writing c") (auto intro: exI [of _ 0])
  qed
qed

section \<open>The loops are runs of the hub and of the server\<close>

lemma on_client_cong: "f (h_client h i) = g (h_client h i) \<Longrightarrow> on_client i f h = on_client i g h"
  by (simp add: on_client_def)

lemma on_client_id: "f (h_client h i) = h_client h i \<Longrightarrow> on_client i f h = h"
  by (simp add: on_client_def)

lemma on_client_twice: "on_client i f (on_client i g h) = on_client i (\<lambda>c. f (g c)) h"
  by (simp add: on_client_def)

lemma write_turn_steps:
  assumes "\<not> h_panicked h" "c_writing (h_client h i)" "ready ev (h_client h i)"
  shows "hub_step\<^sup>*\<^sup>* h (on_client i (write_turn ev) h)"
proof (cases ev)
  case ContextDone
  then show ?thesis using assms write_ends [of h i] by (simp add: on_client_def r_into_rtranclp)
next
  case (SendFrame ok)
  then obtain d q where q: "c_send (h_client h i) = d # q" using assms(3) by (cases "c_send (h_client h i)") auto
  show ?thesis
  proof (cases ok)
    case True
    then show ?thesis
      using SendFrame write_next [OF assms(1,2) q] q by (simp add: on_client_def r_into_rtranclp)
  next
    case False
    then show ?thesis
      using SendFrame write_fails [OF assms(1,2), of q] q by (simp add: on_client_def r_into_rtranclp)
  qed
next
  case (Tick ok)
  then show ?thesis
    using write_fails [OF assms(1,2), of "c_send (h_client h i)"]
    by (cases ok) (simp_all add: on_client_def r_into_rtranclp)
qed

lemma WritePump_steps: "\<not> h_panicked h \<Longrightarrow> hub_step\<^sup>*\<^sup>* h (on_client i (WritePump evs) h)"
proof (induction evs arbitrary: h)
  case Nil
  then show ?case by (simp add: on_client_id)
next
  case (Cons ev evs)
  show ?case
  proof (cases "c_writing (h_client h i) \<and> ready ev (h_client h i)")
    case True
    let ?h = "on_client i (write_turn ev) h"
    have "hub_step\<^sup>*\<^sup>* h ?h" using write_turn_steps [of h i ev] Cons.prems True by simp
    moreover have "hub_step\<^sup>*\<^sup>* ?h (on_client i (WritePump evs) ?h)" using Cons by simp
    moreover have "on_client i (WritePump evs) ?h = on_client i (WritePump (ev # evs)) h"
      using True by (simp add: on_client_def)
    ultimately show ?thesis by (metis rtranclp_trans)
  next
    case False
    then have "on_client i (WritePump (ev # evs)) h = (if c_writing (h_client h i) then on_client i (WritePump evs) h else h)"
      by (auto simp: on_client_def)
    then show ?thesis using Cons.IH [OF Cons.prems] by (metis rtranclp.rtrancl_refl)
  qed
qed

section \<open>ReadPump\<close>

text \<open>
  What \<open>ReadMessage\<close> returns: a frame, or an error, which is also what a frame above the read limit, a missed
  pong and a closed connection are. A panic ends the program.
\<close>

datatype read_event = Received env "json option" | ReadFailed

fun ReadPump :: "'r server_deps \<Rightarrow> string \<Rightarrow> read_event list \<Rightarrow> 'r node \<Rightarrow> 'r node" where
  "ReadPump s i [] n = n"
| "ReadPump s i (Received e data # evs) n =
     (if h_panicked (n_hub n) then n
      else let (w, h) = handleMessage (sd_ps s) e i data (n_world n, n_hub n)
        in ReadPump s i evs (n\<lparr>n_world := w, n_hub := h\<rparr>))"
| "ReadPump s i (ReadFailed # evs) n = (if h_panicked (n_hub n) then n else connection_ends i n)"

lemma connection_ends_reading: "\<not> c_reading (h_client (n_hub (connection_ends i n)) i)"
  by (simp add: connection_ends_def reader_leaves_slots)

lemma connection_ends_ip: "ipConnections (connection_ends i n) = ipConnections (bump (c_ip (h_client (n_hub n) i)) (- 1) n)"
  by (simp add: connection_ends_def bump_def split: option.splits)

lemma ReadPump_panicked: "h_panicked (n_hub n) \<Longrightarrow> ReadPump s i evs n = n"
  by (cases evs rule: list.exhaust; cases "hd evs") auto

text \<open>
  C28. The read loop of a connection is a run of the server: each frame is one step and so is its end, after
  which nothing more is read. Unless the program has panicked, the connection is still read exactly when no read
  has failed, and its address has got its slot back exactly once when one has.
\<close>

theorem ReadPump_runs:
  assumes "i \<in> h_made (n_hub n)" "c_reading (h_client (n_hub n) i)"
  shows "(server_step s)\<^sup>*\<^sup>* n (ReadPump s i evs n) \<and>
    (if h_panicked (n_hub (ReadPump s i evs n)) then True
     else c_reading (h_client (n_hub (ReadPump s i evs n)) i) = (ReadFailed \<notin> set evs) \<and>
       ipConnections (ReadPump s i evs n) =
         ipConnections (if ReadFailed \<in> set evs then bump (c_ip (h_client (n_hub n) i)) (- 1) n else n))"
  using assms
proof (induction s i evs n rule: ReadPump.induct)
  case (2 s i e data evs n)
  show ?case
  proof (cases "h_panicked (n_hub n)")
    case False
    obtain w h where run: "handleMessage (sd_ps s) e i data (n_world n, n_hub n) = (w, h)" by (rule prod.exhaust)
    let ?n = "n\<lparr>n_world := w, n_hub := h\<rparr>"
    have same: "h_made h = h_made (n_hub n)" "c_reading (h_client h i) = c_reading (h_client (n_hub n) i)"
        "c_ip (h_client h i) = c_ip (h_client (n_hub n) i)"
      using slots_handleMessage [of "sd_ps s" e i data "n_world n" "n_hub n"] run by (auto simp: slots_def fun_eq_iff)
    have "server_step s n ?n" using server_step.client_frame [OF False "2.prems" run] .
    moreover have "ipConnections (bump ip k ?n) = ipConnections (bump ip k n)" for ip k
      by (simp add: bump_def split: option.splits)
    moreover note IH = "2.IH" [OF False run [symmetric] refl]
    ultimately show ?thesis
      using IH "2.prems" same False run by (auto intro: converse_rtranclp_into_rtranclp)
  qed simp
next
  case (3 s i evs n)
  then show ?case
    using server_step.connection_over [of n i s] connection_ends_reading [of i n] connection_ends_ip [of i n]
    by (auto intro: r_into_rtranclp)
qed simp


section \<open>First in, first out\<close>

text \<open>What a step may do to the frames of a connection that exists.\<close>

definition extends :: "client \<Rightarrow> client \<Rightarrow> bool" where
  "extends c c' \<longleftrightarrow> (\<exists>ds. c_wire c' = c_wire c @ ds) \<and>
     (c_writing c' \<longrightarrow> c_writing c \<and> (\<exists>ds. stream c' = stream c @ ds))"

lemma extends_same: "c_wire c' = c_wire c \<Longrightarrow> c_send c' = c_send c \<Longrightarrow> c_writing c' = c_writing c \<Longrightarrow> extends c c'"
  by (simp add: extends_def stream_def)

lemma extends_refl [simp]: "extends c c"
  by (simp add: extends_same)

lemma extends_trans: "extends c1 c2 \<Longrightarrow> extends c2 c3 \<Longrightarrow> extends c1 c3"
  by (fastforce simp: extends_def)

lemma extends_push [simp]: "extends c (push d c)"
  by (simp add: extends_def stream_def push_def)

lemma cleanup_stream:
  "c_wire (h_client (cleanupClient i h) j) = c_wire (h_client h j)" "c_send (h_client (cleanupClient i h) j) = c_send (h_client h j)"
  "c_writing (h_client (cleanupClient i h) j) = c_writing (h_client h j)"
  by (simp_all add: cleanupClient_def Let_def split_beta drop_client_frame close_client_def dec_gauges_def)

lemma cleanup_extends [simp]: "extends (h_client h j) (h_client (cleanupClient i h) j)"
  by (rule extends_same) (simp_all add: cleanup_stream)

lemma close_and_cancel_extends [simp]: "extends c (close_and_cancel c)"
  by (rule extends_same) (simp_all add: close_and_cancel_def)

lemma deliver_send_extends: "extends (h_client h j) (h_client (deliver_send i d h) j)"
  by (simp add: deliver_send_def remove_slow_frame)

lemma reply_extends: "extends (h_client h j) (h_client (reply i d h) j)"
  by (simp add: reply_def)

lemma registry_extends:
  "extends (h_client h j) (h_client (register_client i h) j)" "extends (h_client h j) (h_client (enqueue r d h) j)"
  "extends (h_client h j) (h_client (Hub_SubscribeToRoom i r h) j)" "extends (h_client h j) (h_client (Hub_UnsubscribeFromRoom i r h) j)"
  "extends (h_client h j) (h_client (CloseAll h) j)"
  by (auto simp: register_client_def enqueue_def Hub_SubscribeToRoom_def Hub_UnsubscribeFromRoom_def CloseAll_def intro: extends_same)

lemma reader_leaves_extends: "extends (h_client h j) (h_client (reader_leaves i h) j)"
proof -
  have "extends (h_client h j) (h_client (on_client i (\<lambda>c. c\<lparr>c_cancelled := True, c_reading := False\<rparr>) h) j)"
    by (auto intro: extends_same)
  then show ?thesis
    using extends_trans [OF _ cleanup_extends] by (simp add: reader_leaves_def Let_def)
qed

lemma hub_step_extends: "hub_step h h' \<Longrightarrow> j \<in> h_made h \<Longrightarrow> extends (h_client h j) (h_client h' j)"
proof (induction rule: hub_step.induct)
  case (take_unregister h i q)
  then show ?case using cleanup_extends [of "h\<lparr>h_unregister := q\<rparr>" j i] by simp
next
  case (take_register h i q)
  then show ?case using registry_extends(1) [of "h\<lparr>h_register := q\<rparr>" j i] by simp
next
  case (write_next h i d q)
  then show ?case by (simp add: extends_def stream_def)
next
  case (write_fails h i q)
  then show ?case by (simp add: extends_def)
next
  case (write_ends h i)
  then show ?case by (simp add: extends_def drainAndClose_def)
qed (auto simp: deliver_send_extends reply_extends registry_extends reader_leaves_extends)

lemma hub_step_made: "hub_step h h' \<Longrightarrow> h_made h \<subseteq> h_made h'"
  by (induction rule: hub_step.induct)
    (auto simp: register_client_def cleanupClient_def deliver_send_def remove_slow_frame reply_def enqueue_def drop_client_frame
      Hub_SubscribeToRoom_def Hub_UnsubscribeFromRoom_def CloseAll_def reader_leaves_slots Let_def split_beta dec_gauges_def)

text \<open>
  C19. Frames reach a client in the order in which they were queued for it, and each at most once: along any
  run of the hub, with any interleaving of deliveries, replies, presence and writes, what is on the wire of a
  connection is only ever extended, and as long as its writer runs nothing that was accepted for it is lost or
  overtaken, because the wire and the channel together are only ever extended at the end.
\<close>

theorem frames_in_order:
  assumes "hub_step\<^sup>*\<^sup>* h h'" "i \<in> h_made h"
  shows "(\<exists>ds. c_wire (h_client h' i) = c_wire (h_client h i) @ ds) \<and>
    (if c_writing (h_client h' i)
     then \<exists>ds. c_wire (h_client h' i) @ c_send (h_client h' i) = (c_wire (h_client h i) @ c_send (h_client h i)) @ ds else True)"
proof -
  have "i \<in> h_made h' \<and> extends (h_client h i) (h_client h' i)"
    using assms(1)
  proof (induction rule: rtranclp_induct)
    case (step h1 h2)
    then show ?case
      using hub_step_extends [of h1 h2 i] hub_step_made [of h1 h2] extends_trans by blast
  qed (simp add: assms(2))
  then show ?thesis by (auto simp: extends_def stream_def)
qed

section \<open>Examples\<close>

lemma hub2_client:
  "''a'' \<in> h_made hub2" "\<not> h_panicked hub2" "c_send (h_client hub2 ''a'') = []" "c_wire (h_client hub2 ''a'') = []"
  "c_writing (h_client hub2 ''a'')" "\<not> c_draining (h_client hub2 ''a'')"
  by (simp_all add: hub_eval)

lemma frames_in_order_witness:
  "\<exists>h'. hub_step\<^sup>*\<^sup>* hub2 h' \<and> c_wire (h_client h' ''a'') = [JNull] \<and>
     (\<exists>ds. c_wire (h_client h' ''a'') @ c_send (h_client h' ''a'') = (c_wire (h_client hub2 ''a'') @ c_send (h_client hub2 ''a'')) @ ds)"
proof -
  let ?h1 = "on_client ''a'' (push JNull) hub2"
  let ?h2 = "on_client ''a'' (\<lambda>c. c\<lparr>c_send := [], c_wire := c_wire c @ [JNull]\<rparr>) ?h1"
  have reply: "reply ''a'' JNull hub2 = ?h1" by (simp add: reply_def hub2_client sendCap_def)
  have 1: "hub_step hub2 ?h1" unfolding reply [symmetric] by (rule hub_step.replies [OF hub2_client(2,1)])
  have 2: "hub_step ?h1 ?h2"
    by (rule hub_step.write_next) (simp_all add: hub2_client push_def)
  have run: "hub_step\<^sup>*\<^sup>* hub2 ?h2" by (rule converse_rtranclp_into_rtranclp [OF 1 r_into_rtranclp [of hub_step, OF 2]])
  have w: "c_wire (h_client ?h2 ''a'') = [JNull]" "c_writing (h_client ?h2 ''a'')" by (simp_all add: hub2_client push_def)
  show ?thesis
    using run w(1) iffD1 [OF if_P [OF w(2)] frames_in_order [OF run hub2_client(1), THEN conjunct2]]
    by (intro exI [of _ ?h2] conjI)
qed

lemma ReadPump_runs_witness:
  "(server_step sample_server)\<^sup>*\<^sup>* sample_node (ReadPump sample_server ''b'' [ReadFailed] sample_node) \<and>
   \<not> c_reading (h_client (n_hub (ReadPump sample_server ''b'' [ReadFailed] sample_node)) ''b'') \<and>
   ipConnections (ReadPump sample_server ''b'' [ReadFailed] sample_node) ''10.0.0.1'' = 0"
proof -
  have b: "''b'' \<in> h_made (n_hub sample_node)" "c_reading (h_client (n_hub sample_node) ''b'')"
      "c_ip (h_client (n_hub sample_node) ''b'') = Some ''10.0.0.1''"
    by (simp_all add: sample_node_simps add_client_def NewClient_def)
  have "\<not> h_panicked (n_hub (ReadPump sample_server ''b'' [ReadFailed] sample_node))"
    by (simp add: sample_node_simps add_client_def NewHub_def connection_ends_def reader_leaves_def queueCap_def Let_def)
  then show ?thesis
    using ReadPump_runs [OF b(1,2), of sample_server "[ReadFailed]"] b(3) by (simp add: bump_def sample_node_simps)
qed

end
