(* ===== verification/Lifecycle.thy ===== *)
theory Lifecycle
  imports Pumps
begin

text \<open>
  The life of the WebSocket server: what \<open>CloseAll\<close> sets going and that it ends, the connections that it
  misses, and what the writers of connections leave unsent.
\<close>

section \<open>What time does to a connection\<close>

definition ages :: "client \<Rightarrow> client \<Rightarrow> bool" where
  "ages c c' \<longleftrightarrow> (c_cancelled c \<longrightarrow> c_cancelled c') \<and> (c_reading c' \<longrightarrow> c_reading c) \<and> (c_writing c' \<longrightarrow> c_writing c)"

lemma ages_refl [simp]: "ages c c"
  by (simp add: ages_def)

lemma ages_trans: "ages c1 c2 \<Longrightarrow> ages c2 c3 \<Longrightarrow> ages c1 c3"
  by (auto simp: ages_def)

lemma client_ages [simp]:
  "ages c (push d c)" "ages c (close_and_cancel c)" "ages c (close_client c)" "ages c (c\<lparr>c_rooms := rs\<rparr>)"
  by (simp_all add: ages_def push_def close_and_cancel_def close_client_def)

lemma cleanup_ages [simp]: "ages (h_client h j) (h_client (cleanupClient i h) j)"
  by (simp add: cleanupClient_def Let_def split_beta drop_client_frame dec_gauges_def)

lemma reader_leaves_ages: "ages (h_client h j) (h_client (reader_leaves i h) j)"
proof -
  have "ages (h_client h j) (h_client (on_client i (\<lambda>c. c\<lparr>c_cancelled := True, c_reading := False\<rparr>) h) j)"
    by (simp add: ages_def)
  then show ?thesis using ages_trans [OF _ cleanup_ages] by (simp add: reader_leaves_def Let_def)
qed

lemma hub_step_ages: "hub_step h h' \<Longrightarrow> j \<in> h_made h \<Longrightarrow> ages (h_client h j) (h_client h' j)"
proof (induction rule: hub_step.induct)
  case (take_unregister h i q)
  then show ?case using cleanup_ages [of "h\<lparr>h_unregister := q\<rparr>" j i] by simp
next
  case (write_next h i d q)
  then show ?case by (simp add: ages_def)
next
  case (write_fails h i q)
  then show ?case by (simp add: ages_def)
next
  case (write_ends h i)
  then show ?case by (simp add: ages_def drainAndClose_def)
qed (auto simp: register_client_def deliver_send_def remove_slow_frame reply_def enqueue_def Hub_SubscribeToRoom_def
    Hub_UnsubscribeFromRoom_def CloseAll_def reader_leaves_ages)

section \<open>Behaviours\<close>

text \<open>
  An infinite run, in which the hub may also stay as it is, and weak fairness: an action that can be taken from
  some point on is taken after it.
\<close>

definition behaviour :: "(nat \<Rightarrow> hub) \<Rightarrow> bool" where
  "behaviour s \<longleftrightarrow> (\<forall>k. hub_step (s k) (s (Suc k)) \<or> s (Suc k) = s k)"

definition weakly_fair :: "(hub \<Rightarrow> hub \<Rightarrow> bool) \<Rightarrow> (nat \<Rightarrow> hub) \<Rightarrow> bool" where
  "weakly_fair act s \<longleftrightarrow> (\<forall>k. \<exists>j \<ge> k. act (s j) (s (Suc j)) \<or> \<not> (\<exists>h. act (s j) h))"

text \<open>\<open>WritePump\<close> takes \<open>ctx.Done()\<close>; \<open>ReadMessage\<close> fails on the connection that \<open>WritePump\<close> has closed.\<close>

definition writer_leaves :: "string \<Rightarrow> hub \<Rightarrow> hub \<Rightarrow> bool" where
  "writer_leaves i h h' \<longleftrightarrow> hub_step h h' \<and> c_writing (h_client h i) \<and> c_cancelled (h_client h i) \<and> \<not> c_writing (h_client h' i)"

definition reader_fails :: "string \<Rightarrow> hub \<Rightarrow> hub \<Rightarrow> bool" where
  "reader_fails i h h' \<longleftrightarrow> hub_step h h' \<and> i \<in> h_made h \<and> c_reading (h_client h i) \<and> \<not> c_writing (h_client h i) \<and>
     \<not> c_reading (h_client h' i)"

definition over :: "string \<Rightarrow> hub \<Rightarrow> bool" where
  "over i h \<longleftrightarrow> \<not> c_writing (h_client h i) \<and> \<not> c_reading (h_client h i)"

lemma behaviour_runs: "behaviour s \<Longrightarrow> k \<le> j \<Longrightarrow> hub_step\<^sup>*\<^sup>* (s k) (s j)"
proof (induction j)
  case (Suc j)
  have "hub_step (s j) (s (Suc j)) \<or> s (Suc j) = s j" using Suc.prems(1) by (simp add: behaviour_def)
  then show ?case using Suc by (cases "k = Suc j") (auto simp: le_Suc_eq intro: rtranclp.rtrancl_into_rtrancl)
qed simp

lemma runs_age: "hub_step\<^sup>*\<^sup>* h h' \<Longrightarrow> i \<in> h_made h \<Longrightarrow> i \<in> h_made h' \<and> ages (h_client h i) (h_client h' i)"
proof (induction rule: rtranclp_induct)
  case (step h1 h2)
  then show ?case using hub_step_made [of h1 h2] hub_step_ages [of h1 h2 i] ages_trans by blast
qed simp

lemma panic_stays: "hub_step\<^sup>*\<^sup>* h h' \<Longrightarrow> h_panicked h \<Longrightarrow> h' = h"
  by (induction rule: rtranclp_induct) (auto elim: hub_step.cases)

lemma over_stays: "hub_step\<^sup>*\<^sup>* h h' \<Longrightarrow> i \<in> h_made h \<Longrightarrow> over i h \<Longrightarrow> over i h'"
  using runs_age by (auto simp: over_def ages_def)

lemma writer_can_leave:
  "\<not> h_panicked h \<Longrightarrow> c_writing (h_client h i) \<Longrightarrow> c_cancelled (h_client h i) \<Longrightarrow> \<exists>h'. writer_leaves i h h'"
  using write_ends [of h i] by (fastforce simp: writer_leaves_def drainAndClose_def)

lemma reader_can_fail:
  "\<not> h_panicked h \<Longrightarrow> i \<in> h_made h \<Longrightarrow> c_reading (h_client h i) \<Longrightarrow> \<not> c_writing (h_client h i) \<Longrightarrow> \<exists>h'. reader_fails i h h'"
  using reader_ends [of h i] by (fastforce simp: reader_fails_def reader_leaves_slots)

lemma cancelled_ends:
  assumes "behaviour s" "i \<in> h_made (s 0)" "c_cancelled (h_client (s 0) i)"
    and "weakly_fair (writer_leaves i) s" "weakly_fair (reader_fails i) s"
  shows "\<exists>k. \<forall>j \<ge> k. h_panicked (s j) \<or> over i (s j)"
proof -
  have made: "i \<in> h_made (s k) \<and> c_cancelled (h_client (s k) i)" for k
    using runs_age [OF behaviour_runs [OF assms(1), of 0 k] assms(2)] assms(3) by (auto simp: ages_def)
  obtain k1 where k1: "h_panicked (s k1) \<or> \<not> c_writing (h_client (s k1) i)"
  proof -
    obtain j where "writer_leaves i (s j) (s (Suc j)) \<or> \<not> (\<exists>h. writer_leaves i (s j) h)"
      using assms(4) by (auto simp: weakly_fair_def)
    then show thesis
      using that [of j] that [of "Suc j"] made [of j] writer_can_leave [of "s j" i] by (auto simp: writer_leaves_def)
  qed
  obtain k2 where k2: "h_panicked (s k2) \<or> over i (s k2)"
  proof (cases "h_panicked (s k1)")
    case False
    have w: "\<not> c_writing (h_client (s j) i)" if "k1 \<le> j" for j
      using runs_age [OF behaviour_runs [OF assms(1) that], of i] made [of k1] k1 False by (auto simp: ages_def)
    obtain j where "k1 \<le> j" "reader_fails i (s j) (s (Suc j)) \<or> \<not> (\<exists>h. reader_fails i (s j) h)"
      using assms(5) by (auto simp: weakly_fair_def)
    then show thesis
      using that [of j] that [of "Suc j"] made [of j] w [of j] w [of "Suc j"] reader_can_fail [of "s j" i]
      by (auto simp: reader_fails_def over_def)
  qed (use that in blast)
  have "h_panicked (s j) \<or> over i (s j)" if "k2 \<le> j" for j
    using behaviour_runs [OF assms(1) that] k2 panic_stays over_stays made [of k2] by metis
  then show ?thesis by blast
qed

lemma eventually_all:
  assumes "finite F" "\<And>i. i \<in> F \<Longrightarrow> \<exists>k :: nat. \<forall>j \<ge> k. Q i j"
  shows "\<exists>k. \<forall>j \<ge> k. \<forall>i \<in> F. Q i j"
  using assms
proof (induction rule: finite_induct)
  case (insert x F)
  obtain k1 k2 where "\<forall>j \<ge> k1. Q x j" "\<forall>j \<ge> k2. \<forall>i \<in> F. Q i j" using insert by blast
  then show ?case by (intro exI [of _ "max k1 k2"]) simp
qed simp

text \<open>
  C14. The shutdown of the connections ends by itself: after \<open>CloseAll\<close>, in every infinite run of the goroutines
  in which a writer does not for ever neglect its cancelled context and a reader does not for ever overlook that
  its connection was closed, both loops of every connection that was registered have returned from some point
  on, without any help of the clients, or the program has panicked.
\<close>

theorem CloseAll_ends_connections:
  assumes "hub_reachable h" "\<not> h_closed h" "behaviour s" "s 0 = CloseAll h"
    and "\<And>i. i \<in> h_clients h \<Longrightarrow> weakly_fair (writer_leaves i) s \<and> weakly_fair (reader_fails i) s"
  shows "\<exists>k. \<forall>j \<ge> k. h_panicked (s j) \<or> (\<forall>i \<in> h_clients h. over i (s j))"
proof -
  have ok: "hub_ok h" using assms(1) run_invariant [of NewHub h hub_ok] hub_step_ok NewHub_ok by (auto simp: hub_reachable_def)
  have "\<exists>k. \<forall>j \<ge> k. h_panicked (s j) \<or> over i (s j)" if "i \<in> h_clients h" for i
  proof (rule cancelled_ends [OF assms(3)])
    show "i \<in> h_made (s 0)" using ok that by (auto simp: assms(4) CloseAll_def hub_oks)
    show "c_cancelled (h_client (s 0) i)"
      using ok that assms(2) by (auto simp: assms(4) CloseAll_def close_and_cancel_def hub_oks)
  qed (use assms(5) that in auto)
  moreover have "finite (h_clients h)" using ok by (auto simp: hub_oks intro: finite_subset)
  ultimately have "\<exists>k. \<forall>j \<ge> k. \<forall>i \<in> h_clients h. h_panicked (s j) \<or> over i (s j)" by (intro eventually_all) auto
  then show ?thesis by blast
qed

section \<open>Connections that are missed\<close>

text \<open>
  A step that is not the end of connection \<open>i\<close> by its peer: while its context is not cancelled, its loops go on.
\<close>

definition peer_stays :: "string \<Rightarrow> hub \<Rightarrow> hub \<Rightarrow> bool" where
  "peer_stays i h h' \<longleftrightarrow> hub_step h h' \<and>
     (c_cancelled (h_client h i) \<or>
      (c_reading (h_client h' i) = c_reading (h_client h i) \<and> c_writing (h_client h' i) = c_writing (h_client h i)))"

definition missed :: "string \<Rightarrow> hub \<Rightarrow> bool" where
  "missed i h \<longleftrightarrow> i \<in> h_made h \<and> i \<notin> h_clients h \<and> h_closed h \<and> h_pc h = Stopped \<and>
     c_reading (h_client h i) \<and> c_writing (h_client h i) \<and> \<not> c_cancelled (h_client h i)"

lemma missed_cleanup: "missed i h \<Longrightarrow> missed i (cleanupClient j h)"
  by (auto simp: missed_def cleanupClient_def Let_def split_beta drop_client_simps dec_gauges_def on_client_def close_client_def)

lemma missed_leaves: "missed i h \<Longrightarrow> j \<noteq> i \<Longrightarrow> missed i (reader_leaves j h)"
proof -
  assume "missed i h" "j \<noteq> i"
  then have "missed i (on_client j (\<lambda>c. c\<lparr>c_cancelled := True, c_reading := False\<rparr>) h)" by (simp add: missed_def)
  moreover from this have "missed i (on_client j (\<lambda>c. c\<lparr>c_cancelled := True, c_reading := False\<rparr>) h\<lparr>h_unregister := q\<rparr>)" for q
    by (simp add: missed_def)
  ultimately show ?thesis using missed_cleanup by (simp add: reader_leaves_def Let_def)
qed

lemma missed_step:
  assumes "hub_step h h'" "missed i h"
    and "c_reading (h_client h' i) = c_reading (h_client h i)" "c_writing (h_client h' i) = c_writing (h_client h i)"
  shows "missed i h'"
  using assms
proof (induction rule: hub_step.induct)
  case (reader_ends h j)
  then have "j \<noteq> i" by (auto simp: reader_leaves_slots)
  then show ?case using missed_leaves reader_ends by blast
qed (auto simp: missed_def reply_def push_def enqueue_def Hub_SubscribeToRoom_def Hub_UnsubscribeFromRoom_def CloseAll_def
    drainAndClose_def)

text \<open>
  A connection that the hub has not yet taken from its channel when the server shuts down is missed:
  \<open>CloseAll\<close> cancels only what is in the registry, and the goroutine of the hub ends. There is such a run, and
  after it both loops of the connection go on for as long as the peer stays, whatever else happens, so that
  \<open>Shutdown\<close> waits for them until its timeout.
\<close>

theorem shutdown_misses_connection:
  "\<exists>h i. hub_reachable h \<and> h_closed h \<and> h_pc h = Stopped \<and> i \<in> set (h_register h) \<and>
    {h'. (peer_stays i)\<^sup>*\<^sup>* h h'} \<subseteq> {h'. c_reading (h_client h' i) \<and> c_writing (h_client h' i) \<and> \<not> c_cancelled (h_client h' i)}"
proof -
  let ?h2 = "CloseAll hub1"
  let ?h3 = "?h2\<lparr>h_pc := Stopped\<rparr>"
  have "hub_step hub1 ?h2" by (rule hub_step.closes) (simp add: hub_eval)
  moreover have "hub_step ?h2 ?h3" by (rule hub_step.quits) (simp_all add: hub_eval CloseAll_def)
  ultimately have reach: "hub_reachable ?h3" using hub1_reachable reach_step by blast
  have m: "missed ''a'' ?h3" "''a'' \<in> set (h_register ?h3)" "h_closed ?h3"
    by (simp_all add: missed_def hub_eval CloseAll_def)
  have "missed ''a'' h'" if "(peer_stays ''a'')\<^sup>*\<^sup>* ?h3 h'" for h'
    using that
  proof (induction rule: rtranclp_induct)
    case (step x y)
    then show ?case using missed_step [of x y "''a''"] by (auto simp: peer_stays_def missed_def)
  qed (rule m(1))
  then show ?thesis using reach m by (intro exI [of _ ?h3] exI [of _ "''a''"]) (auto simp: missed_def)
qed

section \<open>The shutdown of one connection\<close>

text \<open>A run in which the loops of the connection \<open>a\<close> return after \<open>CloseAll\<close>.\<close>

definition closing :: "nat \<Rightarrow> hub" where
  "closing k =
     (let h0 = CloseAll hub2; h1 = on_client ''a'' (\<lambda>c. (drainAndClose c)\<lparr>c_writing := False\<rparr>) h0
      in if k = 0 then h0 else if k = 1 then h1 else reader_leaves ''a'' h1)"

lemma hub2_close:
  "h_clients (CloseAll hub2) = {''a''}" "''a'' \<in> h_made (CloseAll hub2)" "\<not> h_panicked (CloseAll hub2)" "\<not> h_closed hub2"
  "c_writing (h_client (CloseAll hub2) ''a'')" "c_cancelled (h_client (CloseAll hub2) ''a'')" "c_reading (h_client (CloseAll hub2) ''a'')"
  "h_clients hub2 = {''a''}"
  by (simp_all add: hub_eval CloseAll_def close_and_cancel_def)

lemma closing_behaviour: "behaviour closing"
proof -
  have "hub_step (closing 0) (closing 1)"
    using write_ends [of "CloseAll hub2" "''a''"] by (simp add: closing_def hub2_close)
  moreover have "hub_step (closing 1) (closing 2)"
    using reader_ends [of "closing 1" "''a''"] by (simp add: closing_def hub2_close drainAndClose_def)
  moreover have "closing (Suc (Suc (Suc k))) = closing (Suc (Suc k))" for k by (simp add: closing_def)
  moreover have "k = 0 \<or> k = 1 \<or> (\<exists>m. k = Suc (Suc m))" for k :: nat by (cases k; cases "k - 1") auto
  ultimately show ?thesis unfolding behaviour_def by (metis One_nat_def numeral_2_eq_2)
qed

lemma closing_over: "2 \<le> k \<Longrightarrow> over ''a'' (closing k)"
  by (simp add: closing_def over_def reader_leaves_slots)
    (simp add: reader_leaves_def Let_def cleanup_stream)

lemma closing_fair: "weakly_fair (writer_leaves ''a'') closing" "weakly_fair (reader_fails ''a'') closing"
proof -
  have "\<not> writer_leaves ''a'' (closing (max k 2)) h \<and> \<not> reader_fails ''a'' (closing (max k 2)) h" for k h
    using closing_over [of "max k 2"] by (simp add: writer_leaves_def reader_fails_def over_def)
  then show "weakly_fair (writer_leaves ''a'') closing" "weakly_fair (reader_fails ''a'') closing"
    unfolding weakly_fair_def by (meson max.cobounded1)+
qed

lemma CloseAll_ends_connections_witness:
  "\<exists>k. {k..} \<subseteq> {j. h_panicked (closing j) \<or> over ''a'' (closing j)}"
proof -
  have "closing 0 = CloseAll hub2" by (simp add: closing_def)
  from CloseAll_ends_connections [OF hub2_reachable hub2_close(4) closing_behaviour this] closing_fair
  show ?thesis by (auto simp: hub2_close)
qed

section \<open>Frames that are dropped\<close>

lemma stopped_step: "hub_step h h' \<Longrightarrow> i \<in> h_made h \<Longrightarrow> \<not> c_writing (h_client h i) \<Longrightarrow>
   c_wire (h_client h' i) = c_wire (h_client h i)"
proof (induction rule: hub_step.induct)
  case (take_unregister h j q)
  then show ?case by (simp add: cleanup_stream)
next
  case (reader_ends h j)
  then show ?case by (simp add: reader_leaves_def Let_def cleanup_stream)
qed (auto simp: register_client_def deliver_send_def remove_slow_frame reply_def enqueue_def push_def close_and_cancel_def
    Hub_SubscribeToRoom_def Hub_UnsubscribeFromRoom_def CloseAll_def)

lemma stopped_runs:
  "hub_step\<^sup>*\<^sup>* h h' \<Longrightarrow> i \<in> h_made h \<Longrightarrow> \<not> c_writing (h_client h i) \<Longrightarrow>
   i \<in> h_made h' \<and> \<not> c_writing (h_client h' i) \<and> c_wire (h_client h' i) = c_wire (h_client h i)"
proof (induction rule: rtranclp_induct)
  case (step x y)
  then show ?case using stopped_step [of x y i] runs_age [of x y i] by (auto simp: ages_def r_into_rtranclp)
qed simp

text \<open>
  A shutdown does not flush: a frame that waits in the channel of a registered connection can be lost,
  because \<open>WritePump\<close> may see the cancelled context first and then closes the channel with what is in it. There
  is a run in which the frame was queued before the shutdown began and is never put on the connection.
\<close>

theorem shutdown_drops_frames:
  "\<exists>h h' i d. hub_reachable h \<and> \<not> h_closed h \<and> i \<in> h_clients h \<and> d \<in> set (c_send (h_client h i)) \<and>
    hub_step\<^sup>*\<^sup>* (CloseAll h) h' \<and> \<not> h_panicked h' \<and> over i h' \<and>
    {h''. hub_step\<^sup>*\<^sup>* h' h''} \<subseteq> {h''. d \<notin> set (c_wire (h_client h'' i))}"
proof -
  let ?h = "on_client ''a'' (push JNull) hub2"
  let ?hc = "CloseAll ?h"
  let ?hw = "on_client ''a'' (\<lambda>c. (drainAndClose c)\<lparr>c_writing := False\<rparr>) ?hc"
  let ?hr = "reader_leaves ''a'' ?hw"
  have reply: "reply ''a'' JNull hub2 = ?h" by (simp add: reply_def hub2_client sendCap_def)
  have "hub_step hub2 ?h" unfolding reply [symmetric] by (rule hub_step.replies [OF hub2_client(2,1)])
  then have reach: "hub_reachable ?h" by (rule reach_step [OF hub2_reachable])
  have a: "\<not> c_closed (h_client hub2 ''a'')" "c_reading (h_client hub2 ''a'')" by (simp_all add: hub_eval)
  note open_a = a hub2_client hub2_close(4,8)
  have closed: "h_client ?hc = (h_client ?h)(''a'' := close_and_cancel (push JNull (h_client hub2 ''a'')))" "h_made ?hc = h_made hub2"
      "\<not> h_panicked ?hc"
    using open_a by (simp_all add: CloseAll_def push_def fun_eq_iff)
  have 1: "hub_step ?hc ?hw"
    by (rule write_ends) (simp_all add: closed close_and_cancel_def push_def open_a)
  have 2: "hub_step ?hw ?hr"
    by (rule reader_ends) (simp_all add: closed open_a close_and_cancel_def push_def drainAndClose_def)
  have run: "hub_step\<^sup>*\<^sup>* ?hc ?hr" by (rule converse_rtranclp_into_rtranclp [of hub_step, OF 1 r_into_rtranclp [of hub_step, OF 2]])
  have w: "c_wire (h_client ?hr ''a'') = []" "\<not> c_writing (h_client ?hr ''a'')" "over ''a'' ?hr" "''a'' \<in> h_made ?hr" "\<not> h_panicked ?hr"
    using open_a
    by (simp_all add: over_def reader_leaves_slots closed)
      (simp_all add: reader_leaves_def Let_def cleanup_stream closed close_and_cancel_def drainAndClose_def push_def
        cleanupClient_def split_beta drop_client_frame dec_gauges_def)
  have "{h''. hub_step\<^sup>*\<^sup>* ?hr h''} \<subseteq> {h''. JNull \<notin> set (c_wire (h_client h'' ''a''))}"
    using stopped_runs [OF _ w(4,2)] w(1) by auto
  moreover have "JNull \<in> set (c_send (h_client ?h ''a''))" "\<not> h_closed ?h" "''a'' \<in> h_clients ?h"
    using open_a by (simp_all add: push_def)
  ultimately show ?thesis
    using reach run w(3,5) by (intro exI [of _ ?h] exI [of _ ?hr] exI [of _ "''a''"] exI [of _ JNull] conjI)
qed

end
