(* ===== verification/Server_Life.thy ===== *)
theory Server_Life
  imports Lifecycle
begin

text \<open>
  \<open>NewServer\<close>, \<open>Start\<close> and \<open>Shutdown\<close> of \<open>internal/server/server.go\<close> as a state machine around the steps of the
  server. \<open>main\<close> runs \<open>Start\<close> in a goroutine and calls \<open>Shutdown\<close> once; the model takes it that \<open>Start\<close> has run
  before. Listening, TLS and the timers are the library's: a wait may end by its timer at any time.
\<close>

section \<open>Start and Shutdown\<close>

text \<open>
  The process around a node: which subscription loops run (\<open>s.wg\<close>), whether \<open>s.ctx\<close> is cancelled, whether the
  HTTP server listens, how far \<open>Shutdown\<close> is and what it has warned about. The pumps are those of the hub
  (\<open>s.clientWG\<close>).
\<close>

datatype pubsub_loop = RoomLoop | PresenceLoop

datatype phase = Serving | AwaitingLoops | AwaitingClients | Down

record 'r process =
  p_node :: "'r node"
  p_loops :: "pubsub_loop set"
  p_cancelled :: bool
  p_listening :: bool
  p_phase :: phase
  p_warnings :: "string list"

definition NewServer :: "'r world \<Rightarrow> 'r process" where
  "NewServer w = \<lparr>p_node = start_node w, p_loops = {}, p_cancelled = False, p_listening = False, p_phase = Serving,
     p_warnings = []\<rparr>"

definition wsPort :: "'r server_deps \<Rightarrow> int" where
  "wsPort s = s_port (config.Server (sd_cfg s)) + 1"

text \<open>What \<open>Start\<close> listens with: TLS needs both files, and is left out without a word otherwise.\<close>

datatype listen_mode = Plain | OverTLS string string

record listener =
  l_addr :: string
  l_mode :: listen_mode
  l_minVersion12 :: bool
  l_timeouts :: "gotime \<times> gotime \<times> gotime"

definition tls_mode :: "tls_config \<Rightarrow> listen_mode" where
  "tls_mode t = (if tls_enabled t \<and> CertFile t \<noteq> [] \<and> KeyFile t \<noteq> [] then OverTLS (CertFile t) (KeyFile t) else Plain)"

definition http_listener :: "config \<Rightarrow> int \<Rightarrow> listener" where
  "http_listener c port =
     (let h = HTTP (config.Server c) in
      \<lparr>l_addr = s_host (config.Server c) @ '':'' @ FormatInt10 port, l_mode = tls_mode (TLS (config.Server c)),
       l_minVersion12 = tls_enabled (TLS (config.Server c)), l_timeouts = (ReadTimeout h, http_WriteTimeout h, IdleTimeout h)\<rparr>)"

definition Start :: "'r server_deps \<Rightarrow> 'r process \<Rightarrow> listener \<times> 'r process" where
  "Start s p = (http_listener (sd_cfg s) (wsPort s),
     p\<lparr>p_listening := True, p_loops := (if sd_ps s \<noteq> None then {RoomLoop, PresenceLoop} else {})\<rparr>)"

text \<open>The routes of its mux, which are exact paths.\<close>

datatype ws_reply = Healthy json | Handshaken ws_response | NotFound

definition handleHealth :: ws_reply where
  "handleHealth = Healthy (JObj [(''status'', JStr ''ok'')])"

definition ws_serve :: "'r server_deps \<Rightarrow> env \<Rightarrow> string \<Rightarrow> ws_request \<Rightarrow> 'r node \<Rightarrow> ws_reply \<times> 'r node" where
  "ws_serve s e path r n =
     (if path \<in> {''/health'', ''/healthz'', ''/readyz''} then (handleHealth, n)
      else if path = ''/ws'' then (let (resp, n') = handleWebSocket s e r n in (Handshaken resp, n'))
      else (NotFound, n))"

definition pumps_over :: "hub \<Rightarrow> bool" where
  "pumps_over h \<longleftrightarrow> (\<forall>i \<in> h_made h. over i h)"

text \<open>
  The steps of the process. While it serves, and while \<open>Shutdown\<close> waits, the server goes on; new connections
  come as long as it listens. A wait of \<open>Shutdown\<close> ends when what it waits for has ended, or with a warning
  when its time is over.
\<close>

inductive life_step :: "'r server_deps \<Rightarrow> 'r process \<Rightarrow> 'r process \<Rightarrow> bool" for s where
  serves: "server_step s (p_node p) n' \<Longrightarrow> h_closed (n_hub n') = h_closed (n_hub (p_node p)) \<Longrightarrow>
    h_made (n_hub n') = h_made (n_hub (p_node p)) \<or> p_listening p \<Longrightarrow> life_step s p (p\<lparr>p_node := n'\<rparr>)"
| loop_returns: "p_cancelled p \<Longrightarrow> l \<in> p_loops p \<Longrightarrow> life_step s p (p\<lparr>p_loops := p_loops p - {l}\<rparr>)"
| shutdown_begins: "p_phase p = Serving \<Longrightarrow> life_step s p (p\<lparr>p_cancelled := True, p_phase := AwaitingLoops\<rparr>)"
| loops_awaited: "p_phase p = AwaitingLoops \<Longrightarrow>
    ws = [''Timeout waiting for pub/sub goroutines to finish''] \<or> (ws = [] \<and> p_loops p = {}) \<Longrightarrow>
    life_step s p (p\<lparr>p_node := (p_node p)\<lparr>n_hub := CloseAll (n_hub (p_node p))\<rparr>, p_phase := AwaitingClients,
      p_warnings := p_warnings p @ ws\<rparr>)"
| clients_awaited: "p_phase p = AwaitingClients \<Longrightarrow>
    ws = [''Timeout waiting for client goroutines to finish''] \<or> (ws = [] \<and> pumps_over (n_hub (p_node p))) \<Longrightarrow>
    life_step s p (p\<lparr>p_listening := False, p_phase := Down, p_warnings := p_warnings p @ ws\<rparr>)"

definition life :: "'r server_deps \<Rightarrow> 'r world \<Rightarrow> 'r process \<Rightarrow> bool" where
  "life s w p \<longleftrightarrow> (life_step s)\<^sup>*\<^sup>* (snd (Start s (NewServer w))) p"

section \<open>The order of a shutdown\<close>

definition phase_ok :: "'r process \<Rightarrow> bool" where
  "phase_ok p \<longleftrightarrow> hub_ok (n_hub (p_node p)) \<and>
     (p_cancelled p \<longleftrightarrow> p_phase p \<noteq> Serving) \<and>
     (h_closed (n_hub (p_node p)) \<longleftrightarrow> p_phase p \<in> {AwaitingClients, Down}) \<and>
     (p_listening p \<longleftrightarrow> p_phase p \<noteq> Down) \<and>
     (p_phase p \<in> {AwaitingClients, Down} \<and> p_warnings p = [] \<longrightarrow> p_loops p = {}) \<and>
     (p_phase p = Down \<and> p_warnings p = [] \<longrightarrow> pumps_over (n_hub (p_node p)))"

lemma hub_runs_ok: "hub_step\<^sup>*\<^sup>* h h' \<Longrightarrow> hub_ok h \<Longrightarrow> hub_ok h'"
  using run_invariant [of h h' hub_ok] hub_step_ok by blast

lemma pumps_stay_over: "hub_step\<^sup>*\<^sup>* h h' \<Longrightarrow> h_made h' = h_made h \<Longrightarrow> pumps_over h \<Longrightarrow> pumps_over h'"
  using over_stays unfolding pumps_over_def by metis


lemma CloseAll_runs: "\<not> h_panicked h \<Longrightarrow> hub_step\<^sup>*\<^sup>* h (CloseAll h)"
  by (simp add: hub_step.closes r_into_rtranclp)

lemma CloseAll_frame [simp]: "h_made (CloseAll h) = h_made h" "h_closed (CloseAll h)"
  by (simp_all add: CloseAll_def)

lemma life_step_ok: "life_step s p p' \<Longrightarrow> phase_ok p \<Longrightarrow> phase_ok p'"
proof (induction rule: life_step.induct)
  case (serves p n')
  have run: "hub_step\<^sup>*\<^sup>* (n_hub (p_node p)) (n_hub n')" by (rule server_runs_hub [OF serves(1)])
  then have ok: "hub_ok (n_hub n')" using serves(4) hub_runs_ok by (auto simp: phase_ok_def)
  have "pumps_over (n_hub n')" if "p_phase p = Down" "p_warnings p = []"
    using pumps_stay_over [OF run] serves(3,4) that by (auto simp: phase_ok_def)
  then show ?case using serves(2,4) ok by (auto simp: phase_ok_def)
next
  case (loop_returns p l)
  then show ?case by (auto simp: phase_ok_def)
next
  case (shutdown_begins p)
  then show ?case by (auto simp: phase_ok_def)
next
  case (loops_awaited p ws)
  then show ?case using CloseAll_ok [of "n_hub (p_node p)"] by (auto simp: phase_ok_def)
next
  case (clients_awaited p ws)
  then show ?case by (auto simp: phase_ok_def)
qed

text \<open>
  Along every life of the server the phases of its shutdown, which are those of the code, go with its state: the
  subscriptions are cancelled first, the hub is closed only after the wait for them, and the listener, against
  decision record 0003, is closed last; the registries stay consistent throughout.
\<close>

theorem shutdown_is_ordered:
  assumes "life s w p"
  shows "hub_ok (n_hub (p_node p)) \<and>
    (p_cancelled p \<longleftrightarrow> p_phase p \<noteq> Serving) \<and>
    (h_closed (n_hub (p_node p)) \<longleftrightarrow> p_phase p \<in> {AwaitingClients, Down}) \<and>
    (p_listening p \<longleftrightarrow> p_phase p \<noteq> Down) \<and>
    (if p_phase p = Down \<and> p_warnings p = []
     then p_loops p = {} \<and> {i \<in> h_made (n_hub (p_node p)). \<not> over i (n_hub (p_node p))} = {} else True)"
proof -
  have "phase_ok p"
    using assms unfolding life_def
  proof (induction rule: rtranclp_induct)
    case base
    have "hub_ok (n_hub (start_node w))" using NewHub_ok by (simp add: start_node_def)
    then show ?case by (simp add: phase_ok_def Start_def NewServer_def start_node_def NewHub_def)
  qed (rule life_step_ok)
  then show ?thesis by (auto simp: phase_ok_def pumps_over_def)
qed

section \<open>A life\<close>

definition sample_process :: "ref_redis process" where
  "sample_process = (snd (Start sample_server (NewServer sample_world)))\<lparr>p_node := sample_node\<rparr>"

lemma sample_life: "life sample_server sample_world sample_process"
proof -
  let ?p = "snd (Start sample_server (NewServer sample_world))"
  have p: "p_node ?p = start_node sample_world" "p_listening ?p" by (simp_all add: Start_def NewServer_def)
  have "life_step sample_server ?p (?p\<lparr>p_node := sample_node\<rparr>)"
  proof (rule life_step.serves)
    show "server_step sample_server (p_node ?p) sample_node" unfolding p(1) by (rule sample_step)
    show "h_closed (n_hub sample_node) = h_closed (n_hub (p_node ?p))"
      unfolding p(1) by (simp add: sample_node_simps add_client_def start_node_def)
    show "h_made (n_hub sample_node) = h_made (n_hub (p_node ?p)) \<or> p_listening ?p" using p(2) by (rule disjI2)
  qed
  then show ?thesis unfolding life_def sample_process_def by (rule r_into_rtranclp)
qed

lemma life_go: "life s w p \<Longrightarrow> life_step s p p' \<Longrightarrow> life s w p'"
  unfolding life_def by (rule rtranclp.rtrancl_into_rtrancl)

lemma shutdown_is_ordered_witness:
  "\<exists>p. life sample_server sample_world p \<and> p_phase p = Down \<and>
     p_warnings p = [''Timeout waiting for client goroutines to finish''] \<and> h_closed (n_hub (p_node p)) \<and> \<not> p_listening p"
proof -
  let ?w = "[''Timeout waiting for client goroutines to finish'']"
  define p1 where "p1 = sample_process\<lparr>p_cancelled := True, p_phase := AwaitingLoops\<rparr>"
  define p2 where "p2 = p1\<lparr>p_node := (p_node p1)\<lparr>n_hub := CloseAll (n_hub (p_node p1))\<rparr>, p_phase := AwaitingClients, p_warnings := p_warnings p1 @ []\<rparr>"
  define p3 where "p3 = p2\<lparr>p_listening := False, p_phase := Down, p_warnings := p_warnings p2 @ ?w\<rparr>"
  have p: "p_phase sample_process = Serving" "p_warnings sample_process = []" "p_loops sample_process = {}"
    by (simp_all add: sample_process_def Start_def NewServer_def)
  have "life_step sample_server sample_process p1" unfolding p1_def by (rule shutdown_begins [OF p(1)])
  moreover have "life_step sample_server p1 p2" unfolding p2_def by (rule loops_awaited) (simp_all add: p1_def p(3))
  moreover have "life_step sample_server p2 p3" unfolding p3_def by (rule clients_awaited) (simp_all add: p2_def)
  ultimately have l: "life sample_server sample_world p3" using sample_life life_go by blast
  have "p_phase p3 = Down" "p_warnings p3 = ?w" by (simp_all add: p3_def p2_def p1_def p(2))
  then show ?thesis using shutdown_is_ordered [OF l] l by (intro exI [of _ p3]) simp
qed

end
