(* ===== verification/Startup.thy ===== *)
theory Startup
  imports Observability Server_Life
begin

text \<open>
  \<open>main\<close> of \<open>cmd/server/main.go\<close>: what it puts together from the configuration and when it gives up, what the two
  interfaces share, and the shutdown with its deadline.
\<close>

section \<open>Starting\<close>

text \<open>The libraries that \<open>main\<close> gets its parts from; \<open>redis_of\<close> is the server behind a Redis client.\<close>

record ('r, 'k, 'key) libraries =
  platform_of :: "'k platform"
  zerolog_of :: zerolog
  pgx_of :: pgxpool
  redis_of :: "redis_options \<Rightarrow> 'r redis_api"
  pem_of :: "'key pem"
  jwt_of :: "'key option \<Rightarrow> 'key option \<Rightarrow> jwt_api"
  bcrypt_of :: bcrypt_api
  binding_of :: "string \<Rightarrow> string \<Rightarrow> bool"

record 'r program =
  pr_cfg :: config
  pr_logger :: logger
  pr_generator :: generator
  pr_tracing :: bool
  pr_pool :: "string \<times> pool_config"
  pr_http :: "'r http_deps"
  pr_api :: listener
  pr_ws :: "'r server_deps"
  pr_metrics_port :: int

text \<open>The generator of the package \<open>snowflake\<close>, which \<open>init\<close> makes; \<open>SetNodeID\<close> sets its node id.\<close>

definition defaultGenerator :: generator where
  "defaultGenerator = the (New 1)"

text \<open>\<open>logger.Fatal()\<close> ends the program with the message.\<close>

datatype 'r startup = Fatal string err | Running "'r program"

definition main_start :: "('r, 'k, 'key) libraries \<Rightarrow> 'r startup" where
  "main_start l =
     (let cfg = Load (platform_of l);
          logger = NewLogger (zerolog_of l) cfg;
          g' = choose_node_id (Getenv (platform_of l)) defaultGenerator
      in case Validate cfg of
           Inl x \<Rightarrow> Fatal ''Invalid configuration'' x
         | Inr _ \<Rightarrow>
            (let tracer = (if tracing_enabled (Tracing cfg) then InitTracer cfg else globalTracer) in
             case NewPostgresDB (pgx_of l) cfg of
               Inl x \<Rightarrow> Fatal ''Failed to connect to database'' x
             | Inr pool \<Rightarrow>
                (let ps = redis_of l (NewRedisClient (Some (redisCfg (RedisCfg cfg))));
                     authService = SetTokenInvalidator ps (NewAuthService (pem_of l) (jwt_of l) (bcrypt_of l) cfg)
                 in Running \<lparr>pr_cfg = cfg, pr_logger = logger, pr_generator = g', pr_tracing = tracer, pr_pool = pool,
                      pr_http = \<lparr>hd_cfg = cfg, hd_auth = authService, hd_cache = Some ps, hd_ps = Some ps, hd_has_db = True,
                        binding = binding_of l, getenv = Getenv (platform_of l)\<rparr>,
                      pr_api = http_listener cfg (s_port (config.Server cfg)),
                      pr_ws = \<lparr>sd_cfg = cfg, sd_auth = authService, sd_ps = Some ps\<rparr>,
                      pr_metrics_port = metrics_port (Metrics cfg)\<rparr>)))"

lemma default_node: "nodeID defaultGenerator = 1"
  by (simp add: defaultGenerator_def New_def maxNodeID_eq)

lemma started:
  assumes "main_start l = Running p"
  shows "Validate (pr_cfg p) = Inr ()" "hd_cfg (pr_http p) = pr_cfg p" "sd_cfg (pr_ws p) = pr_cfg p"
    "hd_auth (pr_http p) = sd_auth (pr_ws p)" "invalidator (sd_auth (pr_ws p)) = sd_ps (pr_ws p)"
    "hd_ps (pr_http p) = sd_ps (pr_ws p)" "hd_cache (pr_http p) = sd_ps (pr_ws p)" "sd_ps (pr_ws p) \<noteq> None"
    "auth_cfg (sd_auth (pr_ws p)) = Auth (pr_cfg p)" "pr_generator p = choose_node_id (Getenv (platform_of l)) defaultGenerator"
    "pr_cfg p = Load (platform_of l)" "pr_api p = http_listener (pr_cfg p) (s_port (config.Server (pr_cfg p)))"
  using assms
  by (auto simp: main_start_def Let_def SetTokenInvalidator_def NewAuthService_def split: sum.splits)

text \<open>
  C31. A program that has started is put together consistently: its configuration has passed validation, the
  REST interface and the WebSocket server run under this configuration with one authentication service and one
  Redis, which is the token blacklist of both, the cache and the pub/sub; they listen on neighbouring ports; and
  the node id of the generator is between 0 and 1023, whatever the environment says.
\<close>

theorem started_program_is_wired:
  assumes "main_start l = Running p"
  shows "Validate (pr_cfg p) = Inr () \<and> hd_cfg (pr_http p) = pr_cfg p \<and> sd_cfg (pr_ws p) = pr_cfg p \<and>
    hd_auth (pr_http p) = sd_auth (pr_ws p) \<and>
    (\<exists>api. sd_ps (pr_ws p) = Some api \<and> hd_ps (pr_http p) = Some api \<and> hd_cache (pr_http p) = Some api \<and>
      invalidator (sd_auth (pr_ws p)) = Some api) \<and>
    l_addr (pr_api p) = s_host (config.Server (pr_cfg p)) @ '':'' @ FormatInt10 (s_port (config.Server (pr_cfg p))) \<and>
    wsPort (pr_ws p) = s_port (config.Server (pr_cfg p)) + 1 \<and>
    0 \<le> sint (nodeID (pr_generator p)) \<and> sint (nodeID (pr_generator p)) \<le> 1023"
  using started [OF assms] node_id_in_range [of defaultGenerator "Getenv (platform_of l)"] default_node
  by (auto simp: wsPort_def http_listener_def Let_def)

section \<open>Logging out closes both doors\<close>

lemma refused_token:
  assumes "handleWebSocket s e q n = (resp, n')" "\<exists>x. ValidateToken (sd_auth s) e (request_token q) (n_world n) = Inl x"
  shows "resp \<noteq> Upgraded \<and> n_hub n' = n_hub n \<and> ipConnections n' = ipConnections n"
proof -
  obtain x where "ValidateToken (sd_auth s) e (request_token q) (n_world n) = Inl x" using assms(2) by blast
  moreover have "n_world (bump ip k n) = n_world n" for ip k by (rule bump_hub(2))
  ultimately show ?thesis using assms(1) by (auto simp: handleWebSocket_def Let_def split: if_splits)
qed

lemma logout_answer:
  assumes "serve d e r w = (resp, w')" "hr_route r = Some LogoutRoute" "status resp = 200"
  shows "\<exists>refresh w1. Logout (hd_auth d) e (strip_bearer (hr_authorization r)) refresh w1 = (Inr (), w')"
  using assms(1)
proof (cases rule: serve_cases)
  case (ran p resp0)
  let ?next = "AuthMiddleware d e r (\<lambda>_. Handlers_Logout d e r)"
  have ok: "\<exists>refresh. Logout (hd_auth d) e (strip_bearer (hr_authorization r)) refresh w1 = (Inr (), w')"
    if "?next w1 = (resp0, w')" for w1
    using that ran(3) assms(3)
    by (auto simp: AuthMiddleware_def Handlers_Logout_def Let_def split: if_splits sum.splits prod.splits)
  have "auth_group d e r ?next w = (resp0, w')" using ran(1,2) assms(2) by simp
  then have "\<exists>w1. ?next w1 = (resp0, w')"
    using ran(3) assms(3)
    by (auto simp: auth_group_def RateLimitMiddleware_def Let_def split: option.splits if_splits sum.splits bool.splits prod.splits)
  then show ?thesis using ok by blast
qed (use assms(2,3) in auto)

text \<open>
  C10. A user who logs out over REST is out of the whole program: after a logout that was answered 200, and
  whatever requests for tokens come later, the WebSocket server of a started program does not upgrade a
  connection with that access token and makes none, for the two interfaces share the blacklist. The clocks and
  Redis are as for the logout itself.
\<close>

theorem logged_out_cannot_connect:
  assumes "main_start l = Running p" "sd_ps (pr_ws p) = Some api" "sd_auth (pr_ws p) = s"
    and "redis_server api zmap" "jwt_library (jwt s)" "0 < access_ttl s" "access_ttl s \<le> refresh_ttl s"
    and "issued s ''access'' (access_ttl s) j t u (request_token q)"
    and "serve (pr_http p) e0 r w = (resp, w0)" "hr_route r = Some LogoutRoute" "status resp = 200"
    and "strip_bearer (hr_authorization r) = request_token q"
    and "n_world n = auth_run s ops w0" "\<forall>(e, op) \<in> set ops. set_at e0 j \<le> set_at e j"
    and "redis_fault e (''EXISTS token:blacklist:'' @ j) = None"
    and "checked_at e j - now e ''parse'' \<le> set_at e0 j - t"
    and "handleWebSocket (pr_ws p) e q n = (resp', n')"
  shows "resp' \<noteq> Upgraded \<and> n_hub n' = n_hub n \<and> ipConnections n' = ipConnections n"
proof -
  have inv: "invalidator s = Some api" and auth: "hd_auth (pr_http p) = s"
    using started(4,5) [OF assms(1)] assms(2,3) by simp_all
  obtain refresh w1 where out: "Logout s e0 (request_token q) refresh w1 = (Inr (), w0)"
    using logout_answer [OF assms(9-11)] unfolding auth assms(12) by blast
  have j: "j \<noteq> []" using assms(8) by (simp add: issued_def)
  have "redis_banned api (set_at e0 j + access_ttl s) j (w_bus (auth_run s ops w0))"
    by (rule redis_server.run_keeps [OF assms(4) inv _ _ Logout_bans [OF assms(4,5) inv assms(6-8) out]]) (use assms(6,7,14) in auto)
  from banned_token_invalid [OF assms(4,5) inv assms(8) this assms(15,16)] j
  have "\<exists>x. ValidateToken (sd_auth (pr_ws p)) e (request_token q) (n_world n) = Inl x"
    unfolding assms(3,13) by (auto simp: ValidateToken_def validateToken_def jti_blacklisted_claims split: sum.splits)
  with assms(17) show ?thesis by (rule refused_token)
qed

section \<open>Stopping\<close>

text \<open>
  How long the shutdown takes. A \<open>select\<close> between a channel and a timer ends when the channel is closed, at
  the latest with the timer; \<open>http.Server.Shutdown\<close> ends when the server is idle, and at the latest, with an error,
  when its context is done, which is 30 seconds after the shutdown began.
\<close>

definition wait_for :: "gotime option \<Rightarrow> gotime \<Rightarrow> gotime" where
  "wait_for closes timer = (case closes of None \<Rightarrow> timer | Some d \<Rightarrow> min d timer)"

definition http_Shutdown :: "gotime \<Rightarrow> gotime option \<Rightarrow> gotime \<times> unit result" where
  "http_Shutdown left idle =
     (case idle of
        None \<Rightarrow> (max 0 left, Inl (Err ''context deadline exceeded''))
      | Some d \<Rightarrow> if d \<le> left then (d, Inr ()) else (max 0 left, Inl (Err ''context deadline exceeded'')))"

text \<open>
  What main deferred runs after the last of the servers, in the reverse order: the connections to Redis and the
  database are closed, and the tracer is shut down, which returns at once. Closing the database waits, with no
  deadline, until its connections are given back: \<^const>\<open>None\<close> is a close that never returns.
\<close>

record shutdown_times =
  loops_end :: "gotime option"
  clients_end :: "gotime option"
  ws_idle :: "gotime option"
  api_idle :: "gotime option"
  metrics_idle :: "gotime option"
  redis_close :: "gotime option"
  db_close :: "gotime option"

definition shutdown_deadline :: gotime where
  "shutdown_deadline = 30 * second"

text \<open>
  The times at which the hub is closed, the WebSocket server and all servers are shut down, and the program is
  over, and what the servers return.
\<close>

definition main_shutdown :: "shutdown_times \<Rightarrow> (gotime \<times> gotime \<times> gotime \<times> gotime option) \<times> unit result list" where
  "main_shutdown x =
     (let c0 = wait_for (loops_end x) (5 * second) + wait_for (clients_end x) (10 * second);
          (d1, r1) = http_Shutdown (shutdown_deadline - c0) (ws_idle x); u1 = c0 + d1;
          (d2, r2) = http_Shutdown (shutdown_deadline - u1) (api_idle x); u2 = u1 + d2;
          (d3, r3) = http_Shutdown (shutdown_deadline - u2) (metrics_idle x); u3 = u2 + d3
      in ((c0, u1, u3, (case (redis_close x, db_close x) of (Some a, Some b) \<Rightarrow> Some (u3 + a + b) | _ \<Rightarrow> None)), [r1, r2, r3]))"

definition durations_ok :: "shutdown_times \<Rightarrow> bool" where
  "durations_ok x \<longleftrightarrow> list_all (\<lambda>d. case d of None \<Rightarrow> True | Some t \<Rightarrow> 0 \<le> t)
     [loops_end x, clients_end x, ws_idle x, api_idle x, metrics_idle x, redis_close x, db_close x]"

lemma wait_for_range: "(case c of None \<Rightarrow> True | Some t \<Rightarrow> 0 \<le> t) \<Longrightarrow> 0 \<le> k \<Longrightarrow> 0 \<le> wait_for c k \<and> wait_for c k \<le> k"
  by (auto simp: wait_for_def split: option.splits)

lemma http_Shutdown_range:
  "(case c of None \<Rightarrow> True | Some t \<Rightarrow> 0 \<le> t) \<Longrightarrow> http_Shutdown left c = (d, r) \<Longrightarrow> 0 \<le> left \<Longrightarrow>
   0 \<le> d \<and> d \<le> left \<and> (r = Inr () \<longleftrightarrow> (\<exists>t. c = Some t \<and> t \<le> left))"
  by (auto simp: http_Shutdown_def split: option.splits if_splits)

text \<open>
  What of the shutdown is bounded: however long subscription loops, pumps and requests would go on, the hub has been
  closed and the waits are over after 15 seconds at the latest, and the three servers are shut down after 30 seconds;
  the WebSocket server fails to shut down in time only if it would need more than what is left. The end of the
  program is not bounded: it never comes when a connection to the database is not given back.
\<close>

theorem shutdown_in_time:
  assumes "durations_ok x" "main_shutdown x = ((c0, u1, u3, over_at), rs)"
  shows "0 \<le> c0 \<and> c0 \<le> 15 * second \<and> c0 \<le> u1 \<and> u1 \<le> u3 \<and> u3 \<le> 30 * second \<and>
    (hd rs = Inr () \<longleftrightarrow> (\<exists>d. ws_idle x = Some d \<and> c0 + d \<le> 30 * second)) \<and>
    (over_at = None \<longleftrightarrow> redis_close x = None \<or> db_close x = None) \<and> (\<forall>t. over_at = Some t \<longrightarrow> u3 \<le> t)"
proof -
  obtain d1 r1 where s1: "http_Shutdown (shutdown_deadline - c0) (ws_idle x) = (d1, r1)" by (rule prod.exhaust)
  obtain d2 r2 where s2: "http_Shutdown (shutdown_deadline - (c0 + d1)) (api_idle x) = (d2, r2)" by (rule prod.exhaust)
  obtain d3 r3 where s3: "http_Shutdown (shutdown_deadline - (c0 + d1 + d2)) (metrics_idle x) = (d3, r3)" by (rule prod.exhaust)
  have eq: "c0 = wait_for (loops_end x) (5 * second) + wait_for (clients_end x) (10 * second)"
      "u1 = c0 + d1" "u3 = c0 + d1 + d2 + d3" "rs = [r1, r2, r3]"
    using assms(2) s1 s2 s3 by (auto simp: main_shutdown_def Let_def split: prod.splits)
  have c: "0 \<le> c0" "c0 \<le> 15 * second"
    using wait_for_range [of "loops_end x" "5 * second"] wait_for_range [of "clients_end x" "10 * second"] assms(1)
    by (simp_all add: eq(1) durations_ok_def time_units)
  have 1: "0 \<le> d1 \<and> d1 \<le> shutdown_deadline - c0 \<and> (r1 = Inr () \<longleftrightarrow> (\<exists>t. ws_idle x = Some t \<and> t \<le> shutdown_deadline - c0))"
    by (rule http_Shutdown_range [OF _ s1]) (use assms(1) c in \<open>simp_all add: durations_ok_def shutdown_deadline_def time_units\<close>)
  have 2: "0 \<le> d2 \<and> d2 \<le> shutdown_deadline - (c0 + d1)"
    using http_Shutdown_range [OF _ s2] assms(1) 1 by (simp add: durations_ok_def)
  have 3: "0 \<le> d3 \<and> d3 \<le> shutdown_deadline - (c0 + d1 + d2)"
    using http_Shutdown_range [OF _ s3] assms(1) 2 by (simp add: durations_ok_def)
  have "r1 = Inr () \<longleftrightarrow> (\<exists>d. ws_idle x = Some d \<and> c0 + d \<le> 30 * second)"
    using 1 by (auto simp: shutdown_deadline_def algebra_simps)
  moreover have "over_at = (case (redis_close x, db_close x) of (Some a, Some b) \<Rightarrow> Some (u3 + a + b) | _ \<Rightarrow> None)"
    using assms(2) s1 s2 s3 by (auto simp: main_shutdown_def Let_def split: prod.splits)
  then have "(over_at = None \<longleftrightarrow> redis_close x = None \<or> db_close x = None) \<and> (\<forall>t. over_at = Some t \<longrightarrow> u3 \<le> t)"
    using assms(1) by (auto simp: durations_ok_def split: option.splits)
  ultimately show ?thesis using c 1 2 3 by (simp add: eq(2-4) shutdown_deadline_def)
qed


section \<open>Examples\<close>

text \<open>Libraries in which everything works and the environment sets nothing but \<open>AUTH_RATE_LIMIT_DISABLE\<close>.\<close>

definition bare_getenv :: "string \<Rightarrow> string" where
  "bare_getenv v = (if v = ''AUTH_RATE_LIMIT_DISABLE'' then ''1'' else [])"

definition bare_platform :: "unit platform" where
  "bare_platform = \<lparr>read_config = (\<lambda>_. None), Getenv = bare_getenv, ReadFile = (\<lambda>_. None),
     GenerateKey = Inl (Err ''no entropy''), MarshalPKCS8 = (\<lambda>_. Inr []), MarshalPKIX = (\<lambda>_. Inr []), EncodePEM = (\<lambda>t b. b)\<rparr>"

definition sample_libraries :: "(ref_redis, unit, unit) libraries" where
  "sample_libraries = \<lparr>platform_of = bare_platform,
     zerolog_of = \<lparr>ParseLevel = (\<lambda>_. None), InfoLevel = 1, OpenFile = (\<lambda>_. True)\<rparr>,
     pgx_of = \<lparr>ParseConfig = (\<lambda>_. Inr ()), NewWithConfig = (\<lambda>_ _. Inr ()), Ping = (\<lambda>_. Inr ())\<rparr>,
     redis_of = (\<lambda>_. ref_api), pem_of = \<lparr>ParsePrivateKey = (\<lambda>_. None), ParsePublicKey = (\<lambda>_. None)\<rparr>,
     jwt_of = (\<lambda>_ _. ref_jwt), bcrypt_of = ref_bcrypt, binding_of = (\<lambda>_ _. True)\<rparr>"

lemma bare_config: "Load bare_platform = defaultConfig (\<lambda>_. [])"
  by (simp add: Load_def Let_def bare_platform_def from_file_def from_env_def generateRSAKeys_def defaultConfig_def bare_getenv_def)

lemma sample_started:
  "\<exists>p. main_start sample_libraries = Running p \<and> pr_cfg p = defaultConfig (\<lambda>_. []) \<and> sd_auth (pr_ws p) = sample_auth \<and>
    sd_ps (pr_ws p) = Some ref_api \<and> getenv (pr_http p) = bare_getenv"
proof -
  have "Validate (defaultConfig (\<lambda>_. [])) = Inr ()" by (simp add: Validate_def defaultConfig_def)
  then show ?thesis
    by (simp add: main_start_def Let_def sample_libraries_def bare_config NewPostgresDB_def SetTokenInvalidator_def NewAuthService_def
        sample_auth_def) (simp add: bare_platform_def)
qed

lemma started_program_is_wired_witness:
  "\<exists>p. main_start sample_libraries = Running p \<and> hd_auth (pr_http p) = sd_auth (pr_ws p) \<and>
     wsPort (pr_ws p) = s_port (config.Server (pr_cfg p)) + 1 \<and> sint (nodeID (pr_generator p)) \<le> 1023"
proof -
  obtain p where p: "main_start sample_libraries = Running p"
    using sample_started by blast
  from started_program_is_wired [OF p] p show ?thesis by (intro exI [of _ p]) simp
qed

lemma shutdown_in_time_witness:
  "\<exists>c0 u1 u3 rs. main_shutdown \<lparr>loops_end = None, clients_end = None, ws_idle = Some second, api_idle = None, metrics_idle = Some 0, redis_close = Some 0, db_close = None\<rparr> =
      ((c0, u1, u3, None), rs) \<and> c0 = 15 * second \<and> u3 \<le> 30 * second \<and> hd rs = Inr ()"
proof -
  let ?x = "\<lparr>loops_end = None, clients_end = None, ws_idle = Some second, api_idle = None, metrics_idle = Some 0, redis_close = Some 0, db_close = None\<rparr>"
  obtain c0 u1 u3 z rs where run: "main_shutdown ?x = ((c0, u1, u3, z), rs)" by (metis prod.exhaust)
  have "c0 = 15 * second"
    using run by (auto simp: main_shutdown_def Let_def wait_for_def split: prod.splits)
  moreover have "durations_ok ?x" by (simp add: durations_ok_def time_units)
  ultimately show ?thesis using shutdown_in_time [OF _ run] run by (auto simp: time_units)
qed

lemma logged_out_cannot_connect_witness:
  "\<exists>p resp w0 resp' n'. main_start sample_libraries = Running p \<and>
     serve (pr_http p) sample_env (bob_asks ''POST'' LogoutRoute) sample_world = (resp, w0) \<and> status resp = 200 \<and>
     handleWebSocket (pr_ws p) (quiet_env (10 ^ 18 + minute)) sample_request (start_node w0) = (resp', n') \<and> resp' \<noteq> Upgraded"
proof -
  let ?r = "bob_asks ''POST'' LogoutRoute" and ?tok = "sample_token ''access'' (15 * minute)"
  obtain p where p: "main_start sample_libraries = Running p" "pr_cfg p = defaultConfig (\<lambda>_. [])"
    "sd_auth (pr_ws p) = sample_auth" "sd_ps (pr_ws p) = Some ref_api" "getenv (pr_http p) = bare_getenv"
    using sample_started by blast
  have lib: "jwt_library (jwt sample_auth)" by (simp add: ref_tokens.jwt_library_axioms)
  have i: "issued sample_auth ''access'' (access_ttl sample_auth) ''j1'' (10 ^ 18) (sample_user ''bob'') ?tok"
    by (rule sample_issued)
  have bearer: "strip_bearer (hr_authorization ?r) = ?tok"
    using lower_bearer unfolding bob_fields(6) by (simp add: strip_bearer_def sample_token_def)
  have req: "request_token sample_request = ?tok" by (simp add: request_token_def sample_request_def sample_token_def)
  have auth: "hd_auth (pr_http p) = sample_auth" using started(4) [OF p(1)] p(3) by simp
  let ?w0 = "snd (invalidateToken sample_auth sample_env ''j1'' (15 * minute) sample_world)"
  have "no_faults sample_env" by (simp add: sample_env_def)
  then have out: "Logout sample_auth sample_env ?tok [] sample_world = (Inr (), ?w0)"
    using jwt_library.issued_unverified [OF lib refl i] ref_invalidates [of sample_env]
    by (simp add: Logout_def logout_one_def prod_eq_iff split: sum.splits prod.splits)
  have body: "hr_body ?r = None" by (simp add: bob_asks_def)
  have "auth_group (pr_http p) sample_env ?r (AuthMiddleware (pr_http p) sample_env ?r (\<lambda>_. Handlers_Logout (pr_http p) sample_env ?r)) sample_world =
      (respond 200 (JObj [(''status'', JStr ''logged_out'')]), ?w0)"
    using out unfolding auth_group_def
    by (simp only: p(5) bare_getenv_def) (simp add: RateLimitMiddleware_def AuthMiddleware_def auth bearer sample_valid Handlers_Logout_def
      bind_json_def body Let_def del: bob_fields(6) split: option.splits)
  then have "run_route (pr_http p) sample_env ?r LogoutRoute sample_world = (respond 200 (JObj [(''status'', JStr ''logged_out'')]), ?w0)" by simp
  then obtain resp where s: "serve (pr_http p) sample_env ?r sample_world = (resp, ?w0)" "status resp = 200"
    by (simp add: serve_def CORSMiddleware_def RequestIDMiddleware_def add_headers_def Let_def del: run_route.simps)
  obtain resp' n' where h: "handleWebSocket (pr_ws p) (quiet_env (10 ^ 18 + minute)) sample_request (start_node ?w0) = (resp', n')" by (rule prod.exhaust)
  have "resp' \<noteq> Upgraded \<and> n_hub n' = n_hub (start_node ?w0) \<and> ipConnections n' = ipConnections (start_node ?w0)"
    by (rule logged_out_cannot_connect [OF p(1) p(4,3) ref.redis_server_axioms lib _ _ _ s(1) bob_fields(2) s(2) _ _ _ _ _ h,
          where j = "''j1''" and t = "10 ^ 18" and u = "sample_user ''bob''" and ops = "[]"])
      (use i in \<open>simp_all add: req bearer auth_run_def start_node_def time_units hour_def sample_env_def del: bob_fields(6)\<close>)
  then show ?thesis using p(1) s h by blast
qed

end
