(* ===== verification/Run_Loop.thy ===== *)
theory Run_Loop
  imports Pumps
begin

text \<open>
  The goroutine of the hub as the loop it is, \<open>Run\<close> of \<open>internal/server/server.go\<close>, over the choices of its
  \<open>select\<close>; a message that it takes is delivered to the connections one after the other.
\<close>

section \<open>Run\<close>

text \<open>
  What the loop does next: a case of the \<open>select\<close>, where a message comes with the order in which the range over the
  room will meet the connections, or the next step of the delivery it is in.
\<close>

datatype run_event = Quits | Registers | Unregisters | Broadcasts "string list" | Delivers

fun can_run :: "run_event \<Rightarrow> hub \<Rightarrow> bool" where
  "can_run Quits h = (h_pc h = Waiting \<and> h_closed h)"
| "can_run Registers h = (h_pc h = Waiting \<and> h_register h \<noteq> [])"
| "can_run Unregisters h = (h_pc h = Waiting \<and> h_unregister h \<noteq> [])"
| "can_run (Broadcasts ids) h = (h_pc h = Waiting \<and> h_broadcast h \<noteq> [] \<and> distinct ids \<and>
     set ids = ids_of (h_rooms h) (fst (hd (h_broadcast h))))"
| "can_run Delivers h = (case h_pc h of Delivering ids d \<Rightarrow> True | Sending i ids d \<Rightarrow> True | _ \<Rightarrow> False)"

fun Run_turn :: "run_event \<Rightarrow> hub \<Rightarrow> hub" where
  "Run_turn Quits h = h\<lparr>h_pc := Stopped\<rparr>"
| "Run_turn Registers h = register_client (hd (h_register h)) (h\<lparr>h_register := tl (h_register h)\<rparr>)"
| "Run_turn Unregisters h = cleanupClient (hd (h_unregister h)) (h\<lparr>h_unregister := tl (h_unregister h)\<rparr>)"
| "Run_turn (Broadcasts ids) h =
     h\<lparr>h_broadcast := tl (h_broadcast h), h_pc := Delivering ids (snd (hd (h_broadcast h)))\<rparr>"
| "Run_turn Delivers h =
     (case h_pc h of
        Delivering [] d \<Rightarrow> h\<lparr>h_pc := Waiting\<rparr>
      | Delivering (i # ids) d \<Rightarrow> h\<lparr>h_pc := if deliver_check i h then Sending i ids d else Delivering ids d\<rparr>
      | Sending i ids d \<Rightarrow> (deliver_send i d h)\<lparr>h_pc := Delivering ids d\<rparr>
      | _ \<Rightarrow> h)"

text \<open>Choices that are not ready are not taken; a panic ends the program.\<close>

fun Run :: "run_event list \<Rightarrow> hub \<Rightarrow> hub" where
  "Run [] h = h"
| "Run (ev # evs) h =
     (if h_panicked h then h else if can_run ev h then Run evs (Run_turn ev h) else Run evs h)"

lemma Run_turn_step: "\<not> h_panicked h \<Longrightarrow> can_run ev h \<Longrightarrow> hub_step h (Run_turn ev h)"
proof (cases ev)
  case Quits
  assume "\<not> h_panicked h" "can_run ev h"
  then show ?thesis using Quits by (simp add: hub_step.quits)
next
  case Registers
  assume "\<not> h_panicked h" "can_run ev h"
  then show ?thesis using Registers by (cases "h_register h") (simp_all add: hub_step.take_register)
next
  case Unregisters
  assume "\<not> h_panicked h" "can_run ev h"
  then show ?thesis using Unregisters by (cases "h_unregister h") (simp_all add: hub_step.take_unregister)
next
  case (Broadcasts ids)
  assume h: "\<not> h_panicked h" "can_run ev h"
  then obtain r d q where "h_broadcast h = (r, d) # q" using Broadcasts by (cases "h_broadcast h") auto
  then show ?thesis using h Broadcasts hub_step.take_broadcast [of h r d q ids] by simp
next
  case Delivers
  assume h: "\<not> h_panicked h" "can_run ev h"
  show ?thesis
  proof (cases "h_pc h")
    case (Delivering ids d)
    then show ?thesis
      using h Delivers hub_step.delivered [of h d] hub_step.check_next [of h _ _ d] by (cases ids) (simp_all split del: if_split)
  next
    case (Sending i ids d)
    then show ?thesis using h Delivers hub_step.send_next [of h i ids d] by simp
  qed (use h Delivers in simp_all)
qed

text \<open>The loop is a run of the hub.\<close>

lemma Run_steps: "hub_step\<^sup>*\<^sup>* h (Run evs h)"
proof (induction evs arbitrary: h)
  case (Cons ev evs)
  show ?case
  proof (cases "\<not> h_panicked h \<and> can_run ev h")
    case True
    then show ?thesis using Run_turn_step [of h ev] Cons.IH [of "Run_turn ev h"] by (auto intro: converse_rtranclp_into_rtranclp)
  next
    case False
    then show ?thesis using Cons.IH [of h] by auto
  qed
qed simp

section \<open>One delivery\<close>

lemma Run_idle: "h_pc h = Waiting \<Longrightarrow> Run (replicate n Delivers) h = h"
  by (induction n) simp_all

lemma deliver_send_panicked: "h_panicked h \<Longrightarrow> h_panicked (deliver_send i d h)"
  by (simp add: deliver_send_def remove_slow_def dec_gauges_def drop_client_simps split_beta)

lemma broadcast_panicked: "h_panicked h \<Longrightarrow> h_panicked (broadcastMessage ids d h)"
  by (induction ids arbitrary: h) (simp_all add: broadcastMessage_def deliver_def deliver_send_panicked)

lemma deliver_send_pc: "deliver_send i d (h\<lparr>h_pc := p\<rparr>) = (deliver_send i d h)\<lparr>h_pc := p\<rparr>"
  by (simp add: deliver_send_def remove_slow_def drop_client_def on_client_def dec_gauges_def split_beta Let_def)

lemma broadcast_pc_panicked: "h_panicked (broadcastMessage ids d (h\<lparr>h_pc := p\<rparr>)) = h_panicked (broadcastMessage ids d h)"
  using arg_cong [OF broadcast_pc [of Waiting ids d p h], of h_panicked] by simp

lemma Run_delivers:
  assumes "h_pc h = Delivering ids d" "\<not> h_panicked (broadcastMessage ids d h)" "2 * length ids < n"
  shows "Run (replicate n Delivers) h = (broadcastMessage ids d h)\<lparr>h_pc := Waiting\<rparr>"
  using assms
proof (induction ids arbitrary: h n)
  case Nil
  then obtain k where "n = Suc k" by (cases n) auto
  then show ?case using Nil Run_idle [of "h\<lparr>h_pc := Waiting\<rparr>" k] by (simp add: broadcastMessage_def)
next
  case (Cons i ids)
  have step: "broadcastMessage (i # ids) d h = broadcastMessage ids d (deliver d i h)" by (simp add: broadcastMessage_def)
  have live: "\<not> h_panicked h" using Cons.prems(2) broadcast_panicked by blast
  obtain k where n: "n = Suc (Suc k)" "2 * length ids < k" using Cons.prems(3) by (cases n; cases "n - 1") auto
  let ?h = "(deliver d i h)\<lparr>h_pc := Delivering ids d\<rparr>"
  have rest: "Run (replicate m Delivers) ?h = (broadcastMessage (i # ids) d h)\<lparr>h_pc := Waiting\<rparr>" if "2 * length ids < m" for m
    using Cons.IH [of ?h m] Cons.prems(2) that by (simp add: step broadcast_pc_panicked broadcast_pc)
  have "Run (replicate n Delivers) h = Run (replicate (if deliver_check i h then k else Suc k) Delivers) ?h"
    using Cons.prems(1) live by (simp add: n(1) deliver_def deliver_send_pc)
  then show ?case using rest n(2) by simp
qed

lemma Run_delivers_queued:
  assumes "\<not> h_panicked h" "h_pc h = Waiting" "h_broadcast h = (r, d) # q" "set ids = ids_of (h_rooms h) r" "distinct ids"
    and "\<not> h_panicked (broadcastMessage ids d (h\<lparr>h_broadcast := q\<rparr>))" "2 * length ids < n"
  shows "Run (Broadcasts ids # replicate n Delivers) h = (broadcastMessage ids d (h\<lparr>h_broadcast := q\<rparr>))\<lparr>h_pc := Waiting\<rparr>"
proof -
  let ?h = "h\<lparr>h_broadcast := q, h_pc := Delivering ids d\<rparr>"
  have "?h = (h\<lparr>h_broadcast := q\<rparr>)\<lparr>h_pc := Delivering ids d\<rparr>" by simp
  then have "\<not> h_panicked (broadcastMessage ids d ?h)" using assms(6) broadcast_pc_panicked by metis
  moreover have "(broadcastMessage ids d ?h)\<lparr>h_pc := Waiting\<rparr> = (broadcastMessage ids d (h\<lparr>h_broadcast := q\<rparr>))\<lparr>h_pc := Waiting\<rparr>"
    using broadcast_pc [of Waiting ids d "Delivering ids d" "h\<lparr>h_broadcast := q\<rparr>"] by simp
  ultimately show ?thesis using assms Run_delivers [of ?h ids d n] by simp
qed

end
