(* ===== verification/Subscriptions.thy ===== *)
theory Subscriptions
  imports Pumps Error_Paths
begin

text \<open>
  The subscription loops of \<open>internal/server/server.go\<close>, \<open>subscribeToRoomMessages\<close> and \<open>subscribeToPresence\<close>, over the
  events of their subscription, what of the published messages they get, and the way of a message from Redis to
  the connections. A closed subscription is opened again; what is published in between is lost.
\<close>

section \<open>Subscriptions\<close>

text \<open>\<open>PSubscribe(ctx, "ws:room:*")\<close> and \<open>Subscribe(ctx, "ws:presence")\<close>: the messages of a log that they deliver.\<close>

definition room_feed :: "(string \<times> json) list \<Rightarrow> (string \<times> json) list" where
  "room_feed l = filter (\<lambda>(c, _). HasPrefix c ''ws:room:'') l"

definition presence_feed :: "(string \<times> json) list \<Rightarrow> (string \<times> json) list" where
  "presence_feed l = filter (\<lambda>(c, _). c = ''ws:presence'') l"

text \<open>
  What a loop meets: its context is done, its attempt to subscribe succeeds or fails, the channel of the
  subscription is closed, a message comes (with the order in which the range over the clients will meet them).
\<close>

datatype loop_event = CtxDone | Subscribed | SubscribeFailed | ChannelClosed | Message env string "json option" "string list"

text \<open>The loop tries to subscribe, with the wait after the next failure; takes messages; has returned.\<close>

datatype loop_state = Connecting gotime | Listening | Returned

fun loop_turn :: "(env \<Rightarrow> string \<Rightarrow> json option \<Rightarrow> string list \<Rightarrow> hub \<Rightarrow> hub) \<Rightarrow> loop_event \<Rightarrow> loop_state \<times> hub \<Rightarrow> loop_state \<times> hub" where
  "loop_turn act CtxDone (s, h) = (Returned, h)"
| "loop_turn act Subscribed (Connecting b, h) = (Listening, h)"
| "loop_turn act SubscribeFailed (Connecting b, h) = (Connecting (next_backoff b), h)"
| "loop_turn act ChannelClosed (Listening, h) = (Connecting initialBackoff, h)"
| "loop_turn act (Message e c p ids) (Listening, h) = (Listening, act e c p ids h)"
| "loop_turn act _ (s, h) = (s, h)"

definition subscription_loop :: "(env \<Rightarrow> string \<Rightarrow> json option \<Rightarrow> string list \<Rightarrow> hub \<Rightarrow> hub) \<Rightarrow> loop_event list \<Rightarrow> hub \<Rightarrow> loop_state \<times> hub" where
  "subscription_loop act evs h = fold (loop_turn act) evs (Connecting initialBackoff, h)"

definition subscribeToRoomMessages :: "loop_event list \<Rightarrow> hub \<Rightarrow> loop_state \<times> hub" where
  "subscribeToRoomMessages = subscription_loop (\<lambda>e c p ids. fanout_room e c p)"

definition subscribeToPresence :: "loop_event list \<Rightarrow> hub \<Rightarrow> loop_state \<times> hub" where
  "subscribeToPresence = subscription_loop (\<lambda>e c p ids. fanout_presence e p ids)"

lemma loop_returned [simp]: "fold (loop_turn act) evs (Returned, h) = (Returned, h)"
proof (induction evs)
  case (Cons ev evs)
  then show ?case by (cases ev) auto
qed simp

text \<open>The waits of a loop are those of \<^const>\<open>waits\<close>: a failure doubles the next wait, a success resets it.\<close>

lemma failures_back_off:
  "fold (loop_turn act) (replicate n SubscribeFailed) (Connecting b, h) = (Connecting ((next_backoff ^^ n) b), h)"
proof (induction n arbitrary: b)
  case (Suc n)
  then show ?case by (simp only: replicate_Suc fold_simps loop_turn.simps) (simp add: funpow_swap1)
qed simp

section \<open>What is queued\<close>

text \<open>Where a message goes: its room and the frame for it.\<close>

definition routed :: "env \<Rightarrow> string \<Rightarrow> json option \<Rightarrow> (string \<times> json) list" where
  "routed e channel payload =
     (let (roomID, eventType) = extractRoomIDAndEvent channel in
      if roomID = [] then []
      else case payload of
        None \<Rightarrow> []
      | Some p \<Rightarrow>
         (case (if eventType = ''events'' then member_event_frame e roomID p else message_event_frame e p) of
            None \<Rightarrow> []
          | Some d \<Rightarrow> [(roomID, d)]))"

lemma fanout_routed: "fanout_room e c p h = fold (\<lambda>(r, d). enqueue r d) (routed e c p) h"
  by (auto simp: fanout_room_def routed_def split: prod.splits option.splits)

fun event_frames :: "loop_event \<Rightarrow> (string \<times> json) list" where
  "event_frames (Message e c p ids) = routed e c p"
| "event_frames _ = []"

lemma enqueue_all:
  "fold (\<lambda>(r, d). enqueue r d) xs h = h\<lparr>h_broadcast := h_broadcast h @ take (queueCap - length (h_broadcast h)) xs\<rparr>"
proof (induction xs arbitrary: h)
  case (Cons x xs)
  obtain r d where x: "x = (r, d)" by (rule prod.exhaust)
  show ?case
  proof (cases "length (h_broadcast h) < queueCap")
    case True
    then have "queueCap - length (h_broadcast h) = Suc (queueCap - Suc (length (h_broadcast h)))" by simp
    then show ?thesis using True Cons.IH [of "enqueue r d h"] by (simp add: x enqueue_def)
  next
    case False
    then show ?thesis using Cons.IH [of h] by (simp add: x enqueue_def)
  qed
qed simp

lemma enqueue_twice: "fold (\<lambda>(r, d). enqueue r d) ys (fold (\<lambda>(r, d). enqueue r d) xs h) = fold (\<lambda>(r, d). enqueue r d) (xs @ ys) h"
  by simp

definition is_message :: "loop_event \<Rightarrow> bool" where
  "is_message ev = (case ev of Message e c p ids \<Rightarrow> True | _ \<Rightarrow> False)"

lemma listening_queue:
  "list_all is_message ms \<Longrightarrow>
   fold (loop_turn (\<lambda>e c p ids. fanout_room e c p)) ms (Listening, h) =
     (Listening, fold (\<lambda>(r, d). enqueue r d) (concat (map event_frames ms)) h)"
proof (induction ms arbitrary: h)
  case (Cons m ms)
  then show ?case by (cases m) (simp_all add: is_message_def fanout_routed)
qed simp

text \<open>
  C29. What the room loop queues while the hub is busy: of the messages it takes, those that are for a room and
  can be read, in the order of Redis, up to the capacity of the channel of the hub; the rest is dropped, and the
  loop neither blocks nor touches anything else. Messages before the subscription, and after the loop was told
  to end, are not taken.
\<close>

theorem room_loop_queues:
  assumes "list_all is_message early" "list_all is_message ms"
  shows "subscribeToRoomMessages (early @ [Subscribed] @ ms @ CtxDone # late) h =
    (Returned, h\<lparr>h_broadcast := h_broadcast h @ take (queueCap - length (h_broadcast h)) (concat (map event_frames ms))\<rparr>)"
proof -
  have "fold (loop_turn act) early (Connecting b, h) = (Connecting b, h)" for act b
    using assms(1)
  proof (induction early)
    case (Cons m early)
    then show ?case by (cases m) (simp_all add: is_message_def)
  qed simp
  then show ?thesis
    using listening_queue [OF assms(2), of h]
    by (simp add: subscribeToRoomMessages_def subscription_loop_def enqueue_all)
qed

section \<open>From the queue to the wire\<close>

lemma ids_of_remove_slow: "j \<noteq> i \<Longrightarrow> j \<in> ids_of (h_rooms (remove_slow i h)) r \<longleftrightarrow> j \<in> ids_of (h_rooms h) r"
  by (auto simp: remove_slow_def split_beta dec_gauges_def drop_client_simps ids_of_drop_rooms)

text \<open>A registered, open, running connection whose channel has room for \<open>n\<close> frames more.\<close>

definition has_room_for :: "nat \<Rightarrow> string \<Rightarrow> hub \<Rightarrow> bool" where
  "has_room_for n j h \<longleftrightarrow> j \<in> h_clients h \<and> \<not> isClosed (h_client h j) \<and> length (c_send (h_client h j)) + n \<le> sendCap"

text \<open>The frames of a queue that are for the rooms of \<open>j\<close>.\<close>

definition frames_for :: "string \<Rightarrow> hub \<Rightarrow> (string \<times> json) list \<Rightarrow> json list" where
  "frames_for j h q = map snd (filter (\<lambda>(r, d). j \<in> ids_of (h_rooms h) r) q)"

lemma writes_all:
  "c_writing c \<Longrightarrow> WritePump (replicate (length (c_send c)) (SendFrame True)) c = c\<lparr>c_send := [], c_wire := c_wire c @ c_send c\<rparr>"
proof (induction "c_send c" arbitrary: c)
  case Nil
  then show ?case by simp
next
  case (Cons d q)
  let ?c = "c\<lparr>c_send := q, c_wire := c_wire c @ [d]\<rparr>"
  have "WritePump (replicate (length (c_send ?c)) (SendFrame True)) ?c = ?c\<lparr>c_send := [], c_wire := c_wire ?c @ c_send ?c\<rparr>"
    by (rule Cons.hyps(1)) (use Cons.prems in simp_all)
  then show ?case using Cons.hyps(2) [symmetric] Cons.prems by simp
qed

section \<open>Examples\<close>

lemma other_hub_reachable: "hub_reachable other_hub"
proof -
  have "hub_step NewHub (add_client ''b'' ''bob'' None NewHub)"
    using connect [of NewHub "''b''" "''bob''" None] by (simp add: add_client_def NewHub_def queueCap_def)
  moreover have "hub_step (add_client ''b'' ''bob'' None NewHub) bob_hub"
    unfolding bob_hub_def by (rule take_register) (simp_all add: add_client_def NewHub_def)
  moreover have "hub_step bob_hub other_hub"
    unfolding other_hub_def by (rule subscribes) (simp_all add: bob_defs)
  ultimately show ?thesis by (simp add: hub_reachable_def)
qed

lemma hello_routed:
  "routed e ''ws:room:r1'' (Some (new_message_event (hello_message t))) =
    [(''r1'', frame e ServerMsgNewMessage (new_message_event (hello_message t)))]"
proof -
  have "extractRoomIDAndEvent ''ws:room:r1'' = (''r1'', [])" using room_channel [of "''r1''"] by simp
  moreover have "m_room_id (hello_message t) = ''r1''" by (simp add: hello_message_def new_message_def hello_def)
  ultimately show ?thesis
    by (simp add: routed_def new_message_event_def message_event_frame_def json_fields Let_def)
qed

lemma room_loop_queues_witness:
  "subscribeToRoomMessages ([] @ [Subscribed] @ [Message (quiet_env 9) ''ws:room:r1'' (Some (new_message_event (hello_message 0))) []] @ CtxDone # [])
      other_hub =
    (Returned, other_hub\<lparr>h_broadcast := [(''r1'', frame (quiet_env 9) ServerMsgNewMessage (new_message_event (hello_message 0)))]\<rparr>)"
  by (subst room_loop_queues) (simp_all add: is_message_def hello_routed queueCap_def)

section \<open>Members that come and go\<close>

lemma forget_room_log [simp]: "published (w_bus (forget_room c e r w)) = published (w_bus w)"
  by (auto simp: forget_room_def on_bus_def cache_del_def del_key_def split: option.splits prod.splits dest: redis_write_log)

lemma room_events_published:
  assumes "no_faults e"
  shows "published (snd (SubscribeToRoom api e r u b)) =
      published b @ [(''ws:room:'' @ r @ '':events'', room_event e ''subscribe_room'' r u ''joined'')]"
    "published (snd (UnsubscribeFromRoom api e r u b)) =
      published b @ [(''ws:room:'' @ r @ '':events'', room_event e ''unsubscribe_room'' r u ''left'')]"
  using assms by (simp_all add: SubscribeToRoom_def UnsubscribeFromRoom_def Let_def Publish_def)

lemma JoinRoom_log:
  assumes "JoinRoom cache (Some api) e i u w = (Inr (), w')" "no_faults e" "\<not> active_member (w_db w) i u"
  shows "published (w_bus w') = published (w_bus w) @ [(''ws:room:'' @ i @ '':events'', room_event e ''subscribe_room'' i u ''joined'')]"
proof (cases "plan_join e i u (w_db w)")
  case Already
  then show ?thesis using plan_already [of e i u "w_db w"] assms(3) by simp
next
  case Rejoin
  then show ?thesis
    using assms(1)
    by (auto simp: room_events_published(1) [OF assms(2)] JoinRoom_def on_db_def subscribe_room_def on_bus_def split_beta split: sum.splits)
qed (use assms(1) in \<open>simp add: JoinRoom_def\<close>)

lemma LeaveRoom_log:
  assumes "LeaveRoom cache (Some api) e i u w = (Inr (), w')" "no_faults e"
  shows "published (w_bus w') = published (w_bus w) @ [(''ws:room:'' @ i @ '':events'', room_event e ''unsubscribe_room'' i u ''left'')]"
  using assms(1)
  by (auto simp: room_events_published(2) [OF assms(2)] LeaveRoom_def on_db_def on_bus_def split_beta split: sum.splits)

lemma event_channel: "CHR '':'' \<notin> set r \<Longrightarrow> extractRoomIDAndEvent (''ws:room:'' @ r @ '':events'') = (r, ''events'')"
  using channel_roundtrip [of r] by (rule conjunct2)

lemma room_event_routed:
  assumes "CHR '':'' \<notin> set r" "r \<noteq> []"
  shows "routed e' (''ws:room:'' @ r @ '':events'') (Some (room_event e q r u ''joined'')) =
      [(r, frame e' ServerMsgMemberJoined (JObj [(''room_id'', JStr r), (''user_id'', JStr u)]))]"
    "routed e' (''ws:room:'' @ r @ '':events'') (Some (room_event e q r u ''left'')) =
      [(r, frame e' ServerMsgMemberLeft (JObj [(''room_id'', JStr r), (''user_id'', JStr u)]))]"
  using assms(2) unfolding routed_def event_channel [OF assms(1)]
  by (simp_all add: room_event_def member_event_frame_def json_fields Let_def)


lemma rooms_answer:
  assumes "serve d e r w = (resp, w')" "hr_route r = Some p" "rooms_route p" "status resp = 200"
    and "ValidateToken (hd_auth d) e (strip_bearer (hr_authorization r)) w = Inr u"
  shows "\<exists>resp0. rooms_handler d e r p (u_id u) w = (resp0, w') \<and> status resp0 = 200"
  using assms(1)
proof (cases rule: serve_cases)
  case (ran q resp0)
  then have run: "run_route d e r p w = (resp0, w')" using assms(2) by simp
  from rooms_run [OF assms(3) run] show ?thesis
    using ran(3) assms(4,5) by (intro exI [of _ resp0]) (auto simp: token_user_def split: if_splits)
qed (use assms(2,4) in auto)

lemma join_answer:
  "rooms_handler d e r (JoinRoute i) u w = (resp0, w') \<Longrightarrow> status resp0 = 200 \<Longrightarrow> JoinRoom (hd_cache d) (hd_ps d) e i u w = (Inr (), w')"
  by (auto simp: Handlers_JoinRoom_def with_user_def split: sum.splits prod.splits if_splits)

lemma leave_answer:
  "rooms_handler d e r (LeaveRoute i) u w = (resp0, w') \<Longrightarrow> status resp0 = 200 \<Longrightarrow> LeaveRoom (hd_cache d) (hd_ps d) e i u w = (Inr (), w')"
  by (auto simp: Handlers_LeaveRoom_def with_user_def split: sum.splits prod.splits)

text \<open>
  C30. Who joins or leaves over REST is announced to the room: a join of somebody who was not a member, and any
  leave, that is answered 200 publishes one event, and the room loop of every server turns it into one frame for
  the subscribers of exactly that room that says who joined or left.
\<close>

theorem membership_is_announced:
  assumes "serve d e r w = (resp, w')" "hr_route r = Some p" "p \<in> {JoinRoute i, LeaveRoute i}" "status resp = 200"
    and "ValidateToken (hd_auth d) e (strip_bearer (hr_authorization r)) w = Inr u"
    and "p = JoinRoute i \<Longrightarrow> \<not> active_member (w_db w) i (u_id u)"
    and "hd_ps d = Some api" "no_faults e" "CHR '':'' \<notin> set i" "i \<noteq> []"
  shows "\<exists>j. published (w_bus w') = published (w_bus w) @ [(''ws:room:'' @ i @ '':events'', j)] \<and>
    (\<forall>e' ids. event_frames (Message e' (''ws:room:'' @ i @ '':events'') (Some j) ids) =
      [(i, frame e' (if p = JoinRoute i then ServerMsgMemberJoined else ServerMsgMemberLeft)
             (JObj [(''room_id'', JStr i), (''user_id'', JStr (u_id u))]))])"
proof (cases "p = JoinRoute i")
  case True
  obtain resp0 where "rooms_handler d e r (JoinRoute i) (u_id u) w = (resp0, w')" "status resp0 = 200"
    using rooms_answer [OF assms(1,2) _ assms(4,5)] True by auto
  then have join: "JoinRoom (hd_cache d) (Some api) e i (u_id u) w = (Inr (), w')" using join_answer assms(7) by metis
  show ?thesis
    using JoinRoom_log [OF join assms(8) assms(6) [OF True]] True
    by (intro exI [of _ "room_event e ''subscribe_room'' i (u_id u) ''joined''"] conjI allI)
      (assumption, simp only: event_frames.simps room_event_routed [OF assms(9,10)] simp_thms if_True)
next
  case False
  then have p: "p = LeaveRoute i" using assms(3) by simp
  obtain resp0 where "rooms_handler d e r (LeaveRoute i) (u_id u) w = (resp0, w')" "status resp0 = 200"
    using rooms_answer [OF assms(1,2) _ assms(4,5)] p by auto
  then have leave: "LeaveRoom (hd_cache d) (Some api) e i (u_id u) w = (Inr (), w')" using leave_answer assms(7) by metis
  show ?thesis
    using LeaveRoom_log [OF leave assms(8)] False
    by (intro exI [of _ "room_event e ''unsubscribe_room'' i (u_id u) ''left''"] conjI allI)
      (assumption, simp only: event_frames.simps room_event_routed [OF assms(9,10)] simp_thms if_False)
qed

lemma LeaveRoom_gone: "LeaveRoom cache ps e i u w = (Inr (), w') \<Longrightarrow> \<not> active_member (w_db w') i u"
proof -
  assume left: "LeaveRoom cache ps e i u w = (Inr (), w')"
  then have "w_db w' = snd (LeaveRoomTx e i u (w_db w))" "fst (LeaveRoomTx e i u (w_db w)) = Inr ()"
    by (auto simp: LeaveRoom_def on_db_def on_bus_def split_beta split: sum.splits option.splits)
  then have "LeaveRoomTx e i u (w_db w) = (Inr (), w_db w')" by (simp add: prod_eq_iff)
  from LeaveRoomTx_gone [OF this, of "quiet_env 0"] show ?thesis
    by (auto simp: RoomRepo_IsMember_def active_member_def sql_exists_iff)
qed

lemma server_hub_ok: "server_reachable s w n \<Longrightarrow> hub_ok (n_hub n)"
  unfolding server_reachable_def
proof (induction rule: rtranclp_induct)
  case base
  show ?case using NewHub_ok by (simp add: start_node_def)
next
  case (step x y)
  show ?case using run_invariant [OF server_runs_hub [OF step(2)], of hub_ok] step(3) hub_step_ok by blast
qed

text \<open>
  Leaving over REST does not end a subscription: after a member has left, the hub still counts every open
  connection of the user as a subscriber, and the next message of the room can still reach it, although the
  user is no member any more and could not subscribe or read the history.
\<close>

theorem leaver_still_receives:
  assumes "serve d e r (n_world n) = (resp, w')" "hr_route r = Some (LeaveRoute i)" "status resp = 200"
    and "ValidateToken (hd_auth d) e (strip_bearer (hr_authorization r)) (n_world n) = Inr u"
    and "server_reachable s w0 n" "\<not> h_panicked (n_hub n)" "h_pc (n_hub n) = Waiting" "h_broadcast (n_hub n) = []"
    and "c_user (h_client (n_hub n) c) = u_id u" "isSubscribed c i (n_hub n)" "receives c (n_hub n)"
    and "CHR '':'' \<notin> set i" "i \<noteq> []" "m_room_id m = i"
  shows "\<not> active_member (w_db w') i (u_id u) \<and>
    (\<exists>h'. hub_step\<^sup>*\<^sup>* (fanout_room e' (''ws:room:'' @ i) (Some (new_message_event m)) (n_hub (n\<lparr>n_world := w'\<rparr>))) h' \<and>
      frame e' ServerMsgNewMessage (new_message_event m) \<in> set (c_send (h_client h' c)))"
proof -
  obtain resp0 where "rooms_handler d e r (LeaveRoute i) (u_id u) (n_world n) = (resp0, w')" "status resp0 = 200"
    using rooms_answer [OF assms(1,2) _ assms(3,4)] by auto
  then have leave: "LeaveRoom (hd_cache d) (hd_ps d) e i (u_id u) (n_world n) = (Inr (), w')" by (rule leave_answer)
  have "\<not> active_member (w_db w') i (u_id u)" by (rule LeaveRoom_gone [OF leave])
  moreover have "finite (ids_of (h_rooms (n_hub n)) i)"
    using server_hub_ok [OF assms(5)] by (auto simp: hub_oks intro: finite_subset [of _ "h_made (n_hub n)"])
  then obtain h' where "hub_step\<^sup>*\<^sup>* (enqueue i (frame e' ServerMsgNewMessage (new_message_event m)) (n_hub n)) h'"
      "c_send (h_client h' c) = c_send (h_client (n_hub n) c) @ [frame e' ServerMsgNewMessage (new_message_event m)]"
    using fanout_runs [OF assms(6-8), of i "frame e' ServerMsgNewMessage (new_message_event m)"] assms(10,11)
    by (auto simp: isSubscribed_def)
  ultimately show ?thesis
    unfolding new_message_frame [OF assms(12,13,14)] by (intro conjI exI [of _ h']) (simp_all add: new_message_frame [OF assms(12,13,14)])
qed

text \<open>A node on which \<open>bob\<close> is connected, registered and subscribed to \<open>r1\<close>.\<close>

definition r1_msg :: client_message where
  "r1_msg = \<lparr>cm_id = ''m1'', cm_type = ''subscribe'', cm_timestamp = 0,
     cm_data = Some (JObj [(''room_ids'', JArr [JStr ''r1''])])\<rparr>"

definition joined_hub :: hub where
  "joined_hub = register_client ''b'' ((n_hub sample_node)\<lparr>h_register := []\<rparr>)"

definition subscribed_node :: "ref_redis node" where
  "subscribed_node = sample_node\<lparr>n_world := sample_world,
     n_hub := sendAck (quiet_env 0) ''b'' ''m1'' [] ''subscribed'' (Hub_SubscribeToRoom ''b'' ''r1'' joined_hub)\<rparr>"

lemma joined_hub_simps [simp]:
  "c_user (h_client joined_hub ''b'') = ''bob''" "\<not> isClosed (h_client joined_hub ''b'')" "''b'' \<in> h_made joined_hub"
  "c_reading (h_client joined_hub ''b'')" "\<not> h_panicked joined_hub" "h_pc joined_hub = Waiting" "h_broadcast joined_hub = []"
  "''b'' \<in> h_clients joined_hub" "c_send (h_client joined_hub ''b'') = []" "\<not> c_draining (h_client joined_hub ''b'')"
  by (simp_all add: joined_hub_def sample_node_simps bob_defs isClosed_def)

lemma subscribed_runs:
  "handleMessage None (quiet_env 0) ''b'' (Some (client_message_json r1_msg)) (sample_world, joined_hub) =
    (sample_world, n_hub subscribed_node)"
proof -
  have "unmarshal subscribe_data_of r1_msg = Some \<lparr>RoomIDs = [''r1''], PresenceSubscribe = []\<rparr>"
    by (simp add: unmarshal_def r1_msg_def subscribe_data_of_def is_struct_def str_list_field_def)
  moreover have "client_type_of (cm_type r1_msg) = Some ClientMsgSubscribe" "cm_id r1_msg = ''m1''"
    using client_type_roundtrip [of ClientMsgSubscribe] by (simp_all add: r1_msg_def)
  moreover have "RoomRepo_IsMember (quiet_env 0) ''r1'' ''bob'' sample_db = Inr True" by (rule sample_guards(2))
  ultimately show ?thesis
    by (simp add: handleMessage_def client_message_roundtrip handleSubscribe_def maxRoomSubscriptions_def RoomService_IsMember_def
        subscribed_node_def)
qed

lemma subscribed_reachable: "server_reachable sample_server sample_world subscribed_node"
proof -
  let ?n = "sample_node\<lparr>n_hub := joined_hub\<rparr>"
  have "server_step sample_server sample_node ?n"
  proof (rule hub_moves)
    show "hub_step (n_hub sample_node) joined_hub"
      unfolding joined_hub_def by (rule take_register) (simp_all add: sample_node_simps add_client_def NewHub_def)
    show "messages joined_hub \<subseteq> messages (n_hub sample_node)"
      by (simp add: joined_hub_def register_client_def messages_def)
  qed (simp_all add: joined_hub_def register_client_def)
  moreover have "n_world ?n = sample_world" by (simp add: sample_node_def sample_handshake)
  then have "server_step sample_server ?n subscribed_node"
    using client_frame [of ?n "''b''" sample_server "quiet_env 0" "Some (client_message_json r1_msg)" sample_world "n_hub subscribed_node"]
      subscribed_runs by (simp add: subscribed_node_def)
  ultimately show ?thesis
    using sample_reachable unfolding server_reachable_def by (metis rtranclp.rtrancl_into_rtrancl)
qed

lemma subscribed_simps:
  "n_world subscribed_node = sample_world" "\<not> h_panicked (n_hub subscribed_node)" "h_pc (n_hub subscribed_node) = Waiting"
  "h_broadcast (n_hub subscribed_node) = []" "c_user (h_client (n_hub subscribed_node) ''b'') = ''bob''"
  "isSubscribed ''b'' ''r1'' (n_hub subscribed_node)" "receives ''b'' (n_hub subscribed_node)"
  using joined_hub_simps(2)
  by (simp_all add: subscribed_node_def sendAck_def reply_def Hub_SubscribeToRoom_def isSubscribed_def receives_def sendCap_def
      push_def isClosed_def)

lemma bob_leaves_room:
  "\<exists>resp w'. serve sample_http sample_env (bob_asks ''POST'' (LeaveRoute ''r1'')) sample_world = (resp, w') \<and> status resp = 200"
proof -
  have "GetMember sample_env ''r1'' ''bob'' sample_db = Inr (sample_member ''bob'' RoleMember 0)" by (rule bob_lookups)
  moreover have "fst (LeaveRoomTx sample_env ''r1'' ''bob'' sample_db) = Inr ()"
    by (simp add: LeaveRoomTx_def sample_env_def mark_left_def recount_members_def)
  ultimately obtain w' where "LeaveRoom (Some ref_api) (Some ref_api) sample_env ''r1'' ''bob'' sample_world = (Inr (), w')"
    by (simp add: LeaveRoom_def on_db_def split_beta)
  then have "rooms_handler sample_http sample_env (bob_asks ''POST'' (LeaveRoute ''r1'')) (LeaveRoute ''r1'') ''bob'' sample_world =
      (respond 200 (JObj [(''status'', JStr ''left'')]), w')"
    by (simp add: Handlers_LeaveRoom_def with_user_def sample_http_simps)
  from bob_runs [OF _ _ this] show ?thesis by (auto simp: respond_def)
qed

lemma membership_is_announced_witness:
  "\<exists>resp w' j. serve sample_http sample_env (bob_asks ''POST'' (LeaveRoute ''r1'')) sample_world = (resp, w') \<and>
     published (w_bus w') = [(''ws:room:r1:events'', j)] \<and>
     event_frames (Message sample_env ''ws:room:r1:events'' (Some j) []) =
       [(''r1'', frame sample_env ServerMsgMemberLeft (JObj [(''room_id'', JStr ''r1''), (''user_id'', JStr ''bob'')]))]"
proof -
  obtain resp w' where run: "serve sample_http sample_env (bob_asks ''POST'' (LeaveRoute ''r1'')) sample_world = (resp, w')" "status resp = 200"
    using bob_leaves_room by blast
  have "no_faults sample_env" by (simp add: sample_env_def)
  from membership_is_announced [OF run(1) bob_fields(2) _ run(2) bob_token _ sample_http_simps(2) this, of "''r1''"] run(1)
  show ?thesis by (auto simp: sample_user_def)
qed

lemma leaver_still_receives_witness:
  "\<exists>resp w' h'. serve sample_http sample_env (bob_asks ''POST'' (LeaveRoute ''r1'')) (n_world subscribed_node) = (resp, w') \<and>
     \<not> active_member (w_db w') ''r1'' ''bob'' \<and>
     hub_step\<^sup>*\<^sup>* (fanout_room sample_env (''ws:room:'' @ ''r1'') (Some (new_message_event (hello_message 0)))
       (n_hub (subscribed_node\<lparr>n_world := w'\<rparr>))) h' \<and>
     frame sample_env ServerMsgNewMessage (new_message_event (hello_message 0)) \<in> set (c_send (h_client h' ''b''))"
proof -
  obtain resp w' where run: "serve sample_http sample_env (bob_asks ''POST'' (LeaveRoute ''r1'')) (n_world subscribed_node) = (resp, w')" "status resp = 200"
    using bob_leaves_room subscribed_simps(1) by metis
  have tok: "ValidateToken (hd_auth sample_http) sample_env (strip_bearer (hr_authorization (bob_asks ''POST'' (LeaveRoute ''r1'')))) (n_world subscribed_node)
      = Inr (sample_user ''bob'')"
    using bob_token by (simp only: subscribed_simps(1))
  have bob: "c_user (h_client (n_hub subscribed_node) ''b'') = u_id (sample_user ''bob'')" "u_id (sample_user ''bob'') = ''bob''"
    by (simp_all add: subscribed_simps sample_user_def)
  have m: "m_room_id (hello_message 0) = ''r1''" by (simp add: hello_message_def new_message_def hello_def)
  have "CHR '':'' \<notin> set ''r1''" "''r1'' \<noteq> []" by simp_all
  from leaver_still_receives [OF run(1) bob_fields(2) run(2) tok subscribed_reachable subscribed_simps(2-4) bob(1) subscribed_simps(6,7) this m, of sample_env]
  show ?thesis using run(1) unfolding bob(2) by blast
qed

end
