(* ===== verification/Operations.thy ===== *)
theory Operations
  imports Error_Paths
begin

text \<open>
  What all the operations of the services keep, the handlers, the middleware, the frames and the handshake keep:
  the contract of the operations as a locale, and its consequences for everything that calls them.
\<close>

section \<open>The contract\<close>

text \<open>
  A relation between the world before and after that every operation of a service that changes tables or
  publishes satisfies, and every change of Redis that publishes nothing.
\<close>

locale kept =
  fixes R :: "'r world \<Rightarrow> 'r world \<Rightarrow> bool"
  assumes quiet: "tables_and_log w' = tables_and_log w \<Longrightarrow> R w w'"
    and chain: "R w1 w2 \<Longrightarrow> R w2 w3 \<Longrightarrow> R w1 w3"
    and send: "R w (snd (SendMessage ps e inp w))"
    and edit: "R w (snd (EditMessage ps e i u raw w))"
    and delete: "R w (snd (DeleteMessage ps e i u w))"
    and reactions: "R w (snd (AddReaction e i emoji u w))" "R w (snd (RemoveReaction e i emoji u w))"
    and presence: "R w (snd (PresenceService_SetPresence ps e u st info w))"
    and mark_read: "R w (snd (RoomService_MarkRead e r u m w))"
    and register: "R w (snd (Register s e account w))"
    and create: "R w (snd (RoomService_Create e nm ty descr u w))"
    and join: "R w (snd (JoinRoom cache ps e r u w))"
    and leave: "R w (snd (LeaveRoom cache ps e r u w))"
begin

lemma same [simp]: "R w w"
  by (rule quiet) simp

lemma redis: "published b = published (w_bus w) \<Longrightarrow> R w (w\<lparr>w_bus := b\<rparr>)"
  by (rule quiet) (simp add: tables_and_log_def)

lemma accounts:
  "R w (snd (AuthService_RefreshToken s e token w))" "R w (snd (Logout s e a b w))" "R w (snd (RoomService_GetByID cache e i w))"
  by (rule quiet, metis RefreshToken_frame Logout_frame GetByID_log prod.collapse)+

lemmas operations = register create accounts join leave

lemma kept_handleChatMessage: "R w (fst (handleChatMessage ps e i msg (w, h)))"
proof -
  have "R w (fst (case SendMessage ps e inp w of (Inl x, w1) \<Rightarrow> (w1, f x) | (Inr m, w1) \<Rightarrow> (w1, g m)))" for inp f and g :: "message \<Rightarrow> hub"
    using send [of w ps e inp] by (auto split: prod.splits sum.splits)
  then show ?thesis by (simp add: handleChatMessage_def Let_def split: option.split)
qed

lemma kept_frames:
  "R w (fst (handleReaction e i msg (w, h)))" "R w (fst (handleEdit ps e i msg (w, h)))"
  "R w (fst (handleDelete ps e i msg (w, h)))" "R w (fst (handlePresence ps e i msg (w, h)))"
  "R w (fst (handleReadReceipt e i msg (w, h)))"
  using reactions [of w] edit [of w] delete [of w] presence [of w] mark_read [of w]
  by (simp_all add: handleReaction_def handleEdit_def handleDelete_def handlePresence_def handleReadReceipt_def split_beta
      split: option.split sum.split)

lemma kept_handleMessage: "R w (fst (handleMessage ps e i data (w, h)))"
  by (simp add: handleMessage_def subscribe_world quiet_handlers kept_handleChatMessage kept_frames split: option.split client_msg_type.split)

lemma kept_handshake: "handleWebSocket s e r n = (resp, n') \<Longrightarrow> R (n_world n) (n_world n')"
proof -
  have rules: "published (snd (connection_rules api e u rules b)) = published b" for api u rules b
  proof (induction rules arbitrary: b)
    case (Cons rule rules)
    obtain a b1 where c: "CheckRateLimit api e (''connection:'' @ u) (rule_limit rule) (rule_window rule) b = (a, b1)" by (rule prod.exhaust)
    show ?case using Cons c CheckRateLimit_log [OF c] by (auto split: sum.split bool.split)
  qed simp
  have check: "R w (snd (rate_check s e u w))" for u and w :: "'r world"
    by (auto simp: rate_check_def on_bus_def split_beta rules intro!: redis split: option.split)
  have upgrade: "R (n_world n) (n_world (snd (let (allowed, w2) = rate_check s e (u_id u) (n_world n); n2 = n1\<lparr>n_world := w2\<rparr> in
            if \<not> allowed then (Refused 429 ''Too many connections'', bump ip (- 1) n2)
            else if \<not> ok then (UpgradeFailed, bump ip (- 1) n2)
            else (Upgraded, n2\<lparr>n_hub := add_client (conn_id r) (u_id u) ip (n_hub n2)\<rparr>))))" for u n1 ip ok
    using check [of "n_world n" "u_id u"] by (simp add: split_beta Let_def)
  assume "handleWebSocket s e r n = (resp, n')"
  then show ?thesis
    using upgrade by (auto simp: handleWebSocket_def Let_def split: if_splits sum.splits dest!: arg_cong [where f = snd] sym [of _ n'])
qed

text \<open>Through the handlers and the middleware.\<close>

lemma kept_rooms_handler: "R w (snd (rooms_handler d e r p u w))"
  using operations [of w]
  by (cases p) (simp_all add: Handlers_CreateRoom_def ListRooms_def GetRoom_def Handlers_GetRoomMessages_def Handlers_JoinRoom_def
      Handlers_LeaveRoom_def with_user_def split_beta split: option.split sum.split bool.split)

lemma kept_account_handlers:
  "R w (snd (Handlers_Register d e r w))" "R w (snd (Handlers_Refresh d e r w))" "R w (snd (Handlers_Logout d e r w))"
  using operations [of w]
  by (simp_all add: Handlers_Register_def Handlers_Refresh_def Handlers_Logout_def Let_def split_beta split: option.split sum.split)

lemma kept_rate_limit:
  assumes "\<And>w. R w (snd (next w))"
  shows "R w (snd (RateLimitMiddleware ps k n t e r u next w))"
proof (cases ps)
  case (Some api)
  have 1: "R w (w\<lparr>w_bus := snd (CheckRateLimit api e key n t (w_bus w))\<rparr>)" for key
    by (rule redis) (metis CheckRateLimit_log prod.collapse)
  then have "R w (snd (next (w\<lparr>w_bus := snd (CheckRateLimit api e key n t (w_bus w))\<rparr>)))" for key
    using chain assms by blast
  then show ?thesis
    using 1 assms Some by (simp add: RateLimitMiddleware_def on_bus_def Let_def split_beta split: sum.split bool.split)
qed (simp add: RateLimitMiddleware_def assms)

lemma kept_auth: "(\<And>u. R w (snd (next u w))) \<Longrightarrow> R w (snd (AuthMiddleware d e r next w))"
  by (simp add: AuthMiddleware_def split: sum.split)

lemma kept_route: "R w (snd (run_route d e r p w))"
proof (cases "rooms_route p")
  case True
  obtain resp w' where run: "run_route d e r p w = (resp, w')" by (rule prod.exhaust)
  show ?thesis
    using rooms_run [OF True run] kept_rooms_handler [of w d e r p] run by (auto split: option.splits) (metis snd_conv)
next
  case False
  then show ?thesis
    by (cases p) (auto simp: auth_group_def Let_def intro!: kept_rate_limit kept_auth kept_account_handlers)
qed

lemma kept_serve: "serve d e r w = (resp, w') \<Longrightarrow> R w w'"
proof (cases rule: serve_cases)
  assume "serve d e r w = (resp, w')"
  then show "serve d e r w = (resp, w')" .
next
  fix p resp0 assume "run_route d e r p w = (resp0, w')"
  then show "R w w'" using kept_route [of w d e r p] by simp
qed simp_all

end

end
