(* ===== verification/Published.thy ===== *)
theory Published
  imports Operations
begin

text \<open>
  What the program tells: every operation only appends to the log of the channels, and what it appends is about a
  message that is stored, with its cleaned text, or a member who came or went, or a presence.
\<close>

section \<open>Messages keep their place\<close>

text \<open>The ids of the stored messages with room and author; rows are never removed, only marked as deleted.\<close>

definition posts :: "db \<Rightarrow> (string \<times> string \<times> string) set" where
  "posts d = (\<lambda>m. (m_id m, m_room_id m, m_user_id m)) ` set (t_messages d)"

lemma posts_same: "t_messages d' = t_messages d \<Longrightarrow> posts d' = posts d"
  by (simp add: posts_def)

lemma posts_update:
  assumes "\<And>m. m_id (f m) = m_id m" "\<And>m. m_room_id (f m) = m_room_id m" "\<And>m. m_user_id (f m) = m_user_id m"
  shows "posts (d\<lparr>t_messages := sql_update p f (t_messages d)\<rparr>) = posts d"
proof -
  let ?k = "\<lambda>m. (m_id m, m_room_id m, m_user_id m)"
  have same: "map ?k (sql_update p f (t_messages d)) = map ?k (t_messages d)" by (simp add: sql_update_def assms)
  show ?thesis using arg_cong [OF same, of set] by (simp add: posts_def del: set_map) (simp only: list.set_map)
qed

text \<open>An operation of the database keeps them.\<close>

lemma exec_posts:
  assumes "\<And>d'. f d = Inr d' \<Longrightarrow> posts d \<subseteq> posts d'"
  shows "posts d \<subseteq> posts (snd (db_exec e q f d))"
  using db_exec_preserves [where P = "\<lambda>d'. posts d \<subseteq> posts d'"] assms by blast

lemma commit_posts: "posts d \<subseteq> posts d' \<Longrightarrow> posts d \<subseteq> posts (snd (tx_commit e q d d'))"
  by (auto simp: tx_commit_def split: option.splits fault.splits)

lemma message_writes:
  "insert_message m d = Inr d' \<Longrightarrow> posts d' = insert (m_id m, m_room_id m, m_user_id m) (posts d)"
  "update_message m d = Inr d' \<Longrightarrow> posts d' = posts d" "set_reactions i rs d = Inr d' \<Longrightarrow> posts d' = posts d"
  "mark_deleted i t u d = Inr d' \<Longrightarrow> posts d' = posts d"
  by (auto simp: insert_message_def update_message_def set_reactions_def mark_deleted_def posts_update Let_def split: if_splits)
    (simp add: posts_def)+

section \<open>What is told\<close>

text \<open>
  An entry of the log and what it is about: a message or its edited form with cleaned text, on the channel of its
  room, a deletion, a change of members, or a presence.
\<close>

inductive told :: "(string \<times> string \<times> string) set \<Rightarrow> string \<times> json \<Rightarrow> bool" for P where
  posted: "(m_id m, m_room_id m, m_user_id m) \<in> P \<Longrightarrow> m_content m = clean_content raw \<Longrightarrow>
    told P (''ws:room:'' @ m_room_id m, new_message_event m)"
| edited: "(m_id m, m_room_id m, m_user_id m) \<in> P \<Longrightarrow> m_content m = clean_content raw \<Longrightarrow>
    told P (''ws:room:'' @ m_room_id m, edited_event m)"
| deleted: "(i, r, u) \<in> P \<Longrightarrow> told P (''ws:room:'' @ r, deleted_event r i)"
| members: "a \<in> {''joined'', ''left''} \<Longrightarrow> told P (''ws:room:'' @ r @ '':events'', room_event e q r u a)"
| presence: "told P (''ws:presence'', j)"

lemma told_mono: "told P entry \<Longrightarrow> P \<subseteq> P' \<Longrightarrow> told P' entry"
  by (induction rule: told.induct) (blast intro: told.intros)+

definition tells :: "'r world \<Rightarrow> 'r world \<Rightarrow> bool" where
  "tells w w' \<longleftrightarrow> posts (w_db w) \<subseteq> posts (w_db w') \<and>
     (\<exists>new. published (w_bus w') = published (w_bus w) @ new \<and> list_all (told (posts (w_db w'))) new)"

lemma tells_quiet: "posts (w_db w) \<subseteq> posts (w_db w') \<Longrightarrow> published (w_bus w') = published (w_bus w) \<Longrightarrow> tells w w'"
  by (simp add: tells_def)

lemma tells_same: "tables_and_log w' = tables_and_log w \<Longrightarrow> tells w w'"
  by (simp add: tells_def tables_and_log_def)

lemma tells_refl [simp]: "tells w w"
  by (simp add: tells_quiet)

lemma tells_trans: "tells w1 w2 \<Longrightarrow> tells w2 w3 \<Longrightarrow> tells w1 w3"
proof -
  assume 1: "tells w1 w2" and 2: "tells w2 w3"
  obtain n1 where n1: "published (w_bus w2) = published (w_bus w1) @ n1" "list_all (told (posts (w_db w2))) n1"
    using 1 by (auto simp: tells_def)
  obtain n2 where n2: "published (w_bus w3) = published (w_bus w2) @ n2" "list_all (told (posts (w_db w3))) n2"
    using 2 by (auto simp: tells_def)
  have sub: "posts (w_db w1) \<subseteq> posts (w_db w2)" "posts (w_db w2) \<subseteq> posts (w_db w3)" using 1 2 by (auto simp: tells_def)
  then have "list_all (told (posts (w_db w3))) n1" using n1(2) told_mono [OF _ sub(2)] by (auto simp: list_all_iff)
  then show ?thesis using n1(1) n2 sub unfolding tells_def by (intro conjI exI [of _ "n1 @ n2"]) auto
qed

lemma tells_publish_room:
  "told (posts (w_db w)) (''ws:room:'' @ r, j) \<Longrightarrow> tells w (publish_room ps e r j w)"
  using publish_room_log [of ps e r j w] by (auto simp: tells_def)

lemma tells_db: "posts (w_db w) \<subseteq> posts (snd (f (w_db w))) \<Longrightarrow> tells w (snd (on_db f w))"
  by (simp add: tells_quiet)

lemma tells_Publish:
  "published b = published (w_bus w) \<Longrightarrow> told (posts (w_db w)) (c, j) \<Longrightarrow> tells w (w\<lparr>w_bus := snd (Publish e c j b)\<rparr>)"
  by (auto simp: Publish_def tells_def split: option.splits fault.splits)

section \<open>The services\<close>

lemma tells_dedup: "tells w (markDedup ps e u c i w)" "checkDedup ps e u c w = (r, w') \<Longrightarrow> tells w w'"
  by (auto intro: tells_quiet tells_same dest: checkDedup_db)

lemma tells_send_new: "tells w (snd (send_new ps e inp w))"
proof -
  let ?content = "clean_content (in_content inp)"
  obtain r m d where c: "MessageRepo_Create e (new_message inp ?content) (w_db w) = (r, m, d)" by (metis prod.exhaust)
  let ?w1 = "w\<lparr>w_db := d\<rparr>"
  let ?w2 = "if in_client inp \<noteq> [] then markDedup ps e (in_user inp) (in_client inp) (m_id m) ?w1 else ?w1"
  have m: "m_content m = ?content" "snd (db_exec e ''create_message'' (insert_message m) (w_db w)) = d"
      "fst (db_exec e ''create_message'' (insert_message m) (w_db w)) = r"
    using c by (auto simp: MessageRepo_Create_def Let_def new_message_def split: prod.splits)
  have sub: "posts (w_db w) \<subseteq> posts d"
    using exec_posts [of "insert_message m" "w_db w" e "''create_message''"] message_writes(1) m(2) by blast
  have 1: "tells w ?w1" using sub by (simp add: tells_quiet)
  have 2: "tells w ?w2" using tells_trans [OF 1 tells_dedup(1)] 1 by simp
  have 3: "tells w (publish_room ps e (m_room_id m) (new_message_event m) ?w2)" if ok: "r = Inr ()"
  proof (rule tells_trans [OF 2 tells_publish_room])
    have "insert_message m (w_db w) = Inr d" using m(2,3) ok db_exec_ok by (metis prod.collapse)
    then have "(m_id m, m_room_id m, m_user_id m) \<in> posts (w_db ?w2)" by (simp add: message_writes(1))
    then show "told (posts (w_db ?w2)) (''ws:room:'' @ m_room_id m, new_message_event m)"
      by (rule told.posted [OF _ m(1)])
  qed
  show ?thesis
    using 1 3 by (auto simp: send_new_def Let_def on_db_def c split: sum.splits bool.splits)
qed

lemma tells_SendMessage: "tells w (snd (SendMessage ps e inp w))"
proof -
  obtain y w1 where d: "checkDedup ps e (in_user inp) (in_client inp) w = (y, w1)" by (rule prod.exhaust)
  show ?thesis
    using tells_send_new [of w ps e inp] tells_dedup(2) [OF d] tells_trans [OF tells_dedup(2) [OF d] tells_send_new]
    by (auto simp: SendMessage_def d split: option.splits)
qed

lemma edit_check_clean:
  "edit_check e i u raw w = Inr m \<Longrightarrow> (m_id m, m_room_id m, m_user_id m) \<in> posts (w_db w) \<and> m_content m = clean_content raw"
  by (auto simp: edit_check_def Let_def posts_def split: sum.splits if_splits bool.splits dest!: GetByID_row)

lemma tells_EditMessage: "tells w (snd (EditMessage ps e i u raw w))"
proof (cases "edit_check e i u raw w")
  case (Inr msg)
  note row = edit_check_clean [OF Inr]
  obtain r m d where c: "MessageRepo_Update e msg (w_db w) = (r, m, d)" by (metis prod.exhaust)
  have m: "m_id m = m_id msg" "m_room_id m = m_room_id msg" "m_user_id m = m_user_id msg" "m_content m = m_content msg"
      "snd (db_exec e ''update_message'' (update_message m) (w_db w)) = d"
    using c by (auto simp: MessageRepo_Update_def Let_def split: prod.splits)
  have sub: "posts (w_db w) \<subseteq> posts d"
    using exec_posts [of "update_message m" "w_db w" e "''update_message''"] message_writes(2) m(5) by simp
  have 1: "tells w (w\<lparr>w_db := d\<rparr>)" using sub by (simp add: tells_quiet)
  have "told (posts (w_db (w\<lparr>w_db := d\<rparr>))) (''ws:room:'' @ m_room_id m, edited_event m)"
    using row sub m by (intro told.edited [of m _ raw]) auto
  from tells_trans [OF 1 tells_publish_room [OF this]] 1 show ?thesis
    by (simp add: EditMessage_def Inr edit_write_def on_db_def c split: sum.split)
qed (simp add: EditMessage_def)

lemma delete_check_row: "delete_check e i u w = Inr m \<Longrightarrow> (i, m_room_id m, m_user_id m) \<in> posts (w_db w)"
  by (auto simp: delete_check_def posts_def split: sum.splits if_splits bool.splits dest!: GetByID_row)

lemma tells_DeleteMessage: "tells w (snd (DeleteMessage ps e i u w))"
proof (cases "delete_check e i u w")
  case (Inr msg)
  obtain r d where c: "MessageRepo_Delete e i u (w_db w) = (r, d)" by (rule prod.exhaust)
  have sub: "posts (w_db w) \<subseteq> posts d"
    using exec_posts [of "mark_deleted i (now e ''delete_message'') u" "w_db w" e "''delete_message''"] message_writes(4) c
    by (simp add: MessageRepo_Delete_def)
  have 1: "tells w (w\<lparr>w_db := d\<rparr>)" using sub by (simp add: tells_quiet)
  have "told (posts (w_db (w\<lparr>w_db := d\<rparr>))) (''ws:room:'' @ m_room_id msg, deleted_event (m_room_id msg) i)"
    using delete_check_row [OF Inr] sub by (intro told.deleted [of _ _ "m_user_id msg"]) auto
  from tells_trans [OF 1 tells_publish_room [OF this]] 1 show ?thesis
    by (simp add: DeleteMessage_def Inr on_db_def c split: sum.split)
qed (simp add: DeleteMessage_def)

lemma UpdateReactionsTx_posts: "posts d \<subseteq> posts (snd (UpdateReactionsTx e i f d))"
  by (auto simp: UpdateReactionsTx_def tx_exec_def split: option.splits sum.splits intro!: commit_posts [THEN subsetD] dest: message_writes(3))

lemma tells_reactions: "tells w (snd (AddReaction e i r u w))" "tells w (snd (RemoveReaction e i r u w))"
  by (simp_all add: AddReaction_def RemoveReaction_def tells_db UpdateReactionsTx_posts split: sum.split)

lemma own_posts: "own_change u d d' \<Longrightarrow> posts d' = posts d"
  by (simp add: own_change_def posts_def)

lemma tells_forget_room: "tells w (forget_room c e r w)"
  by (simp add: tells_quiet)

lemma tells_bus: "published b = published (w_bus w) \<Longrightarrow> tells w (w\<lparr>w_bus := b\<rparr>)"
  by (simp add: tells_quiet)

lemma tells_event:
  assumes "published b = published (w_bus w)" "a \<in> {''joined'', ''left''}"
  shows "tells w (w\<lparr>w_bus := snd (case res of Inl x \<Rightarrow> (Inl x, b)
    | Inr _ \<Rightarrow> Publish e (''ws:room:'' @ r @ '':events'') (room_event e q r u a) b)\<rparr>)"
  using tells_bus [OF assms(1)] tells_Publish [OF assms(1) told.members [OF assms(2)]] by (cases res) simp_all

lemma room_publishers:
  "tells w (snd (on_bus (SubscribeToRoom api e r u) w))" "tells w (snd (on_bus (UnsubscribeFromRoom api e r u) w))"
proof -
  have b: "published (snd (redis_write e k f (w_bus w))) = published (w_bus w)" for k f by simp
  have "tells w (w\<lparr>w_bus := snd (SubscribeToRoom api e r u (w_bus w))\<rparr>)" "tells w (w\<lparr>w_bus := snd (UnsubscribeFromRoom api e r u (w_bus w))\<rparr>)"
    unfolding SubscribeToRoom_def UnsubscribeFromRoom_def Let_def split_beta by (rule tells_event [OF b], blast)+
  then show "tells w (snd (on_bus (SubscribeToRoom api e r u) w))" "tells w (snd (on_bus (UnsubscribeFromRoom api e r u) w))"
    by (simp_all add: on_bus_def split_beta)
qed

lemma tells_JoinRoom: "tells w (snd (JoinRoom cache ps e r u w))"
proof -
  obtain res d where c: "JoinRoomTx e (new_member e ''join_room'' r u RoleMember) (w_db w) = (res, d)" by (rule prod.exhaust)
  have 1: "tells w (w\<lparr>w_db := d\<rparr>)"
    using own_posts [OF JoinRoomTx_own [OF c refl]] by (simp add: tells_quiet)
  have 2: "tells w (forget_room cache e r (w\<lparr>w_db := d\<rparr>))" by (rule tells_trans [OF 1 tells_forget_room])
  have "tells w (subscribe_room ps e r u (forget_room cache e r (w\<lparr>w_db := d\<rparr>)))"
    using 2 tells_trans [OF 2 room_publishers(1)] by (simp add: subscribe_room_def split: option.split)
  then show ?thesis using 1 by (simp add: JoinRoom_def on_db_def c split: join_plan.split sum.split)
qed

lemma tells_LeaveRoom: "tells w (snd (LeaveRoom cache ps e r u w))"
proof -
  obtain res d where c: "LeaveRoomTx e r u (w_db w) = (res, d)" by (rule prod.exhaust)
  have 1: "tells w (w\<lparr>w_db := d\<rparr>)"
    using own_posts [OF LeaveRoomTx_own [OF c]] by (simp add: tells_quiet)
  have 2: "tells w (forget_room cache e r (w\<lparr>w_db := d\<rparr>))" by (rule tells_trans [OF 1 tells_forget_room])
  show ?thesis
    using 1 2 tells_trans [OF 2 room_publishers(2)] by (simp add: LeaveRoom_def on_db_def c split: sum.split option.split)
qed

lemma tells_MarkRead: "tells w (snd (RoomService_MarkRead e r u m w))"
proof -
  have "posts d \<subseteq> posts (snd (RoomRepo_MarkRead e r u m d))" for d
    unfolding RoomRepo_MarkRead_def by (rule exec_posts) (auto simp: upsert_receipt_def posts_def Let_def split: if_splits)
  then show ?thesis by (simp add: RoomService_MarkRead_def tells_db split: sum.split bool.split)
qed

lemma tells_SetPresence: "tells w (snd (PresenceService_SetPresence ps e u st info w))"
  by (simp add: PresenceService_SetPresence_def on_bus_def SetPresence_def set_key_def Let_def split_beta tells_bus tells_Publish
      told.presence split: option.split sum.split)

lemma UserRepo_Create_posts: "UserRepo_Create e u d = (r, u', d') \<Longrightarrow> posts d' = posts d"
  by (auto simp: UserRepo_Create_def Let_def insert_user_def posts_def split: prod.splits if_splits dest!: db_execD)

lemma tells_Register: "tells w (snd (Register s e inp w))"
proof -
  have "tells w (snd (case on_db (\<lambda>d. let (r, u, d') = UserRepo_Create e u d in ((r, u), d')) w of
      ((Inl x, _), w1) \<Rightarrow> (Inl x, w1) | ((Inr _, u), w1) \<Rightarrow> (Inr u, w1)))" for u
  proof -
    obtain r u' d' where c: "UserRepo_Create e u (w_db w) = (r, u', d')" by (metis prod.exhaust)
    show ?thesis using UserRepo_Create_posts [OF c] by (simp add: on_db_def c tells_quiet split: sum.split)
  qed
  then show ?thesis by (simp add: Register_def Let_def split: sum.split)
qed

lemma tells_Create: "tells w (snd (RoomService_Create e nm ty descr u w))"
proof -
  have "tells w (snd (case on_db (\<lambda>d. let (r, x, d') = CreateRoomWithOwner e room owner d in ((r, x), d')) w of
      ((Inl x, _), w1) \<Rightarrow> (Inl x, w1) | ((Inr _, x), w1) \<Rightarrow> (Inr x, w1)))" for room owner
  proof -
    obtain r x d' where c: "CreateRoomWithOwner e room owner (w_db w) = (r, x, d')" by (metis prod.exhaust)
    show ?thesis using own_posts [OF CreateRoomWithOwner_own [OF c refl]] by (simp add: on_db_def c tells_quiet split: sum.split)
  qed
  then show ?thesis by (simp add: RoomService_Create_def Let_def)
qed

text \<open>So the frames, the requests and the handshake of every instance keep to it.\<close>

interpretation telling: kept tells
  by unfold_locales (simp_all add: tells_same tells_trans tells_SendMessage tells_EditMessage tells_DeleteMessage tells_reactions
      tells_SetPresence tells_MarkRead tells_Register tells_Create tells_JoinRoom tells_LeaveRoom)

end
