(* ===== verification/Cluster.thy ===== *)
theory Cluster
  imports Run_Loop Subscriptions Published "HOL-Library.Sublist"
begin

text \<open>
  Several instances of the server on one database and one Redis: what each instance gets is the one log of what
  was published, in its order and with losses, so that all connections everywhere see the events of rooms in that
  order.
\<close>

section \<open>What a connection has and may still get\<close>

text \<open>The frames of room events, by their type.\<close>

definition room_frame :: "json \<Rightarrow> bool" where
  "room_frame d = (case field ''type'' d of
     Some (JStr t) \<Rightarrow> t \<in> {''new_message'', ''message_updated'', ''member_joined'', ''member_left''}
   | _ \<Rightarrow> False)"

lemma room_frame_type [simp]:
  "room_frame (frame e ty d) \<longleftrightarrow> ty \<in> {ServerMsgNewMessage, ServerMsgMessageUpdated, ServerMsgMemberJoined, ServerMsgMemberLeft}"
  by (cases ty) (simp_all add: room_frame_def frame_def server_message_json_def NewServerMessage_def)

text \<open>What went out, what waits in its channel, what the hub is about to send, and what waits for the hub.\<close>

definition about_to_send :: "string \<Rightarrow> hub \<Rightarrow> json list" where
  "about_to_send i h = (case h_pc h of
     Delivering ids d \<Rightarrow> if i \<in> set ids then [d] else []
   | Sending j ids d \<Rightarrow> if i = j \<or> i \<in> set ids then [d] else []
   | _ \<Rightarrow> [])"

definition pipeline :: "string \<Rightarrow> hub \<Rightarrow> json list" where
  "pipeline i h = filter room_frame (stream (h_client h i) @ about_to_send i h @ map snd (h_broadcast h))"

definition each_once :: "hub \<Rightarrow> bool" where
  "each_once h = (case h_pc h of Delivering ids d \<Rightarrow> distinct ids | Sending j ids d \<Rightarrow> distinct (j # ids) | _ \<Rightarrow> True)"

text \<open>Steps that add no room event and keep the order of those that are on their way.\<close>

definition settles :: "hub \<Rightarrow> hub \<Rightarrow> bool" where
  "settles h h' \<longleftrightarrow> (each_once h \<longrightarrow> each_once h' \<and> (\<forall>i. subseq (pipeline i h') (pipeline i h)))"

lemma settles_refl [simp]: "settles h h"
  by (simp add: settles_def)

lemma settles_trans: "settles h1 h2 \<Longrightarrow> settles h2 h3 \<Longrightarrow> settles h1 h3"
  unfolding settles_def by (meson subseq_order.trans)

lemma settles_same:
  "h_pc h' = h_pc h \<Longrightarrow> h_broadcast h' = h_broadcast h \<Longrightarrow> (\<And>i. c_send (h_client h' i) = c_send (h_client h i)) \<Longrightarrow>
   (\<And>i. c_wire (h_client h' i) = c_wire (h_client h i)) \<Longrightarrow> settles h h'"
  by (simp add: settles_def pipeline_def about_to_send_def each_once_def stream_def)

lemma settles_registries [simp]:
  "settles h (register_client i h)" "settles h (cleanupClient i h)" "settles h (reader_leaves i h)" "settles h (CloseAll h)"
  "settles h (Hub_SubscribeToRoom i r h)" "settles h (Hub_UnsubscribeFromRoom i r h)" "settles h (h\<lparr>h_panicked := True\<rparr>)"
  by (rule settles_same; simp add: register_client_def cleanupClient_def reader_leaves_def CloseAll_def Hub_SubscribeToRoom_def
      Hub_UnsubscribeFromRoom_def Let_def split_beta drop_client_simps close_client_def dec_gauges_def close_and_cancel_def)+

lemma settles_push: "\<not> room_frame d \<Longrightarrow> settles h (on_client i (push d) h)"
  by (simp add: settles_def pipeline_def about_to_send_def each_once_def stream_def push_def)

lemma settles_reply [simp]: "\<not> room_frame d \<Longrightarrow> settles h (reply i d h)"
  by (simp add: reply_def settles_push)

lemma settles_enqueue [simp]: "\<not> room_frame d \<Longrightarrow> settles h (enqueue r d h)"
  by (simp add: enqueue_def settles_def pipeline_def about_to_send_def each_once_def)

lemma settles_replies [simp]: "settles h (sendError e i m c t h)" "settles h (sendAck e i m sid st h)"
  by (simp_all add: sendError_def sendAck_def)

lemma settles_subscribe_loop: "settles h (snd (subscribe_loop e i rs (w, h) n))"
proof (induction rs arbitrary: h n)
  case (Cons r rs)
  show ?case
    using settles_trans [OF settles_registries(5) Cons.IH, of h i r "n + 1"] Cons.IH [of h n] by simp
qed simp

lemma settles_unsubscribe_loop: "settles h (fold (Hub_UnsubscribeFromRoom i) rs h)"
proof (induction rs arbitrary: h)
  case (Cons r rs)
  show ?case using settles_trans [OF settles_registries(6) Cons.IH, of h i r] by simp
qed simp

lemma settles_fold: "\<not> room_frame d \<Longrightarrow> settles h (fold (\<lambda>i. reply i d) ids h)"
proof (induction ids arbitrary: h)
  case (Cons i ids)
  show ?case using settles_trans [OF settles_reply Cons.IH, of d h i] Cons.prems by simp
qed simp

lemma settles_handleSubscribe: "settles h (snd (handleSubscribe e i msg (w, h)))"
proof -
  have "settles h (sendAck e i m sid st (snd (subscribe_loop e i rs (w, h) 0)))" for m sid st rs
    by (rule settles_trans [OF settles_subscribe_loop settles_replies(2)])
  then show ?thesis by (simp add: handleSubscribe_def Let_def split_beta split: option.split)
qed

lemma settles_handlers [simp]:
  "settles h (snd (handleUnsubscribe i msg (w, h)))" "settles h (snd (handleChatMessage ps e i msg (w, h)))"
  "settles h (snd (handleTyping e i msg (w, h)))" "settles h (snd (handlePing e i (w, h)))"
  "settles h (snd (handlePresence ps e i msg (w, h)))" "settles h (snd (handleReaction e i msg (w, h)))"
  "settles h (snd (handleEdit ps e i msg (w, h)))" "settles h (snd (handleDelete ps e i msg (w, h)))"
  "settles h (snd (handleReadReceipt e i msg (w, h)))"
  by (simp_all add: handleUnsubscribe_def handleChatMessage_def handleTyping_def handlePing_def handlePresence_def
      handleReaction_def handleEdit_def handleDelete_def handleReadReceipt_def Let_def split_beta settles_unsubscribe_loop
      split: option.split sum.split)

lemma settles_handleMessage: "settles h (snd (handleMessage ps e i data (w, h)))"
  by (simp add: handleMessage_def settles_handleSubscribe split: option.split client_msg_type.split)

lemma subseq_take_away [simp]: "subseq (xs @ zs) (xs @ ys @ zs)" "subseq (xs @ zs) (xs @ y # zs)" "subseq zs (xs @ ys @ zs)"
proof -
  show a: "subseq (xs @ zs) (xs @ ys @ zs)" for ys by (rule list_emb_append_mono) (auto intro: list_emb_append2)
  show "subseq (xs @ zs) (xs @ y # zs)" using a [of "[y]"] by simp
qed (auto intro: list_emb_append2)

lemma subseq_take_away2 [simp]: "subseq (xs @ ys @ zs) (xs @ ys @ y # zs)"
  using subseq_take_away(2) [of "xs @ ys"] by simp

lemma settles_add_client: "settles h (add_client i u ip h)"
  by (simp add: settles_def pipeline_def each_once_def stream_def add_client_def NewClient_def) (simp add: about_to_send_def)

lemma write_turn_subseq: "ready ev c \<Longrightarrow> subseq (stream (write_turn ev c)) (stream c)"
proof (cases ev)
  case (SendFrame ok)
  assume "ready ev c"
  then obtain d q where "c_send c = d # q" using SendFrame by (cases "c_send c") auto
  then show ?thesis using SendFrame subseq_take_away(1) [of "c_wire c" q "[d]"] by (simp add: stream_def)
qed (simp_all add: stream_def drainAndClose_def)

lemma settles_write_turn: "ready ev (h_client h i) \<Longrightarrow> settles h (on_client i (write_turn ev) h)"
  using write_turn_subseq [of ev "h_client h i"]
  by (auto simp: settles_def pipeline_def about_to_send_def each_once_def intro!: list_emb_append_mono subseq_filter)

lemma settles_send:
  assumes "h_pc h = Sending j ids d"
  shows "settles h ((deliver_send j d h)\<lparr>h_pc := Delivering ids d\<rparr>)"
proof (cases "c_draining (h_client h j)")
  case True
  then show ?thesis
    using assms by (auto simp: deliver_send_def settles_def pipeline_def about_to_send_def each_once_def)
next
  case False
  show ?thesis
  proof (cases "length (c_send (h_client h j)) < sendCap")
    case True
    then show ?thesis
      using assms False by (auto simp: deliver_send_def settles_def pipeline_def about_to_send_def each_once_def stream_def push_def)
  next
    case slow: False
    have "settles h (remove_slow j h)"
      by (rule settles_same) (auto simp: remove_slow_def split_beta dec_gauges_def drop_client_simps close_and_cancel_def)
    moreover have "h_pc (remove_slow j h) = h_pc h" "h_broadcast (remove_slow j h) = h_broadcast h"
        "c_send (h_client (remove_slow j h) i) = c_send (h_client h i)" "c_wire (h_client (remove_slow j h) i) = c_wire (h_client h i)" for i
      by (auto simp: remove_slow_def split_beta dec_gauges_def drop_client_simps close_and_cancel_def)
    ultimately show ?thesis
      using assms False slow by (auto simp: deliver_send_def settles_def pipeline_def about_to_send_def each_once_def stream_def)
  qed
qed

lemma settles_check:
  "h_pc h = Delivering (i # ids) d \<Longrightarrow> settles h (h\<lparr>h_pc := if deliver_check i h then Sending i ids d else Delivering ids d\<rparr>)"
  by (auto simp: settles_def pipeline_def about_to_send_def each_once_def)

lemma settles_over: "h_pc h = Delivering [] d \<Longrightarrow> settles h (h\<lparr>h_pc := Waiting\<rparr>)"
  by (simp add: settles_def pipeline_def about_to_send_def each_once_def)

lemma settles_Run_turn: "can_run ev h \<Longrightarrow> settles h (Run_turn ev h)"
proof (cases ev)
  case Registers
  have "settles h (h\<lparr>h_register := tl (h_register h)\<rparr>)" by (rule settles_same) simp_all
  then show ?thesis using settles_trans [OF _ settles_registries(1)] Registers by simp
next
  case Unregisters
  have "settles h (h\<lparr>h_unregister := tl (h_unregister h)\<rparr>)" by (rule settles_same) simp_all
  then show ?thesis using settles_trans [OF _ settles_registries(2)] Unregisters by simp
next
  case (Broadcasts ids)
  assume "can_run ev h"
  then show ?thesis
    using Broadcasts by (cases "h_broadcast h") (auto simp: settles_def pipeline_def about_to_send_def each_once_def)
next
  case Delivers
  assume "can_run ev h"
  then show ?thesis
    using Delivers settles_send [of h] settles_check [of h] settles_over [of h] by (auto split: hub_pc.splits list.splits)
qed (simp add: settles_def pipeline_def about_to_send_def each_once_def)

section \<open>Frames that show entries of the log\<close>

definition shows_entry :: "string \<times> json \<Rightarrow> json \<Rightarrow> bool" where
  "shows_entry entry f \<longleftrightarrow> (\<exists>e r. routed e (fst entry) (Some (snd entry)) = [(r, f)])"

text \<open>The frames show some of the entries, each at most once and in their order.\<close>

definition shown_from :: "json list \<Rightarrow> (string \<times> json) list \<Rightarrow> bool" where
  "shown_from fs es \<longleftrightarrow> (\<exists>es'. subseq es' es \<and> list_all2 shows_entry es' fs)"

lemma list_all2_subseq: "subseq fs' fs \<Longrightarrow> list_all2 R es fs \<Longrightarrow> \<exists>es'. subseq es' es \<and> list_all2 R es' fs'"
proof (induction arbitrary: es rule: list_emb.induct)
  case (list_emb_Cons xs ys y)
  then obtain a as where es: "es = a # as" "list_all2 R as ys" by (auto simp: list_all2_Cons2)
  then show ?case using list_emb_Cons.IH by blast
next
  case (list_emb_Cons2 x y xs ys)
  then obtain a as where es: "es = a # as" "R a x" "list_all2 R as ys" by (auto simp: list_all2_Cons2)
  then obtain es' where "subseq es' as" "list_all2 R es' xs" using list_emb_Cons2.IH by blast
  then show ?case using es by (intro exI [of _ "a # es'"]) auto
qed auto

lemma shown_from_fewer: "shown_from fs es \<Longrightarrow> subseq fs' fs \<Longrightarrow> shown_from fs' es"
  unfolding shown_from_def using list_all2_subseq subseq_order.trans by meson

lemma shown_from_more: "shown_from fs es \<Longrightarrow> subseq es es' \<Longrightarrow> shown_from fs es'"
  unfolding shown_from_def using subseq_order.trans by blast

lemma shown_from_append: "shown_from fs es \<Longrightarrow> shown_from gs es' \<Longrightarrow> shown_from (fs @ gs) (es @ es')"
  unfolding shown_from_def using list_emb_append_mono list_all2_appendI by metis

lemma shown_from_nil [simp]: "shown_from [] es"
  by (auto simp: shown_from_def)

lemma shown_routed: "shown_from (map snd (routed e c (Some p))) [(c, p)]"
proof -
  have "routed e c (Some p) = [] \<or> (\<exists>r f. routed e c (Some p) = [(r, f)])"
    by (auto simp: routed_def split: prod.splits option.splits)
  then show ?thesis
  proof (elim disjE exE)
    fix r f assume f: "routed e c (Some p) = [(r, f)]"
    then have "shows_entry (c, p) f" unfolding shows_entry_def by auto
    then show ?thesis unfolding f shown_from_def by (intro exI [of _ "[(c, p)]"]) simp
  qed simp
qed

lemma fanout_pipeline:
  "subseq (pipeline i (fanout_room e c p h)) (pipeline i h @ map snd (routed e c p))" "each_once (fanout_room e c p h) = each_once h"
proof -
  let ?new = "take (queueCap - length (h_broadcast h)) (routed e c p)"
  have h: "fanout_room e c p h = h\<lparr>h_broadcast := h_broadcast h @ ?new\<rparr>"
    by (simp only: fanout_routed enqueue_all)
  have "pipeline i (fanout_room e c p h) = pipeline i h @ filter room_frame (map snd ?new)"
    unfolding h by (simp add: pipeline_def about_to_send_def)
  moreover have "subseq (filter room_frame (map snd ?new)) (map snd (routed e c p))"
    by (rule subseq_order.trans [OF subseq_filter_left]) (intro subseq_map prefix_imp_subseq take_is_prefix)
  ultimately show "subseq (pipeline i (fanout_room e c p h)) (pipeline i h @ map snd (routed e c p))"
    by (simp add: list_emb_append_mono)
  show "each_once (fanout_room e c p h) = each_once h" unfolding h by (simp add: each_once_def)
qed

section \<open>The instances\<close>

text \<open>
  The instances share the database and Redis. Each has its hub, its counters of addresses, and what its room
  subscription has still to get.
\<close>

record 'r cluster =
  cl_world :: "'r world"
  cl_hub :: "nat \<Rightarrow> hub"
  cl_ip :: "nat \<Rightarrow> string \<Rightarrow> 32 word"
  cl_feed :: "nat \<Rightarrow> (string \<times> json) list"

definition instance_of :: "'r cluster \<Rightarrow> nat \<Rightarrow> 'r node" where
  "instance_of c k = \<lparr>n_world = cl_world c, n_hub = cl_hub c k, ipConnections = cl_ip c k\<rparr>"

text \<open>What an operation published goes to every instance.\<close>

definition put_world :: "'r world \<Rightarrow> 'r cluster \<Rightarrow> 'r cluster" where
  "put_world w c =
     (let new = drop (length (published (w_bus (cl_world c)))) (published (w_bus w))
      in c\<lparr>cl_world := w, cl_feed := (\<lambda>k. cl_feed c k @ room_feed new)\<rparr>)"

definition put_hub :: "nat \<Rightarrow> hub \<Rightarrow> 'r cluster \<Rightarrow> 'r cluster" where
  "put_hub k h c = c\<lparr>cl_hub := (cl_hub c)(k := h)\<rparr>"

definition put_node :: "nat \<Rightarrow> 'r node \<Rightarrow> 'r cluster \<Rightarrow> 'r cluster" where
  "put_node k n c = (put_hub k (n_hub n) (put_world (n_world n) c))\<lparr>cl_ip := (cl_ip c)(k := ipConnections n)\<rparr>"

definition put_feed :: "nat \<Rightarrow> (string \<times> json) list \<Rightarrow> 'r cluster \<Rightarrow> 'r cluster" where
  "put_feed k q c = c\<lparr>cl_feed := (cl_feed c)(k := q)\<rparr>"

inductive cluster_step :: "'r server_deps \<Rightarrow> 'r http_deps \<Rightarrow> 'r cluster \<Rightarrow> 'r cluster \<Rightarrow> bool" for s d where
  handshake: "\<not> h_panicked (cl_hub c k) \<Longrightarrow> conn_id r \<notin> h_made (cl_hub c k) \<Longrightarrow> length (h_register (cl_hub c k)) < queueCap \<Longrightarrow>
    handleWebSocket s e r (instance_of c k) = (resp, n) \<Longrightarrow> cluster_step s d c (put_node k n c)"
| client_frame: "\<not> h_panicked (cl_hub c k) \<Longrightarrow> i \<in> h_made (cl_hub c k) \<Longrightarrow> c_reading (h_client (cl_hub c k) i) \<Longrightarrow>
    handleMessage (sd_ps s) e i data (cl_world c, cl_hub c k) = (w, h) \<Longrightarrow> cluster_step s d c (put_hub k h (put_world w c))"
| connection_over: "\<not> h_panicked (cl_hub c k) \<Longrightarrow> i \<in> h_made (cl_hub c k) \<Longrightarrow> c_reading (h_client (cl_hub c k) i) \<Longrightarrow>
    cluster_step s d c (put_node k (connection_ends i (instance_of c k)) c)"
| request: "serve d e r (cl_world c) = (resp, w) \<Longrightarrow> cluster_step s d c (put_world w c)"
| takes_message: "\<not> h_panicked (cl_hub c k) \<Longrightarrow> cl_feed c k = (ch, p) # q \<Longrightarrow>
    cluster_step s d c (put_feed k q (put_hub k (fanout_room e ch (Some p) (cl_hub c k)) c))"
| misses_messages: "subseq q (cl_feed c k) \<Longrightarrow> cluster_step s d c (put_feed k q c)"
| takes_presence: "\<not> h_panicked (cl_hub c k) \<Longrightarrow> cluster_step s d c (put_hub k (fanout_presence e payload ids (cl_hub c k)) c)"
| hub_runs: "\<not> h_panicked (cl_hub c k) \<Longrightarrow> can_run ev (cl_hub c k) \<Longrightarrow> cluster_step s d c (put_hub k (Run_turn ev (cl_hub c k)) c)"
| writer_runs: "\<not> h_panicked (cl_hub c k) \<Longrightarrow> c_writing (h_client (cl_hub c k) i) \<Longrightarrow> ready ev' (h_client (cl_hub c k) i) \<Longrightarrow>
    cluster_step s d c (put_hub k (on_client i (write_turn ev') (cl_hub c k)) c)"
| closes: "\<not> h_panicked (cl_hub c k) \<Longrightarrow> cluster_step s d c (put_hub k (CloseAll (cl_hub c k)) c)"

text \<open>What all operations of the services keep, a run of the cluster keeps.\<close>

context kept
begin

lemma kept_cluster: "cluster_step s d c c' \<Longrightarrow> R (cl_world c) (cl_world c')"
proof (induction rule: cluster_step.induct)
  case (handshake c k r e resp n)
  then show ?case using kept_handshake [OF handshake(4)] by (simp add: put_node_def put_hub_def put_world_def instance_of_def)
next
  case (client_frame c k i e data w h)
  then show ?case using kept_handleMessage [of "cl_world c" "sd_ps s" e i data "cl_hub c k"] by (simp add: put_hub_def put_world_def)
next
  case (connection_over c k i)
  then show ?case by (simp add: put_node_def put_hub_def put_world_def instance_of_def connection_ends_def)
next
  case (request e r c resp w)
  then show ?case using kept_serve [OF request] by (simp add: put_world_def)
qed (simp_all add: put_hub_def put_feed_def)

lemma kept_run: "(cluster_step s d)\<^sup>*\<^sup>* c c' \<Longrightarrow> R (cl_world c) (cl_world c')"
  by (induction rule: rtranclp_induct) (auto intro: chain kept_cluster)

end

definition start_cluster :: "'r world \<Rightarrow> 'r cluster" where
  "start_cluster w = \<lparr>cl_world = w, cl_hub = (\<lambda>_. NewHub), cl_ip = (\<lambda>_ _. 0), cl_feed = (\<lambda>_. [])\<rparr>"

definition cluster_run :: "'r server_deps \<Rightarrow> 'r http_deps \<Rightarrow> 'r world \<Rightarrow> 'r cluster \<Rightarrow> bool" where
  "cluster_run s d w c \<longleftrightarrow> published (w_bus w) = [] \<and> (cluster_step s d)\<^sup>*\<^sup>* (start_cluster w) c"

section \<open>The invariant\<close>

text \<open>
  What an instance has taken from its subscription and what it has still to get is a part of the log, in order;
  what is on the way to a connection shows a part of what was taken.
\<close>

definition in_order :: "'r cluster \<Rightarrow> nat \<Rightarrow> bool" where
  "in_order c k \<longleftrightarrow> each_once (cl_hub c k) \<and>
     (\<exists>past. subseq (past @ cl_feed c k) (room_feed (published (w_bus (cl_world c)))) \<and>
        (\<forall>i. shown_from (pipeline i (cl_hub c k)) past))"

definition cluster_ok :: "'r cluster \<Rightarrow> bool" where
  "cluster_ok c \<longleftrightarrow> (\<forall>k. in_order c k) \<and> list_all (told (posts (w_db (cl_world c)))) (published (w_bus (cl_world c)))"

lemma in_order_settles: "settles (cl_hub c k) h \<Longrightarrow> in_order c j \<Longrightarrow> in_order (put_hub k h c) j"
  unfolding in_order_def put_hub_def settles_def using shown_from_fewer by (cases "j = k") (auto, blast)

lemma in_order_world:
  assumes "tells (cl_world c) w" "in_order c k"
  shows "in_order (put_world w c) k"
proof -
  obtain new where new: "published (w_bus w) = published (w_bus (cl_world c)) @ new" using assms(1) by (auto simp: tells_def)
  obtain past where past: "subseq (past @ cl_feed c k) (room_feed (published (w_bus (cl_world c))))"
      "\<forall>i. shown_from (pipeline i (cl_hub c k)) past" "each_once (cl_hub c k)"
    using assms(2) by (auto simp: in_order_def)
  have "room_feed (published (w_bus w)) = room_feed (published (w_bus (cl_world c))) @ room_feed new"
    by (simp add: new room_feed_def)
  then show ?thesis
    using past list_emb_append_mono [OF past(1), of "room_feed new" "room_feed new"]
    unfolding in_order_def put_world_def by (auto simp: new intro!: exI [of _ past])
qed

lemma ok_settles: "settles (cl_hub c k) h \<Longrightarrow> cluster_ok c \<Longrightarrow> cluster_ok (put_hub k h c)"
  using in_order_settles [of c k h] by (auto simp: cluster_ok_def) (simp_all add: put_hub_def)

lemma ok_world: "tells (cl_world c) w \<Longrightarrow> cluster_ok c \<Longrightarrow> cluster_ok (put_world w c)"
proof -
  assume t: "tells (cl_world c) w" and c: "cluster_ok c"
  obtain new where new: "published (w_bus w) = published (w_bus (cl_world c)) @ new" "list_all (told (posts (w_db w))) new"
      "posts (w_db (cl_world c)) \<subseteq> posts (w_db w)"
    using t by (auto simp: tells_def)
  then have "list_all (told (posts (w_db w))) (published (w_bus w))"
    using c told_mono by (fastforce simp: cluster_ok_def list_all_iff)
  then show ?thesis using c in_order_world [OF t] by (auto simp: cluster_ok_def) (simp add: put_world_def)
qed

lemma ok_node:
  "tells (cl_world c) (n_world n) \<Longrightarrow> settles (cl_hub c k) (n_hub n) \<Longrightarrow> cluster_ok c \<Longrightarrow> cluster_ok (put_node k n c)"
proof -
  assume "tells (cl_world c) (n_world n)" "settles (cl_hub c k) (n_hub n)" "cluster_ok c"
  then have "cluster_ok (put_hub k (n_hub n) (put_world (n_world n) c))"
    by (intro ok_settles ok_world) (simp_all add: put_world_def)
  then show ?thesis by (simp add: cluster_ok_def in_order_def put_node_def)
qed

lemma ok_feed: "subseq q (cl_feed c k) \<Longrightarrow> cluster_ok c \<Longrightarrow> cluster_ok (put_feed k q c)"
proof -
  assume q: "subseq q (cl_feed c k)" and c: "cluster_ok c"
  have "in_order (put_feed k q c) j" for j
  proof -
    have "in_order c j" using c by (simp add: cluster_ok_def)
    then obtain past where past: "each_once (cl_hub c j)" "\<forall>i. shown_from (pipeline i (cl_hub c j)) past"
        "subseq (past @ cl_feed c j) (room_feed (published (w_bus (cl_world c))))"
      by (auto simp: in_order_def)
    have "subseq (past @ q) (past @ cl_feed c k)" using q by (simp add: subseq_append')
    then have "subseq (past @ cl_feed (put_feed k q c) j) (room_feed (published (w_bus (cl_world c))))"
      using past(3) subseq_order.trans by (auto simp: put_feed_def)
    then show ?thesis using past(1,2) by (auto simp: in_order_def put_feed_def)
  qed
  then show ?thesis using c by (simp add: cluster_ok_def put_feed_def)
qed

lemma ok_takes:
  assumes "cl_feed c k = (ch, p) # q" "cluster_ok c"
  shows "cluster_ok (put_feed k q (put_hub k (fanout_room e ch (Some p) (cl_hub c k)) c))" (is "cluster_ok ?c")
proof -
  have "in_order ?c j" for j
  proof (cases "j = k")
    case True
    have "in_order c k" using assms(2) by (simp add: cluster_ok_def)
    then obtain past where past: "each_once (cl_hub c k)" "\<And>i. shown_from (pipeline i (cl_hub c k)) past"
        "subseq (past @ (ch, p) # q) (room_feed (published (w_bus (cl_world c))))"
      using assms(1) by (auto simp: in_order_def)
    have "shown_from (pipeline i (fanout_room e ch (Some p) (cl_hub c k))) (past @ [(ch, p)])" for i
      by (rule shown_from_fewer [OF shown_from_append [OF past(2) shown_routed] fanout_pipeline(1)])
    then show ?thesis
      using past(1,3) True fanout_pipeline(2)
      by (auto simp: in_order_def put_feed_def put_hub_def intro!: exI [of _ "past @ [(ch, p)]"])
  next
    case False
    then have "in_order ?c j = in_order c j" by (simp add: in_order_def put_feed_def put_hub_def)
    then show ?thesis using assms(2) by (simp add: cluster_ok_def)
  qed
  then show ?thesis using assms(2) by (simp add: cluster_ok_def put_feed_def put_hub_def)
qed

lemma settles_presence: "settles h (fanout_presence e payload ids h)"
proof -
  have "\<not> room_frame f" if "presence_frame e j = Some f" for j f
    using that by (auto simp: presence_frame_def split: if_splits option.splits json.splits)
  then show ?thesis by (auto simp: fanout_presence_def settles_fold split: option.splits)
qed

lemma cluster_step_ok: "cluster_step s d c c' \<Longrightarrow> cluster_ok c \<Longrightarrow> cluster_ok c'"
proof (induction rule: cluster_step.induct)
  case (handshake c k r e resp n)
  have "settles (cl_hub c k) (n_hub n)"
    using handshake_hub [OF handshake(4)] settles_add_client by (auto simp: instance_of_def)
  then show ?case using ok_node telling.kept_handshake [OF handshake(4)] handshake(5) by (simp add: instance_of_def)
next
  case (client_frame c k i e data w h)
  have "tells (cl_world c) w" "settles (cl_hub c k) h"
    using telling.kept_handleMessage [of "cl_world c" "sd_ps s" e i data "cl_hub c k"]
      settles_handleMessage [of "cl_hub c k" "sd_ps s" e i data "cl_world c"] client_frame(4) by simp_all
  then show ?case using client_frame(5) ok_settles [of "put_world w c" k h] ok_world [of c w] by (simp add: put_world_def)
next
  case (connection_over c k i)
  have "n_world (connection_ends i (instance_of c k)) = cl_world c" "n_hub (connection_ends i (instance_of c k)) = reader_leaves i (cl_hub c k)"
    by (simp_all add: connection_ends_def instance_of_def)
  then show ?case using connection_over(4) ok_node [of c "connection_ends i (instance_of c k)" k] by simp
next
  case (request e r c resp w)
  then show ?case using ok_world telling.kept_serve by blast
next
  case (takes_message c k ch p q e)
  then show ?case using ok_takes by blast
next
  case (misses_messages q c k)
  then show ?case by (rule ok_feed)
next
  case (takes_presence c k e payload ids)
  then show ?case using ok_settles settles_presence by blast
next
  case (hub_runs c k ev)
  then show ?case using ok_settles settles_Run_turn by blast
next
  case (writer_runs c k i ev)
  then show ?case using ok_settles settles_write_turn by blast
next
  case (closes c k)
  then show ?case using ok_settles settles_registries(4) by blast
qed

lemma cluster_run_ok: "cluster_run s d w c \<Longrightarrow> cluster_ok c"
proof -
  assume "cluster_run s d w c"
  then have steps: "(cluster_step s d)\<^sup>*\<^sup>* (start_cluster w) c" and fresh: "published (w_bus w) = []" by (simp_all add: cluster_run_def)
  have "in_order (start_cluster w) k" for k
    unfolding in_order_def by (intro conjI exI [of _ "[]"]) (simp_all add: start_cluster_def NewHub_def NewClient_def each_once_def
      pipeline_def about_to_send_def stream_def)
  then have "cluster_ok (start_cluster w)" using fresh by (simp add: cluster_ok_def) (simp add: start_cluster_def)
  with steps show "cluster_ok c" by (induction rule: rtranclp_induct) (simp_all add: cluster_step_ok)
qed

section \<open>One order, and nothing invented\<close>

lemma wire_shown:
  assumes "cluster_run s d w c"
  shows "shown_from (filter room_frame (c_wire (h_client (cl_hub c k) i))) (published (w_bus (cl_world c)))"
proof -
  have "in_order c k" using cluster_run_ok [OF assms] by (simp add: cluster_ok_def)
  then obtain past where past: "subseq (past @ cl_feed c k) (room_feed (published (w_bus (cl_world c))))"
      "shown_from (pipeline i (cl_hub c k)) past"
    by (auto simp: in_order_def)
  have "subseq (filter room_frame (c_wire (h_client (cl_hub c k) i))) (pipeline i (cl_hub c k))"
    by (simp add: pipeline_def stream_def prefix_imp_subseq)
  moreover have "subseq past (past @ cl_feed c k)" by (rule subseq_rev_drop_many) simp
  then have "subseq past (room_feed (published (w_bus (cl_world c))))" using past(1) by (rule subseq_order.trans)
  then have "subseq past (published (w_bus (cl_world c)))"
    by (rule subseq_order.trans) (simp add: room_feed_def)
  ultimately show ?thesis using shown_from_fewer shown_from_more past(2) by blast
qed

text \<open>
  C2. All connections on all instances see the events of rooms in one order, that of the log of Redis: whatever the
  instances do, whichever messages their subscriptions miss, their queues drop or their connections lose, the
  room frames that went out on a connection show a part of what was published, each entry at most once, in the
  order in which it was published.
\<close>

theorem rooms_in_one_order:
  assumes "cluster_run s d w c"
  shows "\<exists>es. subseq es (published (w_bus (cl_world c))) \<and>
    list_all2 (\<lambda>entry f. \<exists>e r. routed e (fst entry) (Some (snd entry)) = [(r, f)]) es
      (filter room_frame (c_wire (h_client (cl_hub c k) i)))"
  using wire_shown [OF assms] unfolding shown_from_def shows_entry_def .

lemma frame_data [simp]: "field ''data'' (frame e ty d) = Some d"
  by (simp add: frame_def server_message_json_def NewServerMessage_def)

lemma shown_message_payload:
  assumes "routed e ch (Some p) = [(r, f)]" "field ''data'' f = Some data" "field ''message'' data = Some j" "j \<noteq> JNull"
  shows "field ''message'' p = Some j \<and> (\<exists>i. str_field ''room_id'' p = Some i \<and> field ''room_id'' data = Some (JStr i))"
  using assms
  by (auto simp: routed_def member_event_frame_def message_event_frame_def Let_def split: prod.splits option.splits if_splits)

lemma clean_no_markup: "set (clean_content raw) \<inter> markup_bytes = {}"
proof -
  have "set (SanitizeMessage raw) \<inter> markup_bytes = {}" by (simp add: SanitizeMessage_kept EscapeString_no_markup)
  then show ?thesis using TrimSpace_set [of "SanitizeMessage raw"] by (auto simp: clean_content_def)
qed

lemma told_payload:
  "told P (ch, p) \<Longrightarrow> field ''message'' p = Some j \<Longrightarrow> str_field ''room_id'' p = Some i \<Longrightarrow> HasPrefix ch ''ws:room:'' \<Longrightarrow>
   \<exists>m raw. (m_id m, m_room_id m, m_user_id m) \<in> P \<and> m_content m = clean_content raw \<and> j = message_json m \<and> i = m_room_id m"
  by (cases rule: told.cases)
    (auto simp: new_message_event_def edited_event_def deleted_event_def room_event_def str_field_def HasPrefix_def)

text \<open>
  C4. Nothing on a connection is invented: a message that went out in a room frame on any connection of any instance
  was stored under this id, in this room and by this author, and its text is free of markup, whether it is the
  first form of the message or an edited one.
\<close>

theorem wire_is_authentic:
  assumes "cluster_run s d w c" "f \<in> set (c_wire (h_client (cl_hub c k) i))"
    and "field ''type'' f \<in> {Some (JStr ''new_message''), Some (JStr ''message_updated'')}"
    and "field ''data'' f = Some data" "field ''message'' data = Some j" "j \<noteq> JNull"
  shows "\<exists>m. (m_id m, m_room_id m, m_user_id m) \<in> posts (w_db (cl_world c)) \<and> set (m_content m) \<inter> markup_bytes = {} \<and>
    j = message_json m \<and> field ''room_id'' data = Some (JStr (m_room_id m))"
proof -
  let ?log = "published (w_bus (cl_world c))"
  have "f \<in> set (filter room_frame (c_wire (h_client (cl_hub c k) i)))" using assms(2,3) by (auto simp: room_frame_def)
  then obtain es where es: "subseq es ?log" "\<exists>entry \<in> set es. shows_entry entry f"
    using wire_shown [OF assms(1), of k i] unfolding shown_from_def by (metis in_set_conv_nth list_all2_conv_all_nth nth_mem)
  then obtain ch p e r where entry: "(ch, p) \<in> set ?log" "routed e ch (Some p) = [(r, f)]"
    by (auto simp: shows_entry_def dest: list_emb_set)
  obtain i where i: "field ''message'' p = Some j" "str_field ''room_id'' p = Some i" "field ''room_id'' data = Some (JStr i)"
    using shown_message_payload [OF entry(2) assms(4-6)] by blast
  have "told (posts (w_db (cl_world c))) (ch, p)"
    using cluster_run_ok [OF assms(1)] entry(1) by (auto simp: cluster_ok_def list_all_iff)
  moreover have "HasPrefix ch ''ws:room:''"
    using entry(2) by (auto simp: routed_def extractRoomIDAndEvent_def split: if_splits)
  ultimately show ?thesis using told_payload [OF _ i(1,2)] clean_no_markup i(3) by metis
qed

section \<open>A run\<close>

lemma cluster_go: "cluster_run s d w c \<Longrightarrow> (cluster_step s d)\<^sup>*\<^sup>* c c' \<Longrightarrow> cluster_run s d w c'"
  by (auto simp: cluster_run_def)

lemma put_hub_simps [simp]:
  "cl_hub (put_hub k h c) j = (if j = k then h else cl_hub c j)" "cl_world (put_hub k h c) = cl_world c"
  "cl_feed (put_hub k h c) = cl_feed c" "put_hub k h (put_hub k h' c) = put_hub k h c" "put_hub k (cl_hub c k) c = c"
  by (simp_all add: put_hub_def)

lemma cluster_hub_runs: "(cluster_step s d)\<^sup>*\<^sup>* c (put_hub k (Run evs (cl_hub c k)) c)"
proof (induction evs arbitrary: c)
  case (Cons ev evs)
  show ?case
  proof (cases "\<not> h_panicked (cl_hub c k) \<and> can_run ev (cl_hub c k)")
    case True
    then have "cluster_step s d c (put_hub k (Run_turn ev (cl_hub c k)) c)" by (simp add: hub_runs)
    then show ?thesis
      using True Cons.IH [of "put_hub k (Run_turn ev (cl_hub c k)) c"] by (simp add: converse_rtranclp_into_rtranclp)
  next
    case False
    then show ?thesis using Cons.IH [of c] by auto
  qed
qed simp

lemma cluster_writes: "\<not> h_panicked (cl_hub c k) \<Longrightarrow> (cluster_step s d)\<^sup>*\<^sup>* c (put_hub k (on_client i (WritePump evs) (cl_hub c k)) c)"
proof (induction evs arbitrary: c)
  case Nil
  then show ?case by (simp add: on_client_id)
next
  case (Cons ev evs)
  let ?c = "h_client (cl_hub c k) i"
  show ?case
  proof (cases "c_writing ?c \<and> ready ev ?c")
    case True
    then have "cluster_step s d c (put_hub k (on_client i (write_turn ev) (cl_hub c k)) c)" using Cons.prems by (simp add: writer_runs)
    moreover have "on_client i (WritePump evs) (on_client i (write_turn ev) (cl_hub c k)) = on_client i (WritePump (ev # evs)) (cl_hub c k)"
      using True by (simp add: on_client_def)
    ultimately show ?thesis
      using Cons.IH [of "put_hub k (on_client i (write_turn ev) (cl_hub c k)) c"] Cons.prems
      by (simp add: converse_rtranclp_into_rtranclp del: WritePump.simps)
  next
    case False
    then have "on_client i (WritePump (ev # evs)) (cl_hub c k) =
        (if c_writing ?c then on_client i (WritePump evs) (cl_hub c k) else cl_hub c k)"
      by (auto simp: on_client_def)
    then show ?thesis using Cons by (simp del: WritePump.simps)
  qed
qed

text \<open>\<open>bob\<close> connects, subscribes to \<open>r1\<close>, says hi, and reads his own message.\<close>

definition talk_server :: "ref_redis server_deps" where
  "talk_server = sample_server\<lparr>sd_ps := Some ref_api, sd_cfg := (sd_cfg sample_server)\<lparr>RateLimitRules := []\<rparr>\<rparr>"

lemma talk_handshake: "handleWebSocket talk_server sample_env sample_request (start_node sample_world) = (Upgraded, sample_node)"
proof -
  have s: "sd_auth talk_server = sample_auth" "MaxPerIP talk_server = 10" "RateLimitRules (sd_cfg talk_server) = []"
      "CheckOrigin (getAllowedOrigins (sd_cfg talk_server)) ''http://localhost:3000''" "sd_ps talk_server = Some ref_api"
    by (simp_all add: talk_server_def sample_server_def MaxPerIP_def defaultConfig_def getAllowedOrigins_def CheckOrigin_def)
  have "request_token sample_request = sample_token ''access'' (15 * minute)" "request_token sample_request \<noteq> []"
    by (simp_all add: request_token_def sample_request_def sample_token_def)
  moreover have "\<not> over_limit talk_server ''10.0.0.1'' (start_node sample_world)"
    by (simp add: over_limit_def start_node_def s)
  ultimately show ?thesis
    unfolding sample_node_def sample_handshake
    by (simp add: handleWebSocket_def Let_def sample_request_def sample_ip sample_valid rate_check_def on_bus_def bump_def start_node_def
        sample_user_def s)
qed

definition talk_hub :: hub where
  "talk_hub = sendAck (quiet_env 0) ''b'' ''m2'' ''77'' ''delivered'' (n_hub subscribed_node)"

abbreviation hi_frame :: json where
  "hi_frame \<equiv> frame (quiet_env 9) ServerMsgNewMessage (new_message_event (hello_message 0))"

lemma talk_hub_simps:
  "c_send (h_client talk_hub ''b'') = [frame (quiet_env 0) ServerMsgAck (ack_json ''m1'' [] ''subscribed''),
     frame (quiet_env 0) ServerMsgAck (ack_json ''m2'' ''77'' ''delivered'')]"
  "c_wire (h_client talk_hub ''b'') = []" "c_writing (h_client talk_hub ''b'')" "\<not> h_panicked talk_hub" "h_pc talk_hub = Waiting"
  "h_broadcast talk_hub = []" "ids_of (h_rooms talk_hub) ''r1'' = {''b''}" "deliver_check ''b'' talk_hub" "\<not> c_draining (h_client talk_hub ''b'')"
  by (simp_all add: talk_hub_def subscribed_node_def joined_hub_def sample_node_simps sendAck_def reply_def sendCap_def push_def
      Hub_SubscribeToRoom_def isClosed_def bob_defs deliver_check_def add_id_def ids_of_def)

lemma talk_delivery:
  "Run (Broadcasts [''b''] # replicate 3 Delivers) (enqueue ''r1'' hi_frame talk_hub) = on_client ''b'' (push hi_frame) talk_hub"
proof -
  let ?h = "enqueue ''r1'' hi_frame talk_hub"
  have h: "?h = talk_hub\<lparr>h_broadcast := [(''r1'', hi_frame)]\<rparr>" by (simp add: enqueue_def talk_hub_simps queueCap_def)
  have same: "talk_hub\<lparr>h_broadcast := []\<rparr> = talk_hub" using talk_hub_simps(6) by (metis hub.surjective hub.update_convs(8))
  have b: "broadcastMessage [''b''] hi_frame talk_hub = on_client ''b'' (push hi_frame) talk_hub"
    using talk_hub_simps by (simp add: broadcastMessage_def deliver_def deliver_send_def sendCap_def)
  have idle: "(on_client ''b'' (push hi_frame) talk_hub)\<lparr>h_pc := Waiting\<rparr> = on_client ''b'' (push hi_frame) talk_hub"
    using talk_hub_simps(5) by (simp add: on_client_def)
  show ?thesis
    unfolding h
    using Run_delivers_queued [of "talk_hub\<lparr>h_broadcast := [(''r1'', hi_frame)]\<rparr>" "''r1''" hi_frame "[]" "[''b'']" 3]
    by (simp add: talk_hub_simps b same idle del: Run.simps)
qed

lemma talk_frames:
  "handleMessage (Some ref_api) (quiet_env 0) ''b'' (Some (client_message_json r1_msg)) (sample_world, joined_hub) =
    (sample_world, n_hub subscribed_node)"
  "handleMessage (Some ref_api) (quiet_env 0) ''b'' (Some (client_message_json chat_msg)) (sample_world, n_hub subscribed_node) =
    (publish_room (Some ref_api) (quiet_env 0) ''r1'' (new_message_event (hello_message 0))
      (sample_world\<lparr>w_db := sample_db\<lparr>t_messages := [sample_message, message_row (hello_message 0)]\<rparr>\<rparr>), talk_hub)"
proof -
  have "client_type_of (cm_type r1_msg) = Some ClientMsgSubscribe"
    using client_type_roundtrip [of ClientMsgSubscribe] by (simp add: r1_msg_def)
  then show "handleMessage (Some ref_api) (quiet_env 0) ''b'' (Some (client_message_json r1_msg)) (sample_world, joined_hub) =
      (sample_world, n_hub subscribed_node)"
    using subscribed_runs by (simp add: handleMessage_def client_message_roundtrip)
  have "client_type_of (cm_type chat_msg) = Some ClientMsgMessage" "cm_id chat_msg = ''m2''"
    using client_type_roundtrip [of ClientMsgMessage] by (simp_all add: chat_msg_def)
  moreover have "chat_input \<lparr>md_room = ''r1'', md_content = ''hi'', md_client = [], md_parent = None\<rparr> ''bob'' = hello []"
    by (simp add: chat_input_def hello_def)
  moreover have "m_id (hello_message 0) = ''77''" by (simp add: hello_message_def)
  ultimately show "handleMessage (Some ref_api) (quiet_env 0) ''b'' (Some (client_message_json chat_msg)) (sample_world, n_hub subscribed_node) =
      (publish_room (Some ref_api) (quiet_env 0) ''r1'' (new_message_event (hello_message 0))
        (sample_world\<lparr>w_db := sample_db\<lparr>t_messages := [sample_message, message_row (hello_message 0)]\<rparr>\<rparr>), talk_hub)"
    using subscribed_simps(5,6) sample_guards(2) [of 0]
    by (simp add: handleMessage_def client_message_roundtrip handleChatMessage_def chat_msg_data RoomService_IsMember_def SendMessage_def
        hello_sent talk_hub_def)
qed

lemma put_world_same [simp]: "put_world (cl_world c) c = c"
  by (simp add: put_world_def room_feed_def)

definition hi_world :: "ref_redis world" where
  "hi_world = publish_room (Some ref_api) (quiet_env 0) ''r1'' (new_message_event (hello_message 0))
     (sample_world\<lparr>w_db := sample_db\<lparr>t_messages := [sample_message, message_row (hello_message 0)]\<rparr>\<rparr>)"

lemma hi_world_log: "published (w_bus hi_world) = [(''ws:room:r1'', new_message_event (hello_message 0))]"
  unfolding hi_world_def by (simp add: publish_room_delivers)

lemma talk_run:
  "\<exists>c. cluster_run talk_server sample_http sample_world c \<and>
     c_wire (h_client (cl_hub c 0) ''b'') = [frame (quiet_env 0) ServerMsgAck (ack_json ''m1'' [] ''subscribed''),
       frame (quiet_env 0) ServerMsgAck (ack_json ''m2'' ''77'' ''delivered''), hi_frame] \<and> cl_world c = hi_world"
proof -
  let ?c0 = "start_cluster sample_world" and ?m = "new_message_event (hello_message 0)"
  let ?step = "cluster_step talk_server sample_http"
  define c1 where "c1 = put_node 0 sample_node ?c0"
  have n0: "instance_of ?c0 0 = start_node sample_world" by (simp add: instance_of_def start_cluster_def start_node_def)
  have w1: "n_world sample_node = sample_world" by (simp add: sample_node_def sample_handshake)
  have 1: "?step\<^sup>*\<^sup>* ?c0 c1"
    unfolding c1_def by (rule r_into_rtranclp, rule cluster_step.handshake [OF _ _ _ talk_handshake [folded n0]])
      (simp_all add: start_cluster_def NewHub_def queueCap_def)
  have c1: "cl_hub c1 0 = n_hub sample_node" "cl_world c1 = sample_world" "cl_feed c1 0 = []"
    by (simp_all add: c1_def put_node_def put_world_def put_hub_def w1 start_cluster_def room_feed_def)
  have "Run [Registers] (n_hub sample_node) = joined_hub"
    by (simp add: joined_hub_def sample_node_simps add_client_def NewHub_def)
  then have 2: "?step\<^sup>*\<^sup>* c1 (put_hub 0 joined_hub c1)"
    using cluster_hub_runs [of talk_server sample_http c1 0 "[Registers]"] by (simp add: c1(1))
  have ps: "sd_ps talk_server = Some ref_api" by (simp add: talk_server_def)
  define c2 where "c2 = put_hub 0 (n_hub subscribed_node) c1"
  have "?step (put_hub 0 joined_hub c1) (put_hub 0 (n_hub subscribed_node) (put_world sample_world (put_hub 0 joined_hub c1)))"
    by (rule cluster_step.client_frame [where i = "''b''" and e = "quiet_env 0" and data = "Some (client_message_json r1_msg)"])
      (simp_all add: c1 ps talk_frames(1))
  then have 3: "?step (put_hub 0 joined_hub c1) c2" using put_world_same [of "put_hub 0 joined_hub c1"] by (simp add: c1 c2_def)
  have c2: "cl_hub c2 0 = n_hub subscribed_node" "cl_world c2 = sample_world" "cl_feed c2 0 = []" by (simp_all add: c2_def c1)
  have reading: "c_reading (h_client (n_hub subscribed_node) ''b'')" "''b'' \<in> h_made (n_hub subscribed_node)"
    by (simp_all add: subscribed_node_def sendAck_def reply_def push_def Hub_SubscribeToRoom_def)
  define c3 where "c3 = put_hub 0 talk_hub (put_world hi_world c2)"
  have 4: "?step c2 c3"
    unfolding c3_def
    by (rule cluster_step.client_frame [where i = "''b''" and e = "quiet_env 0" and data = "Some (client_message_json chat_msg)"])
      (simp_all add: c2 ps talk_frames(2) hi_world_def reading subscribed_simps(2))
  have c3: "cl_hub c3 0 = talk_hub" "cl_world c3 = hi_world" "cl_feed c3 0 = [(''ws:room:r1'', ?m)]"
    by (simp_all add: c3_def put_world_def c2 hi_world_log room_feed_def HasPrefix_def)
  have fan: "fanout_room (quiet_env 9) ''ws:room:r1'' (Some ?m) talk_hub = enqueue ''r1'' hi_frame talk_hub"
    by (simp only: fanout_routed hello_routed fold_simps prod.case id_apply)
  define c4 where "c4 = put_feed 0 [] (put_hub 0 (enqueue ''r1'' hi_frame talk_hub) c3)"
  have 5: "?step c3 c4"
    unfolding c4_def fan [symmetric] using cluster_step.takes_message [of c3 0 "''ws:room:r1''" ?m "[]"] c3 talk_hub_simps(4) by simp
  have c4: "cl_hub c4 0 = enqueue ''r1'' hi_frame talk_hub" "cl_world c4 = hi_world" by (simp_all add: c4_def put_feed_def c3)
  define c5 where "c5 = put_hub 0 (on_client ''b'' (push hi_frame) talk_hub) c4"
  have 6: "?step\<^sup>*\<^sup>* c4 c5"
    using cluster_hub_runs [of talk_server sample_http c4 0 "Broadcasts [''b''] # replicate 3 Delivers"]
    unfolding c4 talk_delivery c5_def .
  have c5: "cl_hub c5 0 = on_client ''b'' (push hi_frame) talk_hub" "cl_world c5 = hi_world" by (simp_all add: c5_def c4)
  let ?writes = "[SendFrame True, SendFrame True, SendFrame True]"
  define c6 where "c6 = put_hub 0 (on_client ''b'' (WritePump ?writes) (cl_hub c5 0)) c5"
  have "\<not> h_panicked (cl_hub c5 0)" by (simp add: c5 talk_hub_simps(4))
  then have 7: "?step\<^sup>*\<^sup>* c5 c6" unfolding c6_def by (rule cluster_writes)
  have "?step\<^sup>*\<^sup>* ?c0 c6"
    using 1 2 r_into_rtranclp [of ?step, OF 3] r_into_rtranclp [of ?step, OF 4] r_into_rtranclp [of ?step, OF 5] 6 7 by (meson rtranclp_trans)
  then have "cluster_run talk_server sample_http sample_world c6" by (simp add: cluster_run_def)
  moreover have "c_wire (h_client (cl_hub c6 0) ''b'') = [frame (quiet_env 0) ServerMsgAck (ack_json ''m1'' [] ''subscribed''),
       frame (quiet_env 0) ServerMsgAck (ack_json ''m2'' ''77'' ''delivered''), hi_frame]"
    by (simp add: c6_def c5 talk_hub_simps push_def)
  moreover have "cl_world c6 = hi_world" by (simp add: c6_def c5)
  ultimately show ?thesis by blast
qed

lemma rooms_in_one_order_witness:
  "\<exists>c es. cluster_run talk_server sample_http sample_world c \<and> filter room_frame (c_wire (h_client (cl_hub c 0) ''b'')) = [hi_frame] \<and>
     subseq es (published (w_bus (cl_world c))) \<and> length es = 1"
proof -
  obtain c where c: "cluster_run talk_server sample_http sample_world c"
      "filter room_frame (c_wire (h_client (cl_hub c 0) ''b'')) = [hi_frame]"
    using talk_run by auto
  obtain es where "subseq es (published (w_bus (cl_world c)))" "length es = length (filter room_frame (c_wire (h_client (cl_hub c 0) ''b'')))"
    using rooms_in_one_order [OF c(1), of 0 "''b''"] by (blast dest: list_all2_lengthD)
  then show ?thesis using c by (intro exI [of _ c] exI [of _ es]) simp
qed

lemma wire_is_authentic_witness:
  "\<exists>c m. cluster_run talk_server sample_http sample_world c \<and> hi_frame \<in> set (c_wire (h_client (cl_hub c 0) ''b'')) \<and>
     (m_id m, m_room_id m, m_user_id m) \<in> posts (w_db (cl_world c)) \<and> message_json (hello_message 0) = message_json m \<and>
     set (m_content m) \<inter> markup_bytes = {}"
proof -
  obtain c where c: "cluster_run talk_server sample_http sample_world c" "hi_frame \<in> set (c_wire (h_client (cl_hub c 0) ''b''))"
    using talk_run by auto
  have f: "field ''type'' hi_frame \<in> {Some (JStr ''new_message''), Some (JStr ''message_updated'')}"
    by (simp add: frame_def server_message_json_def NewServerMessage_def)
  have j: "field ''message'' (new_message_event (hello_message 0)) = Some (message_json (hello_message 0))"
      "message_json (hello_message 0) \<noteq> JNull"
    by (simp_all add: new_message_event_def message_json_def)
  show ?thesis using wire_is_authentic [OF c f frame_data j] c by blast
qed

end
