(* ===== verification/Deletion.thy ===== *)
theory Deletion
  imports Cluster
begin

text \<open>
  Deletion, and what it is worth: who can delete a message, and that no operation of the program on any instance
  brings a deleted message back.
\<close>

section \<open>Deleted messages\<close>

text \<open>A key whose row is deleted, and that this stays so.\<close>

definition buried :: "db \<Rightarrow> string \<times> gotime \<Rightarrow> bool" where
  "buried d k \<longleftrightarrow> (\<exists>m \<in> set (t_messages d). message_key m = k) \<and>
     (\<forall>m \<in> set (t_messages d). message_key m = k \<longrightarrow> m_deleted_at m \<noteq> None)"

definition stay_buried :: "db \<Rightarrow> db \<Rightarrow> bool" where
  "stay_buried d d' \<longleftrightarrow> (\<forall>k. buried d k \<longrightarrow> buried d' k)"

lemma stay_same: "t_messages d' = t_messages d \<Longrightarrow> stay_buried d d'"
  by (simp add: stay_buried_def buried_def)

lemma stay_trans: "stay_buried d1 d2 \<Longrightarrow> stay_buried d2 d3 \<Longrightarrow> stay_buried d1 d3"
  by (simp add: stay_buried_def)

lemma stay_insert: "insert_message m d = Inr d' \<Longrightarrow> stay_buried d d'"
proof -
  assume "insert_message m d = Inr d'"
  then obtain row where row: "\<And>x. x \<in> set (t_messages d) \<Longrightarrow> message_key x \<noteq> message_key row" "t_messages d' = t_messages d @ [row]"
    by (fastforce simp: insert_message_def sql_exists_iff Let_def split: if_splits)
  then show ?thesis unfolding stay_buried_def buried_def row(2) by auto
qed

lemma stay_update:
  assumes "\<And>m. message_key (f m) = message_key m" "\<And>m. m_deleted_at m \<noteq> None \<Longrightarrow> m_deleted_at (f m) \<noteq> None"
  shows "stay_buried d (d\<lparr>t_messages := sql_update p f (t_messages d)\<rparr>)"
proof -
  have rows: "set (sql_update p f (t_messages d)) = (\<lambda>m. if p m then f m else m) ` set (t_messages d)" by (simp add: sql_update_def)
  have "message_key (if p m then f m else m) = message_key m" for m using assms(1) by simp
  moreover have "m_deleted_at m \<noteq> None \<Longrightarrow> m_deleted_at (if p m then f m else m) \<noteq> None" for m using assms(2) by simp
  ultimately show ?thesis by (simp add: stay_buried_def buried_def rows del: if_image_distrib)
qed

lemma stay_writes:
  "update_message m d = Inr d' \<Longrightarrow> stay_buried d d'" "set_reactions i rs d = Inr d' \<Longrightarrow> stay_buried d d'"
  "mark_deleted i t u d = Inr d' \<Longrightarrow> stay_buried d d'"
  by (auto simp: update_message_def set_reactions_def mark_deleted_def message_key_def intro!: stay_update split: if_splits)

lemma stay_exec: "(\<And>d'. f d = Inr d' \<Longrightarrow> stay_buried d d') \<Longrightarrow> stay_buried d (snd (db_exec e q f d))"
  using db_exec_preserves [where P = "stay_buried d"] stay_same [OF refl] by blast

lemma stay_commit: "stay_buried d d' \<Longrightarrow> stay_buried d (snd (tx_commit e q d d'))"
  by (cases "tx_commit e q d d'") (auto dest!: tx_commitD intro: stay_same)

text \<open>The operations of the message service; the others leave the messages alone.\<close>

lemma stay_send: "stay_buried (w_db w) (w_db (snd (SendMessage ps e inp w)))"
proof -
  have new: "stay_buried (w_db w) (w_db (snd (send_new ps e inp w)))" for w :: "'a world"
  proof -
    obtain r m d where c: "MessageRepo_Create e (new_message inp (clean_content (in_content inp))) (w_db w) = (r, m, d)"
      by (metis prod.exhaust)
    have "stay_buried (w_db w) d"
      using stay_exec [of "insert_message m" "w_db w" e "''create_message''"] stay_insert c
      by (auto simp: MessageRepo_Create_def Let_def split: prod.splits)
    then show ?thesis
      using stay_same [of "w_db w" "w_db w"] by (simp add: send_new_def Let_def on_db_def c split: sum.split bool.split)
  qed
  obtain y w1 where d: "checkDedup ps e (in_user inp) (in_client inp) w = (y, w1)" by (rule prod.exhaust)
  then have "w_db w1 = w_db w" using checkDedup_db by (fastforce simp: tables_and_log_def)
  then show ?thesis using new [of w] new [of w1] d by (simp add: SendMessage_def stay_same split: option.split)
qed

lemma stay_edit: "stay_buried (w_db w) (w_db (snd (EditMessage ps e i u raw w)))"
proof (cases "edit_check e i u raw w")
  case (Inr msg)
  obtain r m d where c: "MessageRepo_Update e msg (w_db w) = (r, m, d)" by (metis prod.exhaust)
  have "stay_buried (w_db w) d"
    using stay_exec [of "update_message m" "w_db w" e "''update_message''"] stay_writes(1) c
    by (auto simp: MessageRepo_Update_def Let_def split: prod.splits)
  then show ?thesis by (simp add: EditMessage_def Inr edit_write_def on_db_def c split: sum.split)
qed (simp add: EditMessage_def stay_same)

lemma stay_delete: "stay_buried (w_db w) (w_db (snd (DeleteMessage ps e i u w)))"
proof (cases "delete_check e i u w")
  case (Inr msg)
  obtain r d where c: "MessageRepo_Delete e i u (w_db w) = (r, d)" by (rule prod.exhaust)
  have "stay_buried (w_db w) d"
    using stay_exec [of "mark_deleted i (now e ''delete_message'') u" "w_db w" e "''delete_message''"] stay_writes(3) c
    by (simp add: MessageRepo_Delete_def)
  then show ?thesis by (simp add: DeleteMessage_def Inr on_db_def c split: sum.split)
qed (simp add: DeleteMessage_def stay_same)

lemma stay_reactions:
  "stay_buried (w_db w) (w_db (snd (AddReaction e i r u w)))" "stay_buried (w_db w) (w_db (snd (RemoveReaction e i r u w)))"
proof -
  have tx: "stay_buried d (snd (UpdateReactionsTx e i f d))" for f d
    by (auto simp: UpdateReactionsTx_def stay_same split: option.splits sum.splits intro!: stay_commit dest!: tx_exec_ok dest: stay_writes(2))
  show "stay_buried (w_db w) (w_db (snd (AddReaction e i r u w)))" "stay_buried (w_db w) (w_db (snd (RemoveReaction e i r u w)))"
    using tx by (simp_all add: AddReaction_def RemoveReaction_def stay_same split: sum.split)
qed

lemma rest_messages:
  "t_messages (w_db (snd (PresenceService_SetPresence ps e u st info w))) = t_messages (w_db w)"
  "t_messages (w_db (snd (RoomService_MarkRead e r u m w))) = t_messages (w_db w)"
  "t_messages (w_db (snd (Register s e account w))) = t_messages (w_db w)"
  "t_messages (w_db (snd (RoomService_Create e nm ty descr u w))) = t_messages (w_db w)"
  "t_messages (w_db (snd (JoinRoom cache ps e r u w))) = t_messages (w_db w)"
  "t_messages (w_db (snd (LeaveRoom cache ps e r u w))) = t_messages (w_db w)"
proof -
  show "t_messages (w_db (snd (PresenceService_SetPresence ps e u st info w))) = t_messages (w_db w)"
    by (simp add: PresenceService_SetPresence_def on_bus_def split_beta split: option.split)
  have "t_messages (snd (RoomRepo_MarkRead e r u m d)) = t_messages d" for d
    unfolding RoomRepo_MarkRead_def
    by (rule db_exec_preserves) (auto simp: upsert_receipt_def Let_def split: if_splits)
  then show "t_messages (w_db (snd (RoomService_MarkRead e r u m w))) = t_messages (w_db w)"
    by (simp add: RoomService_MarkRead_def on_db_def split_beta split: sum.split bool.split)
  have "t_messages (snd (snd (UserRepo_Create e x d))) = t_messages d" for x d
  proof -
    have "t_messages (snd (db_exec e q (insert_user y) d)) = t_messages d" for q y
      by (rule db_exec_preserves) (auto simp: insert_user_def split: if_splits)
    then show ?thesis by (simp add: UserRepo_Create_def Let_def split_beta)
  qed
  then show "t_messages (w_db (snd (Register s e account w))) = t_messages (w_db w)"
    by (simp add: Register_def Let_def on_db_def split_beta split: sum.split)
  have "t_messages (snd (snd (CreateRoomWithOwner e x y d))) = t_messages d" for x y d
    using CreateRoomWithOwner_own [of e x y d _ _ _ "rm_user_id y"] by (metis own_change_def prod.collapse)
  then show "t_messages (w_db (snd (RoomService_Create e nm ty descr u w))) = t_messages (w_db w)"
    by (simp add: RoomService_Create_def Let_def on_db_def split_beta split: sum.split)
  have "t_messages (snd (JoinRoomTx e x d)) = t_messages d" for x d
    using JoinRoomTx_own [of e x d _ _ "rm_user_id x"] by (metis own_change_def prod.collapse)
  then show "t_messages (w_db (snd (JoinRoom cache ps e r u w))) = t_messages (w_db w)"
    by (simp add: JoinRoom_def on_db_def subscribe_room_def on_bus_def split_beta split: join_plan.split sum.split option.split)
  have "t_messages (snd (LeaveRoomTx e r u d)) = t_messages d" for d
    using LeaveRoomTx_own [of e r u d] by (metis own_change_def prod.collapse)
  then show "t_messages (w_db (snd (LeaveRoom cache ps e r u w))) = t_messages (w_db w)"
    by (simp add: LeaveRoom_def on_db_def on_bus_def split_beta split: sum.split option.split)
qed

interpretation burying: kept "\<lambda>w w'. stay_buried (w_db w) (w_db w')"
  by unfold_locales (simp_all add: stay_send stay_edit stay_delete stay_reactions stay_same rest_messages stay_trans tables_and_log_def)


section \<open>Who deletes, and for how long\<close>

lemma visible_page: "GetRoomMessages e r n before w = Inr ms \<Longrightarrow> m \<in> set ms \<Longrightarrow> m \<in> set (t_messages (w_db w)) \<and> m_deleted_at m = None"
  using GetByRoom_rows [of e r n before "w_db w" ms] by (auto simp: GetRoomMessages_def visible_def)

lemma buried_later:
  assumes "\<forall>m \<in> set (t_messages (w_db w')). m_id m = i \<longrightarrow> m_deleted_at m \<noteq> None"
    and run: "(cluster_step s d)\<^sup>*\<^sup>* c c'" "cl_world c = w'"
    and m: "m \<in> set (t_messages (w_db (cl_world c')))" "m_id m = i" "message_key m \<in> message_key ` set (t_messages (w_db w'))"
  shows "m_deleted_at m \<noteq> None"
proof -
  have "buried (w_db w') (message_key m)"
  proof -
    obtain x where x: "x \<in> set (t_messages (w_db w'))" "message_key x = message_key m" using m(3) by (metis imageE)
    have "m_deleted_at y \<noteq> None" if "y \<in> set (t_messages (w_db w'))" "message_key y = message_key m" for y
      using that assms(1) m(2) by (simp add: message_key_def)
    then show ?thesis using x unfolding buried_def by blast
  qed
  then have "buried (w_db (cl_world c')) (message_key m)"
    using burying.kept_run [OF run(1)] unfolding run(2) stay_buried_def by blast
  then show ?thesis using m(1) by (simp add: buried_def)
qed

text \<open>
  C8. A successful delete was made by an active member of the room of the message who is its author or has the
  role of owner, admin or moderator there; the message was not deleted before; it is now, by that member, and no
  other message changed. It stays deleted: after whatever frames, requests and deliveries on all the servers of the
  cluster, with whatever failures, nobody can delete, edit or react to it, and no page of any room shows it, as
  long as its id has not been given to another message. The code and its error text let moderators delete; the
  documentation names only owners and admins.
\<close>

theorem DeleteMessage_authorized:
  assumes "DeleteMessage ps e i u w = (Inr (), w')"
  shows "(\<exists>msg \<in> set (t_messages (w_db w)). m_id msg = i \<and> m_deleted_at msg = None \<and>
      active_member (w_db w) (m_room_id msg) u \<and>
      (m_user_id msg = u \<or> (\<exists>x \<in> set (t_members (w_db w)). is_key (m_room_id msg) u x \<and> rm_left_at x = None \<and>
         rm_role x \<in> {RoleOwner, RoleAdmin, RoleModerator}))) \<and>
    t_messages (w_db w') = map (\<lambda>x. if m_id x = i \<and> m_deleted_at x = None
       then x\<lparr>m_deleted_at := Some (pg_time (now e ''delete_message'')), m_deleted_by := Some u\<rparr> else x) (t_messages (w_db w)) \<and>
    (\<forall>c c'. cl_world c = w' \<and> (cluster_step s d)\<^sup>*\<^sup>* c c' \<and>
        (\<forall>m \<in> set (t_messages (w_db (cl_world c'))). m_id m = i \<longrightarrow> message_key m \<in> message_key ` set (t_messages (w_db w'))) \<longrightarrow>
      fst (DeleteMessage ps e' i v (cl_world c')) \<noteq> Inr () \<and> fst (EditMessage ps e' i v raw (cl_world c')) \<noteq> Inr () \<and>
      fst (AddReaction e' i emoji v (cl_world c')) \<noteq> Inr () \<and> fst (RemoveReaction e' i emoji v (cl_world c')) \<noteq> Inr () \<and>
      (\<forall>ms. GetRoomMessages e' r n before (cl_world c') = Inr ms \<longrightarrow> i \<notin> m_id ` set ms))"
proof -
  note who = DeleteMessage_outcome [OF assms]
  have rows: "t_messages (w_db w') = map (\<lambda>x. if m_id x = i \<and> m_deleted_at x = None
       then x\<lparr>m_deleted_at := Some (pg_time (now e ''delete_message'')), m_deleted_by := Some u\<rparr> else x) (t_messages (w_db w))"
    using who by (rule conjunct2)
  have dead: "\<forall>m \<in> set (t_messages (w_db w')). m_id m = i \<longrightarrow> m_deleted_at m \<noteq> None"
    unfolding rows by (rule ball_updated_rows) auto
  note later = buried_later [OF dead]
  have refused: "fst (DeleteMessage ps e' i v (cl_world c')) \<noteq> Inr () \<and> fst (EditMessage ps e' i v raw (cl_world c')) \<noteq> Inr () \<and>
      fst (AddReaction e' i emoji v (cl_world c')) \<noteq> Inr () \<and> fst (RemoveReaction e' i emoji v (cl_world c')) \<noteq> Inr () \<and>
      (\<forall>ms. GetRoomMessages e' r n before (cl_world c') = Inr ms \<longrightarrow> i \<notin> m_id ` set ms)"
    if "cl_world c = w' \<and> (cluster_step s d)\<^sup>*\<^sup>* c c' \<and>
        (\<forall>m \<in> set (t_messages (w_db (cl_world c'))). m_id m = i \<longrightarrow> message_key m \<in> message_key ` set (t_messages (w_db w')))" for c c'
  proof -
    have gone: "\<forall>m \<in> set (t_messages (w_db (cl_world c'))). m_id m = i \<longrightarrow> m_deleted_at m \<noteq> None" using that later by auto
    then have "i \<notin> m_id ` set ms" if "GetRoomMessages e' r n before (cl_world c') = Inr ms" for ms
      using visible_page [OF that] by auto
    with deleted_refused [OF gone, of ps e' v raw emoji] show ?thesis by blast
  qed
  show ?thesis
    by (rule conjI [OF who [THEN conjunct1] conjI [OF who [THEN conjunct2]]]) (intro allI impI, rule refused)
qed

section \<open>Examples\<close>

lemma DeleteMessage_authorized_witness:
  "\<exists>w'. DeleteMessage (Some ref_api) (quiet_env 0) ''41'' ''ann'' sample_world = (Inr (), w') \<and>
     fst (EditMessage (Some ref_api) (quiet_env 0) ''41'' ''bob'' ''new'' w') \<noteq> Inr ()"
proof -
  have ann: "has_user sample_db ''ann''" by (simp add: has_user_def sql_exists_def sample_db_def sample_user_def)
  obtain w' where run: "DeleteMessage (Some ref_api) (quiet_env 0) ''41'' ''ann'' sample_world = (Inr (), w')"
    by (simp add: DeleteMessage_def sample_check on_db_def MessageRepo_Delete_def mark_deleted_def ann)
  let ?c = "start_cluster w'"
  from DeleteMessage_authorized [OF run, of sample_server sample_http "quiet_env 0" "''bob''" "''new''" "''ok''" "''r1''" 10 None]
  have "cl_world ?c = w' \<and> (cluster_step sample_server sample_http)\<^sup>*\<^sup>* ?c ?c \<and>
      (\<forall>m \<in> set (t_messages (w_db (cl_world ?c))). m_id m = ''41'' \<longrightarrow> message_key m \<in> message_key ` set (t_messages (w_db w'))) \<longrightarrow>
      fst (EditMessage (Some ref_api) (quiet_env 0) ''41'' ''bob'' ''new'' (cl_world ?c)) \<noteq> Inr ()"
    by blast
  then show ?thesis using run by (simp add: start_cluster_def)
qed

end
