(* ===== verification/Roles.thy ===== *)
theory Roles
  imports Deletion
begin

text \<open>
  Who has which role in which room: every room has its creator as its owner, and nothing that the program does gives
  anybody else more than the role of a member.
\<close>

section \<open>Rooms and roles\<close>

text \<open>The rooms with their creators, and the members with their roles, whether they have left or not.\<close>

definition creators :: "db \<Rightarrow> (string \<times> string) set" where
  "creators d = (\<lambda>x. (r_id x, r_created_by x)) ` set (t_rooms d)"

definition roles :: "db \<Rightarrow> (string \<times> string \<times> member_role) set" where
  "roles d = (\<lambda>m. (rm_room_id m, rm_user_id m, rm_role m)) ` set (t_members d)"

definition roles_ok :: "db \<Rightarrow> bool" where
  "roles_ok d \<longleftrightarrow> (\<forall>r u v. (r, u) \<in> creators d \<and> (r, v) \<in> creators d \<longrightarrow> u = v) \<and>
     (\<forall>r u. (r, u) \<in> creators d \<longrightarrow> (r, u, RoleOwner) \<in> roles d) \<and>
     (\<forall>r u a. (r, u, a) \<in> roles d \<longrightarrow> a = RoleMember \<or> a = RoleOwner \<and> (r, u) \<in> creators d) \<and>
     (\<forall>r u a b. (r, u, a) \<in> roles d \<and> (r, u, b) \<in> roles d \<longrightarrow> a = b)"

lemma roles_same: "t_rooms d' = t_rooms d \<and> t_members d' = t_members d \<Longrightarrow> roles_ok d' = roles_ok d"
  by (simp add: roles_ok_def creators_def roles_def)

lemma roles_ok_cong: "creators d' = creators d \<Longrightarrow> roles d' = roles d \<Longrightarrow> roles_ok d \<Longrightarrow> roles_ok d'"
  by (simp add: roles_ok_def)

section \<open>The writes\<close>

lemma creators_update:
  assumes "\<And>x. r_id (f x) = r_id x" "\<And>x. r_created_by (f x) = r_created_by x"
  shows "creators (d\<lparr>t_rooms := sql_update p f (t_rooms d)\<rparr>) = creators d"
proof -
  have "(\<lambda>x. (r_id x, r_created_by x)) ` set (sql_update p f (t_rooms d)) = (\<lambda>x. (r_id x, r_created_by x)) ` set (t_rooms d)"
    by (simp add: sql_update_def image_image assms if_distrib [of r_id] if_distrib [of r_created_by] cong: if_cong del: if_image_distrib)
  then show ?thesis by (simp add: creators_def)
qed

lemma roles_update:
  assumes "\<And>m. rm_room_id (f m) = rm_room_id m" "\<And>m. rm_user_id (f m) = rm_user_id m" "\<And>m. rm_role (f m) = rm_role m"
  shows "roles (d\<lparr>t_members := sql_update p f (t_members d)\<rparr>) = roles d"
proof -
  let ?k = "\<lambda>m. (rm_room_id m, rm_user_id m, rm_role m)"
  have same: "map ?k (sql_update p f (t_members d)) = map ?k (t_members d)" by (simp add: sql_update_def assms)
  show ?thesis using arg_cong [OF same, of set] by (simp add: roles_def del: set_map) (simp only: list.set_map)
qed

lemma roles_writes:
  "mark_left r u t d = Inr d' \<Longrightarrow> creators d' = creators d \<and> roles d' = roles d"
  "recount_members r t d = Inr d' \<Longrightarrow> creators d' = creators d \<and> roles d' = roles d"
  "insert_room x d = Inr d' \<Longrightarrow> (\<forall>u. (r_id x, u) \<notin> creators d) \<and> creators d' = insert (r_id x, r_created_by x) (creators d) \<and> roles d' = roles d"
  "insert_member m d = Inr d' \<Longrightarrow> (\<forall>a. (rm_room_id m, rm_user_id m, a) \<notin> roles d) \<and> creators d' = creators d \<and> roles d' = insert (rm_room_id m, rm_user_id m, rm_role m) (roles d)"
proof -
  show "mark_left r u t d = Inr d' \<Longrightarrow> creators d' = creators d \<and> roles d' = roles d"
    by (auto simp: mark_left_def roles_update) (simp_all add: creators_def)
  show "recount_members r t d = Inr d' \<Longrightarrow> creators d' = creators d \<and> roles d' = roles d"
    by (auto simp: recount_members_def creators_update) (simp_all add: roles_def)
  show "insert_room x d = Inr d' \<Longrightarrow> (\<forall>u. (r_id x, u) \<notin> creators d) \<and> creators d' = insert (r_id x, r_created_by x) (creators d) \<and> roles d' = roles d"
    by (auto simp: insert_room_def creators_def roles_def has_room_def sql_exists_iff split: if_splits)
  show "insert_member m d = Inr d' \<Longrightarrow> (\<forall>a. (rm_room_id m, rm_user_id m, a) \<notin> roles d) \<and> creators d' = creators d \<and> roles d' = insert (rm_room_id m, rm_user_id m, rm_role m) (roles d)"
    by (auto simp: insert_member_def creators_def roles_def member_row_def member_key_def sql_exists_iff split: if_splits)
qed

lemma upsert_roles:
  assumes "upsert_member m d = Inr d'" "rm_role m = RoleMember" "roles_ok d"
  shows "roles_ok d'"
proof (cases "sql_exists (is_key (rm_room_id m) (rm_user_id m)) (t_members d)")
  case True
  let ?d = "d\<lparr>t_members := sql_update (is_key (rm_room_id m) (rm_user_id m)) (\<lambda>r. r\<lparr>rm_left_at := None\<rparr>) (t_members d)\<rparr>"
  have "d' = ?d" using assms(1) True by (simp add: upsert_member_def)
  moreover have "roles ?d = roles d" by (rule roles_update) simp_all
  moreover have "creators ?d = creators d" by (simp add: creators_def)
  ultimately show ?thesis using roles_ok_cong assms(3) by blast
next
  case False
  then have "insert_member m d = Inr d'" using assms(1) by (simp add: upsert_member_def)
  from roles_writes(4) [OF this] have new: "creators d' = creators d" "roles d' = insert (rm_room_id m, rm_user_id m, RoleMember) (roles d)"
      "\<And>a. (rm_room_id m, rm_user_id m, a) \<notin> roles d"
    using assms(2) by simp_all
  have "a = b" if "(r, u, a) \<in> roles d'" "(r, u, b) \<in> roles d'" for r u a b
    using that new(3) assms(3) unfolding new(2) roles_ok_def by auto
  moreover have "a = RoleMember \<or> a = RoleOwner \<and> (r, u) \<in> creators d'" if "(r, u, a) \<in> roles d'" for r u a
    using that assms(3) unfolding new roles_ok_def by blast
  moreover have "(r, u, RoleOwner) \<in> roles d'" if "(r, u) \<in> creators d'" for r u
    using that assms(3) unfolding new roles_ok_def by blast
  ultimately show ?thesis using assms(3) unfolding roles_ok_def new(1) by blast
qed

lemma owner_roles:
  assumes "insert_room x d = Inr d1" "insert_member m d1 = Inr d2" "roles_ok d"
    and "rm_role m = RoleOwner" "rm_room_id m = r_id x" "rm_user_id m = r_created_by x"
  shows "roles_ok d2"
proof -
  have eqs: "creators d2 = insert (r_id x, r_created_by x) (creators d)" "roles d2 = insert (r_id x, r_created_by x, RoleOwner) (roles d)"
      "\<And>u. (r_id x, u) \<notin> creators d" "\<And>a. (r_id x, r_created_by x, a) \<notin> roles d"
    using roles_writes(3) [OF assms(1)] roles_writes(4) [OF assms(2)] assms(4-6) by simp_all
  have old: "\<And>r u v. (r, u) \<in> creators d \<Longrightarrow> (r, v) \<in> creators d \<Longrightarrow> u = v" "\<And>r u. (r, u) \<in> creators d \<Longrightarrow> (r, u, RoleOwner) \<in> roles d"
      "\<And>r u a. (r, u, a) \<in> roles d \<Longrightarrow> a = RoleMember \<or> a = RoleOwner \<and> (r, u) \<in> creators d"
      "\<And>r u a b. (r, u, a) \<in> roles d \<Longrightarrow> (r, u, b) \<in> roles d \<Longrightarrow> a = b"
    using assms(3) unfolding roles_ok_def by blast+
  show ?thesis
    unfolding roles_ok_def eqs(1,2)
  proof (intro conjI allI impI)
    fix r u v assume "(r, u) \<in> insert (r_id x, r_created_by x) (creators d) \<and> (r, v) \<in> insert (r_id x, r_created_by x) (creators d)"
    then show "u = v" using old(1) eqs(3) by auto
  next
    fix r u assume "(r, u) \<in> insert (r_id x, r_created_by x) (creators d)"
    then show "(r, u, RoleOwner) \<in> insert (r_id x, r_created_by x, RoleOwner) (roles d)" using old(2) by auto
  next
    fix r u a assume "(r, u, a) \<in> insert (r_id x, r_created_by x, RoleOwner) (roles d)"
    then show "a = RoleMember \<or> a = RoleOwner \<and> (r, u) \<in> insert (r_id x, r_created_by x) (creators d)" using old(3) [of r u a] by auto
  next
    fix r u a b assume "(r, u, a) \<in> insert (r_id x, r_created_by x, RoleOwner) (roles d) \<and> (r, u, b) \<in> insert (r_id x, r_created_by x, RoleOwner) (roles d)"
    then show "a = b" using old(4) eqs(4) by auto
  qed
qed

text \<open>The transactions: a room without its owner is never committed.\<close>

lemma commit_roles: "roles_ok d \<Longrightarrow> roles_ok c \<Longrightarrow> roles_ok (snd (tx_commit e q d c))"
  by (cases "tx_commit e q d c") (auto dest!: tx_commitD)

lemma tx_roles:
  "roles_ok d \<Longrightarrow> rm_role m = RoleMember \<Longrightarrow> roles_ok (snd (JoinRoomTx e m d))"
  "roles_ok d \<Longrightarrow> roles_ok (snd (LeaveRoomTx e r u d))"
  "roles_ok d \<Longrightarrow> rm_role m = RoleOwner \<Longrightarrow> rm_user_id m = r_created_by x \<Longrightarrow> roles_ok (snd (snd (CreateRoomWithOwner e x m d)))"
proof -
  have "recount_members r t d1 = Inr d2 \<Longrightarrow> roles_ok d1 \<Longrightarrow> roles_ok d2" for r t d1 d2
    using roles_writes(2) roles_ok_cong by blast
  moreover have "mark_left r u t d1 = Inr d2 \<Longrightarrow> roles_ok d1 \<Longrightarrow> roles_ok d2" for r u t d1 d2
    using roles_writes(1) roles_ok_cong by blast
  ultimately have keep: "recount_members r t d1 = Inr d2 \<Longrightarrow> roles_ok d1 \<Longrightarrow> roles_ok d2" "mark_left r u t d1 = Inr d2 \<Longrightarrow> roles_ok d1 \<Longrightarrow> roles_ok d2" for r u t d1 d2
    by blast+
  show "roles_ok d \<Longrightarrow> rm_role m = RoleMember \<Longrightarrow> roles_ok (snd (JoinRoomTx e m d))"
    by (auto simp: JoinRoomTx_def split: option.splits sum.splits if_splits dest!: tx_exec_ok intro!: commit_roles intro: keep upsert_roles)
  show "roles_ok d \<Longrightarrow> roles_ok (snd (LeaveRoomTx e r u d))"
    by (auto simp: LeaveRoomTx_def split: option.splits sum.splits dest!: tx_exec_ok intro!: commit_roles intro: keep)
  show "roles_ok d \<Longrightarrow> rm_role m = RoleOwner \<Longrightarrow> rm_user_id m = r_created_by x \<Longrightarrow> roles_ok (snd (snd (CreateRoomWithOwner e x m d)))"
    by (auto simp: CreateRoomWithOwner_def Let_def split_beta split: option.splits sum.splits dest!: tx_exec_ok intro!: commit_roles
        elim!: owner_roles)
qed


section \<open>The operations\<close>

lemma exec_tables:
  assumes "\<And>d'. f d = Inr d' \<Longrightarrow> t_rooms d' = t_rooms d \<and> t_members d' = t_members d"
  shows "t_rooms (snd (db_exec e q f d)) = t_rooms d \<and> t_members (snd (db_exec e q f d)) = t_members d"
  by (rule db_exec_preserves) (use assms in auto)

lemma message_tables:
  "t_rooms (w_db (snd (SendMessage ps e inp w))) = t_rooms (w_db w) \<and> t_members (w_db (snd (SendMessage ps e inp w))) = t_members (w_db w)"
  "t_rooms (w_db (snd (EditMessage ps e i u raw w))) = t_rooms (w_db w) \<and> t_members (w_db (snd (EditMessage ps e i u raw w))) = t_members (w_db w)"
  "t_rooms (w_db (snd (DeleteMessage ps e i u w))) = t_rooms (w_db w) \<and> t_members (w_db (snd (DeleteMessage ps e i u w))) = t_members (w_db w)"
proof -
  have 1: "t_rooms (snd (db_exec e q (insert_message m) d)) = t_rooms d \<and> t_members (snd (db_exec e q (insert_message m) d)) = t_members d" for q m d
    by (rule exec_tables) (auto simp: insert_message_def Let_def split: if_splits)
  have 2: "t_rooms (snd (db_exec e q (update_message m) d)) = t_rooms d \<and> t_members (snd (db_exec e q (update_message m) d)) = t_members d" for q m d
    by (rule exec_tables) (auto simp: update_message_def)
  have 3: "t_rooms (snd (db_exec e q (mark_deleted i t v) d)) = t_rooms d \<and> t_members (snd (db_exec e q (mark_deleted i t v) d)) = t_members d" for q t v d
    by (rule exec_tables) (auto simp: mark_deleted_def split: if_splits)
  have new: "t_rooms (w_db (snd (send_new ps e inp w))) = t_rooms (w_db w) \<and> t_members (w_db (snd (send_new ps e inp w))) = t_members (w_db w)"
    for w :: "'a world"
    using 1 by (simp add: send_new_def MessageRepo_Create_def Let_def on_db_def split_beta split: sum.split bool.split)
  obtain y w1 where d: "checkDedup ps e (in_user inp) (in_client inp) w = (y, w1)" by (rule prod.exhaust)
  then have "w_db w1 = w_db w" using checkDedup_db by (fastforce simp: tables_and_log_def)
  then show "t_rooms (w_db (snd (SendMessage ps e inp w))) = t_rooms (w_db w) \<and> t_members (w_db (snd (SendMessage ps e inp w))) = t_members (w_db w)"
    using new [of w] new [of w1] d by (simp add: SendMessage_def split: option.split)
  show "t_rooms (w_db (snd (EditMessage ps e i u raw w))) = t_rooms (w_db w) \<and> t_members (w_db (snd (EditMessage ps e i u raw w))) = t_members (w_db w)"
    using 2 by (simp add: EditMessage_def edit_write_def MessageRepo_Update_def Let_def on_db_def split_beta split: sum.split)
  show "t_rooms (w_db (snd (DeleteMessage ps e i u w))) = t_rooms (w_db w) \<and> t_members (w_db (snd (DeleteMessage ps e i u w))) = t_members (w_db w)"
    using 3 by (simp add: DeleteMessage_def MessageRepo_Delete_def on_db_def split_beta split: sum.split)
qed

lemma other_tables:
  "t_rooms (w_db (snd (AddReaction e i r u w))) = t_rooms (w_db w) \<and> t_members (w_db (snd (AddReaction e i r u w))) = t_members (w_db w)"
  "t_rooms (w_db (snd (RemoveReaction e i r u w))) = t_rooms (w_db w) \<and> t_members (w_db (snd (RemoveReaction e i r u w))) = t_members (w_db w)"
  "t_rooms (w_db (snd (PresenceService_SetPresence ps e u st info w))) = t_rooms (w_db w) \<and>
   t_members (w_db (snd (PresenceService_SetPresence ps e u st info w))) = t_members (w_db w)"
  "t_rooms (w_db (snd (RoomService_MarkRead e r u m w))) = t_rooms (w_db w) \<and> t_members (w_db (snd (RoomService_MarkRead e r u m w))) = t_members (w_db w)"
  "t_rooms (w_db (snd (Register s e account w))) = t_rooms (w_db w) \<and> t_members (w_db (snd (Register s e account w))) = t_members (w_db w)"
proof -
  have c: "t_rooms (snd (tx_commit e q d d')) = t_rooms d \<and> t_members (snd (tx_commit e q d d')) = t_members d"
    if "t_rooms d' = t_rooms d" "t_members d' = t_members d" for q d d'
    using that by (cases "tx_commit e q d d'") (auto dest!: tx_commitD)
  have tx: "t_rooms (snd (UpdateReactionsTx e i f d)) = t_rooms d \<and> t_members (snd (UpdateReactionsTx e i f d)) = t_members d" for f d
    by (auto simp: UpdateReactionsTx_def set_reactions_def c split: option.splits sum.splits dest!: tx_exec_ok)
  show "t_rooms (w_db (snd (AddReaction e i r u w))) = t_rooms (w_db w) \<and> t_members (w_db (snd (AddReaction e i r u w))) = t_members (w_db w)"
    "t_rooms (w_db (snd (RemoveReaction e i r u w))) = t_rooms (w_db w) \<and> t_members (w_db (snd (RemoveReaction e i r u w))) = t_members (w_db w)"
    using tx by (simp_all add: AddReaction_def RemoveReaction_def on_db_def split_beta split: sum.split)
  show "t_rooms (w_db (snd (PresenceService_SetPresence ps e u st info w))) = t_rooms (w_db w) \<and>
      t_members (w_db (snd (PresenceService_SetPresence ps e u st info w))) = t_members (w_db w)"
    by (simp add: PresenceService_SetPresence_def on_bus_def split_beta split: option.split)
  have "t_rooms (snd (RoomRepo_MarkRead e r u m d)) = t_rooms d \<and> t_members (snd (RoomRepo_MarkRead e r u m d)) = t_members d" for d
    unfolding RoomRepo_MarkRead_def by (rule exec_tables) (auto simp: upsert_receipt_def Let_def split: if_splits)
  then show "t_rooms (w_db (snd (RoomService_MarkRead e r u m w))) = t_rooms (w_db w) \<and> t_members (w_db (snd (RoomService_MarkRead e r u m w))) = t_members (w_db w)"
    by (simp add: RoomService_MarkRead_def on_db_def split_beta split: sum.split bool.split)
  have "t_rooms (snd (db_exec e q (insert_user y) d)) = t_rooms d \<and> t_members (snd (db_exec e q (insert_user y) d)) = t_members d" for q y d
    by (rule exec_tables) (auto simp: insert_user_def split: if_splits)
  then show "t_rooms (w_db (snd (Register s e account w))) = t_rooms (w_db w) \<and> t_members (w_db (snd (Register s e account w))) = t_members (w_db w)"
    by (simp add: Register_def UserRepo_Create_def Let_def on_db_def split_beta split: sum.split)
qed

lemma room_operations:
  assumes "roles_ok (w_db w)"
  shows "roles_ok (w_db (snd (RoomService_Create e nm ty descr u w)))" "roles_ok (w_db (snd (JoinRoom cache ps e r u w)))"
    "roles_ok (w_db (snd (LeaveRoom cache ps e r u w)))"
proof -
  show "roles_ok (w_db (snd (RoomService_Create e nm ty descr u w)))"
    using tx_roles(3) [OF assms] by (simp add: RoomService_Create_def Let_def on_db_def split_beta split: sum.split)
  have m: "rm_role (new_member e q r u RoleMember) = RoleMember" for q by (simp add: new_member_def)
  show "roles_ok (w_db (snd (JoinRoom cache ps e r u w)))"
    using tx_roles(1) [OF assms m] assms
    by (simp add: JoinRoom_def on_db_def subscribe_room_def on_bus_def split_beta split: join_plan.split sum.split option.split)
  show "roles_ok (w_db (snd (LeaveRoom cache ps e r u w)))"
    using tx_roles(2) [OF assms] assms by (simp add: LeaveRoom_def on_db_def on_bus_def split_beta split: sum.split option.split)
qed

lemmas same_roles = message_tables [THEN roles_same] other_tables [THEN roles_same]

interpretation role_keeping: kept "\<lambda>w w'. roles_ok (w_db w) \<longrightarrow> roles_ok (w_db w')"
  by unfold_locales (simp_all add: same_roles room_operations tables_and_log_def)

text \<open>
  C22. Nobody is given a role that is not theirs: along every run of the cluster, whatever requests, frames and
  deliveries it has, in whatever order, with whatever clocks, identifiers and failures in the middle of a
  transaction, every room has its creator as its owner, no room has another owner, and every other member of a
  room has the role of a plain member.
\<close>

theorem owners_are_creators:
  assumes "(cluster_step s d)\<^sup>*\<^sup>* c c'" "roles_ok (w_db (cl_world c))" "x \<in> set (t_rooms (w_db (cl_world c')))"
  shows "(\<exists>m \<in> set (t_members (w_db (cl_world c'))). is_key (r_id x) (r_created_by x) m) \<and>
    (\<forall>m \<in> set (t_members (w_db (cl_world c'))). rm_room_id m = r_id x \<longrightarrow>
      rm_role m = (if rm_user_id m = r_created_by x then RoleOwner else RoleMember))"
proof -
  let ?d = "w_db (cl_world c')"
  have ok: "roles_ok ?d" using role_keeping.kept_run [OF assms(1)] assms(2) by blast
  have x: "(r_id x, r_created_by x) \<in> creators ?d" using assms(3) by (auto simp: creators_def)
  then have owner: "(r_id x, r_created_by x, RoleOwner) \<in> roles ?d" using ok by (simp add: roles_ok_def)
  have "rm_role m = (if rm_user_id m = r_created_by x then RoleOwner else RoleMember)"
    if "m \<in> set (t_members ?d)" "rm_room_id m = r_id x" for m
  proof -
    have m: "(r_id x, rm_user_id m, rm_role m) \<in> roles ?d" using that by (force simp: roles_def)
    show ?thesis
    proof (cases "rm_user_id m = r_created_by x")
      case True
      have "rm_role m = RoleOwner" using ok m owner unfolding True roles_ok_def by blast
      then show ?thesis using True by simp
    next
      case False
      have "(r_id x, rm_user_id m) \<notin> creators ?d" using ok x False unfolding roles_ok_def by blast
      then have "rm_role m = RoleMember" using ok m unfolding roles_ok_def by blast
      then show ?thesis using False by simp
    qed
  qed
  moreover have "\<exists>m \<in> set (t_members ?d). is_key (r_id x) (r_created_by x) m" using owner by (auto simp: roles_def is_key_def)
  ultimately show ?thesis by blast
qed

section \<open>Examples\<close>

lemma sample_roles: "roles_ok sample_db"
  by (auto simp: roles_ok_def creators_def roles_def sample_defs)

lemma owners_are_creators_witness:
  "\<exists>c. (cluster_step sample_server sample_http)\<^sup>*\<^sup>* (start_cluster sample_world) c \<and> h_closed (cl_hub c 0) \<and>
     (\<exists>m. m \<in> set (t_members (w_db (cl_world c))) \<and> is_key ''r1'' ''ann'' m \<and> rm_role m = RoleOwner)"
proof -
  let ?c = "put_hub 0 (CloseAll NewHub) (start_cluster sample_world)"
  have step: "cluster_step sample_server sample_http (start_cluster sample_world) ?c"
    using cluster_step.closes [of "start_cluster sample_world" 0 sample_server sample_http] by (simp add: start_cluster_def NewHub_def)
  then have run: "(cluster_step sample_server sample_http)\<^sup>*\<^sup>* (start_cluster sample_world) ?c" by (rule r_into_rtranclp)
  have w: "cl_world ?c = sample_world" "cl_world (start_cluster sample_world) = sample_world" by (simp_all add: put_hub_def start_cluster_def)
  have x: "sample_room \<in> set (t_rooms (w_db (cl_world ?c)))" "r_id sample_room = ''r1''" "r_created_by sample_room = ''ann''"
    by (simp_all add: w) (simp_all add: sample_defs)
  have "roles_ok (w_db (cl_world (start_cluster sample_world)))" using sample_roles by (simp add: w)
  note ok = owners_are_creators [OF run this x(1), unfolded x(2,3)]
  then obtain m where m: "m \<in> set (t_members (w_db (cl_world ?c)))" "is_key ''r1'' ''ann'' m" by blast
  then have "rm_role m = RoleOwner" using ok by (simp add: is_key_def)
  moreover have "h_closed (cl_hub ?c 0)" by (simp add: put_hub_def CloseAll_def NewHub_def)
  ultimately show ?thesis using run m by blast
qed

end
