(* ===== verification/Confinement.thy ===== *)
theory Confinement
  imports Operations
begin

text \<open>
  What a frame can do to others: \<open>handleMessage\<close> touches no other connection, answers the sender alone and at most once,
  and puts nothing but typing of the sender into the channel of the hub.
\<close>

section \<open>Other connections\<close>

text \<open>Nothing of the hub changes but the connection \<open>i\<close>, its subscriptions, and the channel of messages to deliver.\<close>

definition only_own :: "string \<Rightarrow> hub \<Rightarrow> hub \<Rightarrow> bool" where
  "only_own i h h' \<longleftrightarrow> (\<forall>j. j \<noteq> i \<longrightarrow> h_client h' j = h_client h j) \<and>
     (\<forall>r j. j \<noteq> i \<longrightarrow> (j \<in> ids_of (h_rooms h') r \<longleftrightarrow> j \<in> ids_of (h_rooms h) r)) \<and>
     h_clients h' = h_clients h \<and> h_users h' = h_users h \<and> h_register h' = h_register h \<and> h_unregister h' = h_unregister h"

lemma only_own_refl [simp]: "only_own i h h"
  by (simp add: only_own_def)

lemma only_own_trans: "only_own i h1 h2 \<Longrightarrow> only_own i h2 h3 \<Longrightarrow> only_own i h1 h3"
  by (simp add: only_own_def)

lemma own_moves [simp]:
  "only_own i h (reply i d h)" "only_own i h (enqueue r d h)" "only_own i h (sendAck e i m sid st h)" "only_own i h (sendError e i m c t h)"
  "only_own i h (Hub_SubscribeToRoom i r h)" "only_own i h (Hub_UnsubscribeFromRoom i r h)"
  by (auto simp: only_own_def reply_def enqueue_def sendAck_def sendError_def Hub_SubscribeToRoom_def Hub_UnsubscribeFromRoom_def)

lemma own_loops [simp]:
  "only_own i h (snd (subscribe_loop e i rs (w, h) n))" "only_own i h (fold (Hub_UnsubscribeFromRoom i) rs h)"
proof (induction rs arbitrary: h n)
  case (Cons r rs)
  { case 1
    show ?case using only_own_trans [OF own_moves(5) Cons(1)] Cons(1) by auto
  next
    case 2
    show ?case using only_own_trans [OF own_moves(6) Cons(2)] by simp
  }
qed simp_all

lemma loops_keep [simp]:
  "c_send (h_client (snd (subscribe_loop e i rs (w, h) n)) j) = c_send (h_client h j)"
  "h_broadcast (snd (subscribe_loop e i rs (w, h) n)) = h_broadcast h"
  "c_send (h_client (fold (Hub_UnsubscribeFromRoom i) rs h) j) = c_send (h_client h j)"
  "h_broadcast (fold (Hub_UnsubscribeFromRoom i) rs h) = h_broadcast h"
  by (induction rs arbitrary: h n) (auto simp: Hub_SubscribeToRoom_def Hub_UnsubscribeFromRoom_def)

section \<open>Answers\<close>

text \<open>What can answer a frame: an acknowledgement or an error with its id, or a pong.\<close>

definition answers :: "env \<Rightarrow> client_message \<Rightarrow> json set" where
  "answers e msg = insert (frame e ServerMsgPong JNull)
     (range (\<lambda>(sid, st). frame e ServerMsgAck (ack_json (cm_id msg) sid st)) \<union>
      range (\<lambda>(code, reason). frame e ServerMsgError (error_json (cm_id msg) code reason)))"

definition answered :: "env \<Rightarrow> client_message \<Rightarrow> string \<Rightarrow> hub \<Rightarrow> hub \<Rightarrow> bool" where
  "answered e msg i h h' \<longleftrightarrow> only_own i h h' \<and>
     (c_send (h_client h' i) = c_send (h_client h i) \<or> (\<exists>d \<in> answers e msg. c_send (h_client h' i) = c_send (h_client h i) @ [d]))"

lemma answered_moves [simp]:
  "answered e msg i h h" "answered e msg i h (sendAck e i (cm_id msg) sid st h)" "answered e msg i h (sendError e i (cm_id msg) code reason h)"
  "answered e msg i h (reply i (frame e ServerMsgPong JNull) h)" "answered e msg i h (enqueue r d h)"
  by (auto simp: answered_def answers_def sendAck_def sendError_def reply_def push_def enqueue_def only_own_def)

lemma answered_after:
  "only_own i h h1 \<Longrightarrow> c_send (h_client h1 i) = c_send (h_client h i) \<Longrightarrow> answered e msg i h1 h2 \<Longrightarrow> answered e msg i h h2"
  by (auto simp: answered_def intro: only_own_trans)

lemma replies_queue [simp]:
  "h_broadcast (sendAck e i m sid st h) = h_broadcast h" "h_broadcast (sendError e i m c t h) = h_broadcast h" "h_broadcast (reply i d h) = h_broadcast h"
  by (simp_all add: sendAck_def sendError_def reply_def)

text \<open>Every handler but that for typing answers, and leaves the channel of the hub alone.\<close>

lemma handlers_answer:
  "answered e msg i h (snd (handleSubscribe e i msg (w, h))) \<and> h_broadcast (snd (handleSubscribe e i msg (w, h))) = h_broadcast h"
  "answered e msg i h (snd (handleUnsubscribe i msg (w, h))) \<and> h_broadcast (snd (handleUnsubscribe i msg (w, h))) = h_broadcast h"
  "answered e msg i h (snd (handleChatMessage ps e i msg (w, h))) \<and> h_broadcast (snd (handleChatMessage ps e i msg (w, h))) = h_broadcast h"
  "answered e msg i h (snd (handlePing e i (w, h))) \<and> h_broadcast (snd (handlePing e i (w, h))) = h_broadcast h"
  "answered e msg i h (snd (handlePresence ps e i msg (w, h))) \<and> h_broadcast (snd (handlePresence ps e i msg (w, h))) = h_broadcast h"
  "answered e msg i h (snd (handleReaction e i msg (w, h))) \<and> h_broadcast (snd (handleReaction e i msg (w, h))) = h_broadcast h"
  "answered e msg i h (snd (handleEdit ps e i msg (w, h))) \<and> h_broadcast (snd (handleEdit ps e i msg (w, h))) = h_broadcast h"
  "answered e msg i h (snd (handleDelete ps e i msg (w, h))) \<and> h_broadcast (snd (handleDelete ps e i msg (w, h))) = h_broadcast h"
  "answered e msg i h (snd (handleReadReceipt e i msg (w, h))) \<and> h_broadcast (snd (handleReadReceipt e i msg (w, h))) = h_broadcast h"
proof -
  have sub: "answered e msg i h (sendAck e i (cm_id msg) sid st (snd (subscribe_loop e i rs (w, h) n)))" for sid st rs n
    by (rule answered_after [OF own_loops(1) loops_keep(1) answered_moves(2)])
  have unsub: "answered e msg i h (fold (Hub_UnsubscribeFromRoom i) rs h)" for rs
    by (rule answered_after [OF own_loops(2) loops_keep(3) answered_moves(1)])
  show "answered e msg i h (snd (handleSubscribe e i msg (w, h))) \<and> h_broadcast (snd (handleSubscribe e i msg (w, h))) = h_broadcast h"
    using sub by (simp add: handleSubscribe_def Let_def split_beta split: option.split)
  show "answered e msg i h (snd (handleUnsubscribe i msg (w, h))) \<and> h_broadcast (snd (handleUnsubscribe i msg (w, h))) = h_broadcast h"
    using unsub by (simp add: handleUnsubscribe_def split: option.split)
  show "answered e msg i h (snd (handleChatMessage ps e i msg (w, h))) \<and> h_broadcast (snd (handleChatMessage ps e i msg (w, h))) = h_broadcast h"
    by (simp add: handleChatMessage_def Let_def split_beta split: option.split sum.split prod.split)
qed (simp_all add: handlePing_def handlePresence_def handleReaction_def handleEdit_def handleDelete_def handleReadReceipt_def
      split_beta split: option.split sum.split)

text \<open>
  C21. A frame acts for its sender only. Whatever it asks for, no other connection, no subscription of another
  connection and no registration changes; the sender gets at most one answer, an acknowledgement or an error
  with the id of the frame, or a pong; and the only thing that goes to a room directly is typing, under the name of
  the sender, and to a room that the sender is an active member of and has subscribed to.
\<close>

theorem frames_act_for_their_sender:
  assumes "handleMessage ps e i data (w, h) = (w', h')" "(case data of None \<Rightarrow> None | Some j \<Rightarrow> client_message_of_json j) = Some msg"
  shows "(\<forall>j. j \<noteq> i \<longrightarrow> h_client h' j = h_client h j) \<and>
    (\<forall>r j. j \<noteq> i \<longrightarrow> isSubscribed j r h' = isSubscribed j r h) \<and> h_clients h' = h_clients h \<and> h_users h' = h_users h \<and>
    (c_send (h_client h' i) = c_send (h_client h i) \<or> (\<exists>d \<in> answers e msg. c_send (h_client h' i) = c_send (h_client h i) @ [d])) \<and>
    (h_broadcast h' = h_broadcast h \<or>
     cm_type msg = ''typing'' \<and> (\<exists>r. isSubscribed i r h \<and> active_member (w_db w) r (c_user (h_client h i)) \<and>
       h_broadcast h' = h_broadcast h @ [(r, frame e ServerMsgTyping (typing_data_json \<lparr>td_room = r, td_user = c_user (h_client h i)\<rparr>))]))"
proof -
  have typing: "answered e msg i h (snd (handleTyping e i msg (w, h))) \<and> (h_broadcast (snd (handleTyping e i msg (w, h))) = h_broadcast h \<or>
      (\<exists>r. isSubscribed i r h \<and> active_member (w_db w) r (c_user (h_client h i)) \<and>
       h_broadcast (snd (handleTyping e i msg (w, h))) = h_broadcast h @ [(r, frame e ServerMsgTyping (typing_data_json \<lparr>td_room = r, td_user = c_user (h_client h i)\<rparr>))]))"
  proof (cases "unmarshal typing_data_of msg")
    case (Some t)
    have t: "t\<lparr>td_user := c_user (h_client h i)\<rparr> = \<lparr>td_room = td_room t, td_user = c_user (h_client h i)\<rparr>" by simp
    show ?thesis
    proof (cases "RoomService_IsMember e (td_room t) (c_user (h_client h i)) w = Inr True \<and> isSubscribed i (td_room t) h \<and> td_room t \<noteq> []")
      case True
      then have "active_member (w_db w) (td_room t) (c_user (h_client h i))" using IsMember_True by (auto simp: RoomService_IsMember_def)
      moreover have "snd (handleTyping e i msg (w, h)) =
          enqueue (td_room t) (frame e ServerMsgTyping (typing_data_json \<lparr>td_room = td_room t, td_user = c_user (h_client h i)\<rparr>)) h"
        using Some True by (simp add: handleTyping_def t)
      moreover have "h_broadcast (enqueue r d h) = h_broadcast h \<or> h_broadcast (enqueue r d h) = h_broadcast h @ [(r, d)]" for r d
        by (simp add: enqueue_def)
      ultimately show ?thesis using True by (metis answered_moves(5))
    next
      case False
      then have "snd (handleTyping e i msg (w, h)) = h" using Some by (auto simp: handleTyping_def)
      then show ?thesis by simp
    qed
  qed (simp add: handleTyping_def)
  have "answered e msg i h h' \<and> (h_broadcast h' = h_broadcast h \<or>
     cm_type msg = ''typing'' \<and> (\<exists>r. isSubscribed i r h \<and> active_member (w_db w) r (c_user (h_client h i)) \<and>
       h_broadcast h' = h_broadcast h @ [(r, frame e ServerMsgTyping (typing_data_json \<lparr>td_room = r, td_user = c_user (h_client h i)\<rparr>))]))"
  proof (cases "client_type_of (cm_type msg) = Some ClientMsgTyping")
    case True
    then have "h' = snd (handleTyping e i msg (w, h))" using assms by (simp add: handleMessage_def)
    moreover have "cm_type msg = ''typing''" using True client_type_of_Some by fastforce
    ultimately show ?thesis using typing by simp
  next
    case False
    have "h' = snd (handleMessage ps e i data (w, h))" using assms(1) by simp
    moreover have "answered e msg i h (snd (handleMessage ps e i data (w, h))) \<and> h_broadcast (snd (handleMessage ps e i data (w, h))) = h_broadcast h"
    proof (cases "client_type_of (cm_type msg)")
      case None
      then show ?thesis by (simp add: handleMessage_def assms(2))
    next
      case (Some t)
      then show ?thesis using False by (cases t) (simp_all add: handleMessage_def assms(2) handlers_answer)
    qed
    ultimately show ?thesis by simp
  qed
  then show ?thesis by (simp add: answered_def only_own_def isSubscribed_def)
qed


section \<open>Examples\<close>

text \<open>\<open>bob\<close> claims that \<open>eve\<close> is typing.\<close>

definition typing_msg :: client_message where
  "typing_msg = \<lparr>cm_id = ''m3'', cm_type = ''typing'', cm_timestamp = 0,
     cm_data = Some (JObj [(''room_id'', JStr ''r1''), (''user_id'', JStr ''eve'')])\<rparr>"

lemma frames_act_for_their_sender_witness:
  "\<exists>h'. handleMessage None (quiet_env 0) ''b'' (Some (client_message_json typing_msg)) (sample_world, other_hub) = (sample_world, h') \<and>
     h_client h' ''a'' = h_client other_hub ''a'' \<and>
     h_broadcast h' = [(''r1'', frame (quiet_env 0) ServerMsgTyping (typing_data_json \<lparr>td_room = ''r1'', td_user = ''bob''\<rparr>))]"
proof -
  let ?d = "frame (quiet_env 0) ServerMsgTyping (typing_data_json \<lparr>td_room = ''r1'', td_user = ''bob''\<rparr>)"
  let ?h = "enqueue ''r1'' ?d other_hub"
  have "unmarshal typing_data_of typing_msg = Some \<lparr>td_room = ''r1'', td_user = ''eve''\<rparr>"
    by (simp add: unmarshal_def typing_msg_def typing_data_of_def json_fields)
  moreover have "client_type_of (cm_type typing_msg) = Some ClientMsgTyping"
    using client_type_roundtrip [of ClientMsgTyping] by (simp add: typing_msg_def)
  moreover have "RoomRepo_IsMember (quiet_env 0) ''r1'' ''bob'' sample_db = Inr True" by (rule sample_guards(2))
  ultimately have run: "handleMessage None (quiet_env 0) ''b'' (Some (client_message_json typing_msg)) (sample_world, other_hub) =
      (sample_world, ?h)"
    by (simp add: handleMessage_def client_message_roundtrip handleTyping_def RoomService_IsMember_def)
  have "(case Some (client_message_json typing_msg) of None \<Rightarrow> None | Some j \<Rightarrow> client_message_of_json j) = Some typing_msg"
    by (simp add: client_message_roundtrip)
  from frames_act_for_their_sender [OF run this]
  have "h_client ?h ''a'' = h_client other_hub ''a''" by (elim conjE) simp
  moreover have "h_broadcast ?h = [(''r1'', ?d)]" by (simp add: enqueue_def queueCap_def)
  ultimately show ?thesis using run by (intro exI [of _ ?h] conjI)
qed

end
