(* ===== verification/Delivery.thy ===== *)
theory Delivery
  imports Run_Loop Subscriptions
begin

text \<open>
  The goroutines between Redis and a connection together, as the loops they are: \<open>subscribeToRoomMessages\<close> puts what it
  takes into the channel of the hub, \<open>Run\<close> takes it from there and puts it into the channels of the
  subscribers, \<open>WritePump\<close> puts it on the wire. They run in any order; nothing is lost, doubled or made up.
\<close>

section \<open>Turns\<close>

text \<open>A turn of the room loop, of the loop of the hub, or of the writer of a connection.\<close>

datatype turn = RoomLoop loop_event | HubLoop run_event | Writer string write_event

fun take_turn :: "turn \<Rightarrow> loop_state \<times> hub \<Rightarrow> loop_state \<times> hub" where
  "take_turn (RoomLoop ev) sh = loop_turn (\<lambda>e c p ids. fanout_room e c p) ev sh"
| "take_turn (HubLoop ev) sh = (fst sh, Run [ev] (snd sh))"
| "take_turn (Writer i ev) sh = (fst sh, on_client i (WritePump [ev]) (snd sh))"

text \<open>
  The turns that deliver: the room loop takes a message, the hub takes one or goes on with the one it has, in any
  order of the range over the room, and a writer writes a frame that the connection takes.
\<close>

fun delivers :: "turn \<Rightarrow> bool" where
  "delivers (RoomLoop ev) = is_message ev"
| "delivers (HubLoop ev) = (case ev of Broadcasts ids \<Rightarrow> True | Delivers \<Rightarrow> True | _ \<Rightarrow> False)"
| "delivers (Writer i ev) = (ev = SendFrame True)"

text \<open>The frames that the messages of a turn ask for.\<close>

fun turn_frames :: "turn \<Rightarrow> (string \<times> json) list" where
  "turn_frames (RoomLoop ev) = event_frames ev"
| "turn_frames _ = []"

section \<open>What is on its way\<close>

text \<open>What the hub has taken for \<open>j\<close> and not yet put into the channel of \<open>j\<close>.\<close>

fun in_hand :: "string \<Rightarrow> hub_pc \<Rightarrow> json list" where
  "in_hand j (Delivering ids d) = (if j \<in> set ids then [d] else [])"
| "in_hand j (Sending i ids d) = (if j = i \<or> j \<in> set ids then [d] else [])"
| "in_hand j _ = []"

definition on_the_way :: "string \<Rightarrow> hub \<Rightarrow> json list" where
  "on_the_way j h = c_send (h_client h j) @ in_hand j (h_pc h) @ frames_for j h (h_broadcast h)"

text \<open>The hub delivers each message to a connection once; who is about to get a frame is open.\<close>

fun orderly :: "hub_pc \<Rightarrow> hub \<Rightarrow> bool" where
  "orderly Waiting h = True"
| "orderly (Delivering ids d) h = distinct ids"
| "orderly (Sending i ids d) h = (i \<notin> set ids \<and> distinct ids \<and> \<not> isClosed (h_client h i))"
| "orderly Stopped h = False"

text \<open>\<open>j\<close> is registered, open and running, with space for all that is on its way and \<open>n\<close> frames more.\<close>

definition expects :: "nat \<Rightarrow> string \<Rightarrow> hub \<Rightarrow> bool" where
  "expects n j h \<longleftrightarrow> \<not> h_panicked h \<and> orderly (h_pc h) h \<and> j \<in> h_clients h \<and> \<not> isClosed (h_client h j) \<and>
     c_writing (h_client h j) \<and> length (on_the_way j h) + n \<le> sendCap \<and> length (h_broadcast h) + n \<le> queueCap"

lemma frames_for_simps [simp]:
  "frames_for j h [] = []" "frames_for j h ((r, d) # q) = (if j \<in> ids_of (h_rooms h) r then [d] else []) @ frames_for j h q"
  "frames_for j h (p @ q) = frames_for j h p @ frames_for j h q"
  by (simp_all add: frames_for_def)

lemma frames_for_rooms: "(\<And>r. j \<in> ids_of (h_rooms g) r \<longleftrightarrow> j \<in> ids_of (h_rooms h) r) \<Longrightarrow> frames_for j g q = frames_for j h q"
  by (simp add: frames_for_def)

lemma frames_for_length: "length (frames_for j h q) \<le> length q"
  by (simp add: frames_for_def)

text \<open>Everything that \<open>j\<close> has been sent or is about to be sent, in order.\<close>

definition all_for :: "string \<Rightarrow> hub \<Rightarrow> json list" where
  "all_for j h = c_wire (h_client h j) @ on_the_way j h"

section \<open>Every turn keeps it\<close>

lemma enqueue_expects:
  assumes "expects (Suc n) j h"
  shows "expects n j (enqueue r d h)" "all_for j (enqueue r d h) = all_for j h @ frames_for j h [(r, d)]"
    "h_rooms (enqueue r d h) = h_rooms h"
proof -
  have h: "enqueue r d h = h\<lparr>h_broadcast := h_broadcast h @ [(r, d)]\<rparr>" using assms by (simp add: enqueue_def expects_def)
  have same: "frames_for j (h\<lparr>h_broadcast := q'\<rparr>) q = frames_for j h q" for q q' by (simp add: frames_for_def)
  have ord: "orderly pc (h\<lparr>h_broadcast := q'\<rparr>) = orderly pc h" for pc q' by (cases pc) simp_all
  show "expects n j (enqueue r d h)" using assms by (simp add: h expects_def on_the_way_def same ord)
  show "all_for j (enqueue r d h) = all_for j h @ frames_for j h [(r, d)]"
    by (simp add: h all_for_def on_the_way_def same)
  show "h_rooms (enqueue r d h) = h_rooms h" by (simp add: h)
qed

lemma enqueue_many:
  "expects (length q + n) j h \<Longrightarrow> expects n j (fold (\<lambda>(r, d). enqueue r d) q h) \<and>
    all_for j (fold (\<lambda>(r, d). enqueue r d) q h) = all_for j h @ frames_for j h q \<and>
    h_rooms (fold (\<lambda>(r, d). enqueue r d) q h) = h_rooms h"
proof (induction q arbitrary: h)
  case (Cons x q)
  obtain r d where x: "x = (r, d)" by (rule prod.exhaust)
  have 1: "expects (length q + n) j (enqueue r d h)" "all_for j (enqueue r d h) = all_for j h @ frames_for j h [(r, d)]"
      "h_rooms (enqueue r d h) = h_rooms h"
    using enqueue_expects [of "length q + n" j h r d] Cons.prems by simp_all
  then show ?case using Cons.IH [OF 1(1)] frames_for_rooms [of j "enqueue r d h" h q] by (simp add: x)
qed simp

text \<open>A turn of the loop of the hub.\<close>

lemma hub_turn_expects:
  assumes "expects n j h" "delivers (HubLoop ev)"
  shows "expects n j (Run [ev] h) \<and> all_for j (Run [ev] h) = all_for j h \<and>
    (\<forall>r. j \<in> ids_of (h_rooms (Run [ev] h)) r \<longleftrightarrow> j \<in> ids_of (h_rooms h) r)"
proof (cases "can_run ev h")
  case False
  then show ?thesis using assms(1) by simp
next
  case True
  have live: "\<not> h_panicked h" using assms(1) by (simp add: expects_def)
  have run: "Run [ev] h = Run_turn ev h" using True live by simp
  consider (take) ids where "ev = Broadcasts ids" | (step) "ev = Delivers" using assms(2) by (cases ev) auto
  then show ?thesis
  proof cases
    case take
    obtain r d q where q: "h_broadcast h = (r, d) # q" using True take by (cases "h_broadcast h") auto
    let ?h = "h\<lparr>h_broadcast := q, h_pc := Delivering ids d\<rparr>"
    have h: "Run [ev] h = ?h" unfolding run using q take by simp
    have ids: "h_pc h = Waiting" "distinct ids" "set ids = ids_of (h_rooms h) r" using True take q by auto
    have "on_the_way j ?h = on_the_way j h" using frames_for_rooms [of j ?h h q] by (simp add: on_the_way_def q ids)
    then show ?thesis unfolding h using assms(1) by (simp add: expects_def all_for_def ids(2) q)
  next
    case step
    show ?thesis
    proof (cases "h_pc h")
      case (Delivering ids d)
      show ?thesis
      proof (cases ids)
        case Nil
        let ?h = "h\<lparr>h_pc := Waiting\<rparr>"
        have h: "Run [ev] h = ?h" unfolding run using Nil step Delivering by simp
        have "on_the_way j ?h = on_the_way j h" using frames_for_rooms [of j ?h h] by (simp add: on_the_way_def Delivering Nil)
        then show ?thesis unfolding h using assms(1) by (simp add: expects_def all_for_def)
      next
        case (Cons i js)
        let ?pc = "if deliver_check i h then Sending i js d else Delivering js d"
        let ?h = "h\<lparr>h_pc := ?pc\<rparr>"
        have h: "Run [ev] h = ?h" unfolding run using Cons step Delivering by simp
        have "j = i \<Longrightarrow> deliver_check i h" using assms(1) by (simp add: deliver_check_def expects_def)
        then have "in_hand j ?pc = in_hand j (h_pc h)" by (auto simp: Delivering Cons)
        then have "on_the_way j ?h = on_the_way j h" using frames_for_rooms [of j ?h h] by (simp add: on_the_way_def)
        moreover have "orderly ?pc ?h" using assms(1) by (auto simp: expects_def Delivering Cons deliver_check_def)
        ultimately show ?thesis unfolding h using assms(1) by (simp add: expects_def all_for_def)
      qed
    next
      case (Sending i ids d)
      let ?h = "(deliver_send i d h)\<lparr>h_pc := Delivering ids d\<rparr>"
      have h: "Run [ev] h = ?h" unfolding run using step Sending by simp
      have open_i: "\<not> isClosed (h_client h i)" "i \<notin> set ids" "distinct ids" using assms(1) by (auto simp: expects_def Sending)
      show ?thesis
      proof (cases "length (c_send (h_client h i)) < sendCap")
        case True
        then have d: "deliver_send i d h = on_client i (push d) h" using open_i by (simp add: deliver_send_def isClosed_def)
        have "on_the_way j ?h = on_the_way j h"
          using open_i(2) frames_for_rooms [of j ?h h] by (auto simp: on_the_way_def Sending d push_def)
        moreover have "isClosed (h_client ?h j) = isClosed (h_client h j)" "c_writing (h_client ?h j) = c_writing (h_client h j)"
            "c_wire (h_client ?h j) = c_wire (h_client h j)"
          by (auto simp: d push_def isClosed_def)
        ultimately show ?thesis unfolding h using assms(1) open_i(3) by (simp add: expects_def all_for_def d)
      next
        case False
        have "j \<noteq> i"
        proof
          assume "j = i"
          then have "length (on_the_way j h) \<ge> Suc (length (c_send (h_client h i)))" by (simp add: on_the_way_def Sending)
          then show False using False assms(1) by (simp add: expects_def)
        qed
        have d: "deliver_send i d h = remove_slow i h" using False open_i by (simp add: deliver_send_def isClosed_def)
        have rooms: "j \<in> ids_of (h_rooms ?h) r \<longleftrightarrow> j \<in> ids_of (h_rooms h) r" for r
          using ids_of_remove_slow [OF \<open>j \<noteq> i\<close>] by (simp add: d)
        have c: "h_client ?h j = h_client h j" "j \<in> h_clients ?h \<longleftrightarrow> j \<in> h_clients h" "h_panicked ?h = h_panicked h" "h_broadcast ?h = h_broadcast h"
          using \<open>j \<noteq> i\<close> by (simp_all add: d remove_slow_def dec_gauges_def drop_client_simps split_beta)
        have "on_the_way j ?h = on_the_way j h"
          using \<open>j \<noteq> i\<close> frames_for_rooms [of j ?h h, OF rooms] c by (simp add: on_the_way_def Sending)
        then show ?thesis unfolding h using assms(1) open_i(3) rooms c by (simp add: expects_def all_for_def)
      qed
    qed (use True step in simp_all)
  qed
qed

text \<open>A turn of a writer.\<close>

lemma writer_turn_expects:
  assumes "expects n j h" "delivers (Writer i ev)"
  shows "expects n j (on_client i (WritePump [ev]) h) \<and> all_for j (on_client i (WritePump [ev]) h) = all_for j h \<and>
    h_rooms (on_client i (WritePump [ev]) h) = h_rooms h"
proof -
  let ?c = "h_client h i" and ?h = "on_client i (WritePump [ev]) h"
  have ev: "ev = SendFrame True" using assms(2) by simp
  have same: "isClosed (WritePump [ev] c) = isClosed c" "c_wire (WritePump [ev] c) @ c_send (WritePump [ev] c) = c_wire c @ c_send c"
      "c_writing (WritePump [ev] c) = c_writing c" "length (c_send (WritePump [ev] c)) \<le> length (c_send c)" for c
    by (cases "c_send c"; simp add: ev isClosed_def)+
  have rest: "frames_for j ?h q = frames_for j h q" for q by (simp add: frames_for_def)
  have "all_for j ?h = all_for j h"
    using same(2) [of ?c] by (auto simp: all_for_def on_the_way_def rest simp del: WritePump.simps)
  moreover have "length (on_the_way j ?h) \<le> length (on_the_way j h)"
    using same(4) [of ?c] by (simp add: on_the_way_def rest fun_upd_def del: WritePump.simps)
  moreover have "orderly (h_pc h) ?h = orderly (h_pc h) h"
    using same(1) by (cases "h_pc h") (simp_all add: fun_upd_def del: WritePump.simps)
  moreover have "isClosed (h_client ?h j) = isClosed (h_client h j)" "c_writing (h_client ?h j) = c_writing (h_client h j)"
    using same(1,3) by (simp_all add: fun_upd_def del: WritePump.simps)
  ultimately show ?thesis using assms(1) by (simp add: expects_def del: WritePump.simps)
qed

lemma turn_ok: "hub_ok h \<Longrightarrow> hub_ok (snd (take_turn t (s, h)))"
proof (cases t)
  case (RoomLoop ev)
  have "hub_ok (enqueue r d g) = hub_ok g" for r d g by (simp add: enqueue_def hub_oks subscriptions_def)
  then have "hub_ok (fold (\<lambda>(r, d). enqueue r d) q g) = hub_ok g" for q g by (induction q arbitrary: g) auto
  then show "hub_ok h \<Longrightarrow> ?thesis" using RoomLoop by (cases ev; cases s) (simp_all add: fanout_routed)
next
  case (HubLoop ev)
  then show "hub_ok h \<Longrightarrow> ?thesis" using run_invariant [OF Run_steps, of hub_ok h "[ev]"] hub_step_ok by (simp del: Run.simps)
next
  case (Writer i ev)
  assume "hub_ok h"
  let ?g = "h\<lparr>h_panicked := False\<rparr>"
  have "hub_ok (on_client i (WritePump [ev]) ?g)"
    using run_invariant [OF WritePump_steps, of ?g hub_ok i "[ev]"] \<open>hub_ok h\<close> hub_step_ok by (simp del: WritePump.simps)
  moreover have "on_client i (WritePump [ev]) h = (on_client i (WritePump [ev]) ?g)\<lparr>h_panicked := h_panicked h\<rparr>"
    by (simp add: on_client_def)
  ultimately have "hub_ok (on_client i (WritePump [ev]) h)" by (metis pc_ok(2))
  then show ?thesis using Writer by (simp del: WritePump.simps)
qed

text \<open>Any turn.\<close>

lemma turn_expects:
  assumes "expects (length (turn_frames t) + n) j h" "delivers t" "take_turn t (Listening, h) = (s, h')"
  shows "s = Listening \<and> expects n j h' \<and> all_for j h' = all_for j h @ frames_for j h (turn_frames t) \<and>
    (\<forall>r. j \<in> ids_of (h_rooms h') r \<longleftrightarrow> j \<in> ids_of (h_rooms h) r)"
proof (cases t)
  case (RoomLoop ev)
  then obtain e c p ids where ev: "ev = Message e c p ids" using assms(2) by (cases ev) (auto simp: is_message_def)
  then have "(s, h') = (Listening, fold (\<lambda>(r, d). enqueue r d) (turn_frames t) h)"
    using assms(3) RoomLoop by (simp add: fanout_routed)
  then show ?thesis using enqueue_many [OF assms(1)] by simp
next
  case (HubLoop ev)
  then show ?thesis using hub_turn_expects [of n j h ev] assms by (simp del: Run.simps)
next
  case (Writer i ev)
  then show ?thesis using writer_turn_expects [of n j h i ev] assms by (auto simp del: WritePump.simps)
qed

lemma turns_expect:
  assumes "expects (length (concat (map turn_frames ts)) + n) j h" "list_all delivers ts" "fold take_turn ts (Listening, h) = (s, h')"
  shows "s = Listening \<and> expects n j h' \<and> all_for j h' = all_for j h @ frames_for j h (concat (map turn_frames ts))"
  using assms
proof (induction ts arbitrary: h)
  case (Cons t ts)
  obtain s1 h1 where t: "take_turn t (Listening, h) = (s1, h1)" by (rule prod.exhaust)
  have 1: "expects (length (turn_frames t) + (length (concat (map turn_frames ts)) + n)) j h" using Cons.prems(1) by (simp add: add.assoc)
  note first = turn_expects [OF 1 _ t]
  then have "s1 = Listening" "expects (length (concat (map turn_frames ts)) + n) j h1"
      "all_for j h1 = all_for j h @ frames_for j h (turn_frames t)" "frames_for j h1 q = frames_for j h q" for q
    using Cons.prems(2) frames_for_rooms [of j h1 h q] by simp_all
  then show ?case using Cons.IH [of h1] Cons.prems(2,3) t by simp
qed simp

lemma no_frames [simp]: "concat (map (\<lambda>x. []) xs) = []" "concat (map (turn_frames \<circ> HubLoop) evs) = []"
    "concat (map (turn_frames \<circ> Writer i) ws) = []"
  by (simp_all add: comp_def)

section \<open>The way can be finished\<close>

text \<open>The turns that deliver all that is queued, and write all of it for \<open>j\<close>.\<close>

lemma Run_append: "Run (evs @ evs') h = Run evs' (Run evs h)"
proof (induction evs arbitrary: h)
  case (Cons ev evs)
  then show ?case by (cases evs') simp_all
qed simp

lemma hub_turns: "fold take_turn (map HubLoop evs) (s, h) = (s, Run evs h)"
proof (induction evs arbitrary: h)
  case (Cons ev evs)
  then show ?case using Run_append [of "[ev]" evs h] by (simp del: Run.simps)
qed simp

lemma writer_turns: "fold take_turn (map (Writer i) evs) (s, h) = (s, on_client i (WritePump evs) h)"
proof (induction evs arbitrary: h)
  case Nil
  then show ?case by (simp add: on_client_id)
next
  case (Cons ev evs)
  have "WritePump (ev # evs) c = WritePump evs (WritePump [ev] c)" for c by (cases evs) simp_all
  then show ?case using Cons by (simp add: on_client_twice del: WritePump.simps)
qed

text \<open>A message in hand is delivered.\<close>

lemma orderly_deliver: "distinct ids \<Longrightarrow> orderly (Delivering ids d) h" by simp

lemma hand_empties:
  assumes "expects n j h"
  shows "\<exists>k. h_pc (Run (replicate k Delivers) h) = Waiting \<and> h_broadcast (Run (replicate k Delivers) h) = h_broadcast h"
proof -
  have del: "\<exists>k. h_pc (Run (replicate k Delivers) g) = Waiting \<and> h_broadcast (Run (replicate k Delivers) g) = h_broadcast g"
    if "h_pc g = Delivering ids d" "distinct ids" "\<not> h_panicked g" for g ids d
  proof -
    have "\<not> h_panicked (broadcastMessage ids d g)"
      using broadcast_outcome [where d = d and h = g, OF that(2)] that(3) by simp
    from Run_delivers [OF that(1) this, of "Suc (2 * length ids)"] show ?thesis
      by (intro exI [of _ "Suc (2 * length ids)"]) (simp add: broadcast_queue del: replicate.simps)
  qed
  show ?thesis
  proof (cases "h_pc h")
    case Waiting
    then show ?thesis by (intro exI [of _ 0]) simp
  next
    case (Delivering ids d)
    then show ?thesis using del [of h ids d] assms by (simp add: expects_def)
  next
    case (Sending i ids d)
    let ?h = "(deliver_send i d h)\<lparr>h_pc := Delivering ids d\<rparr>"
    have h: "Run [Delivers] h = ?h" using Sending assms by (simp add: expects_def)
    have "\<not> h_panicked ?h" "distinct ids" using hub_turn_expects [OF assms, of Delivers] assms Sending unfolding h by (auto simp: expects_def)
    then obtain k where k: "h_pc (Run (replicate k Delivers) ?h) = Waiting" "h_broadcast (Run (replicate k Delivers) ?h) = h_broadcast ?h"
      using del [of ?h ids d] by auto
    have "Run (replicate (Suc k) Delivers) h = Run (replicate k Delivers) ?h"
      using Run_append [of "[Delivers]" "replicate k Delivers" h] h by (simp del: Run.simps)
    moreover have "h_broadcast ?h = h_broadcast h"
      by (simp add: deliver_send_def remove_slow_def dec_gauges_def drop_client_simps split_beta)
    ultimately show ?thesis using k by (intro exI [of _ "Suc k"]) (simp del: replicate.simps)
  next
    case Stopped
    then show ?thesis using assms by (simp add: expects_def)
  qed
qed

lemma queue_empties:
  assumes "hub_ok h" "expects 0 j h" "h_broadcast h = q"
  shows "\<exists>evs. list_all (\<lambda>ev. delivers (HubLoop ev)) evs \<and> h_pc (Run evs h) = Waiting \<and> h_broadcast (Run evs h) = []"
  using assms
proof (induction q arbitrary: h)
  case Nil
  obtain k where "h_pc (Run (replicate k Delivers) h) = Waiting" "h_broadcast (Run (replicate k Delivers) h) = []"
    using hand_empties [OF Nil(2)] Nil(3) by auto
  then show ?case by (intro exI [of _ "replicate k Delivers"]) (simp add: list_all_iff)
next
  case (Cons x q)
  obtain k where k: "h_pc (Run (replicate k Delivers) h) = Waiting" "h_broadcast (Run (replicate k Delivers) h) = x # q"
    using hand_empties [OF Cons.prems(2)] Cons.prems(3) by auto
  let ?g = "Run (replicate k Delivers) h"
  have kept: "expects 0 j (Run evs g)" if "expects 0 j g" "list_all (\<lambda>ev. delivers (HubLoop ev)) evs" for evs g
    using turns_expect [of "map HubLoop evs" 0 j g Listening] that by (simp add: hub_turns list_all_iff comp_def)
  have ok: "hub_ok (Run evs g)" if "hub_ok g" for evs g
    using run_invariant [OF Run_steps, of hub_ok g] that hub_step_ok by blast
  have g: "expects 0 j ?g" "hub_ok ?g" using kept [OF Cons.prems(2)] ok [OF Cons.prems(1)] by (simp_all add: list_all_iff)
  obtain r d where x: "x = (r, d)" by (rule prod.exhaust)
  have "ids_of (h_rooms ?g) r \<subseteq> h_made ?g" "finite (h_made ?g)" using g(2) by (auto simp: hub_oks)
  then obtain ids where ids: "set ids = ids_of (h_rooms ?g) r" "distinct ids"
    using finite_distinct_list [OF finite_subset] by blast
  let ?g1 = "Run [Broadcasts ids] ?g"
  have g1: "h_broadcast ?g1 = q" using g(1) k ids by (simp add: x expects_def)
  have more: "expects 0 j ?g1" "hub_ok ?g1"
    using kept [OF g(1), of "[Broadcasts ids]"] ok [OF g(2), of "[Broadcasts ids]"] by (simp_all del: Run.simps)
  obtain evs where "list_all (\<lambda>ev. delivers (HubLoop ev)) evs" "h_pc (Run evs ?g1) = Waiting" "h_broadcast (Run evs ?g1) = []"
    using Cons.IH [OF more(2,1) g1] by blast
  moreover have "Run (replicate k Delivers @ [Broadcasts ids] @ evs) h = Run evs ?g1" by (simp only: Run_append)
  ultimately show ?case
    by (intro exI [of _ "replicate k Delivers @ [Broadcasts ids] @ evs"]) (auto simp: list_all_iff simp del: Run.simps append_Cons)
qed

lemma way_finishes:
  assumes "hub_ok h" "expects 0 j h"
  shows "\<exists>ts. list_all delivers ts \<and> concat (map turn_frames ts) = [] \<and>
    c_wire (h_client (snd (fold take_turn ts (s, h))) j) = all_for j h"
proof -
  obtain evs where evs: "list_all (\<lambda>ev. delivers (HubLoop ev)) evs" "h_pc (Run evs h) = Waiting" "h_broadcast (Run evs h) = []"
    using queue_empties [OF assms refl] by blast
  let ?g = "Run evs h"
  have g: "expects 0 j ?g" "all_for j ?g = all_for j h"
    using turns_expect [of "map HubLoop evs" 0 j h Listening] assms(2) evs(1) by (simp_all add: hub_turns list_all_iff comp_def)
  let ?ws = "replicate (length (c_send (h_client ?g j))) (SendFrame True)"
  let ?ts = "map HubLoop evs @ map (Writer j) ?ws"
  have "snd (fold take_turn ?ts (s, h)) = on_client j (WritePump ?ws) ?g"
    unfolding fold_append o_apply hub_turns writer_turns by (rule snd_conv)
  moreover have "c_wire (WritePump ?ws (h_client ?g j)) = all_for j ?g"
    using writes_all [of "h_client ?g j"] g(1) by (simp add: expects_def all_for_def on_the_way_def evs)
  moreover have "list_all delivers ?ts" using evs(1) by (auto simp: list_all_iff)
  ultimately show ?thesis using g(2) by (intro exI [of _ ?ts]) simp
qed


text \<open>
  C6. Messages from Redis reach the connections in their order, whatever the interleaving: while the room loop takes
  messages, no more than the channel of an idle hub holds, the hub delivers in any order of its ranges, and the
  writers write, at every moment what is on the wire of a registered open connection with space, and what is on
  its way to it, are together what was there before and then the frames of its rooms, in the order of Redis, each
  once; and from every such moment the hub and the writer can bring all of it onto the wire.
\<close>

theorem deliveries_reach_the_wire:
  assumes "hub_reachable h" "\<not> h_panicked h" "h_pc h = Waiting" "h_broadcast h = []"
    and "list_all delivers ts" "length (concat (map turn_frames ts)) \<le> queueCap"
    and "has_room_for (length (concat (map turn_frames ts))) j h" "c_writing (h_client h j)"
    and "fold take_turn ts (Listening, h) = (s, h')"
  shows "s = Listening \<and>
    c_wire (h_client h' j) @ c_send (h_client h' j) @ in_hand j (h_pc h') @ frames_for j h' (h_broadcast h') =
      c_wire (h_client h j) @ c_send (h_client h j) @ frames_for j h (concat (map turn_frames ts)) \<and>
    (\<exists>ts'. list_all delivers ts' \<and> concat (map turn_frames ts') = [] \<and>
      c_wire (h_client (snd (fold take_turn ts' (s, h'))) j) =
        c_wire (h_client h j) @ c_send (h_client h j) @ frames_for j h (concat (map turn_frames ts)))"
proof -
  let ?q = "concat (map turn_frames ts)"
  have "expects (length ?q + 0) j h"
    using assms(2-4,6-8) by (simp add: expects_def has_room_for_def on_the_way_def)
  note moved = turns_expect [OF this assms(5,9)]
  have start: "all_for j h = c_wire (h_client h j) @ c_send (h_client h j)" using assms(3,4) by (simp add: all_for_def on_the_way_def)
  have ok: "hub_ok h" using assms(1) run_invariant [of NewHub h hub_ok] hub_step_ok NewHub_ok by (auto simp: hub_reachable_def)
  have "hub_ok (snd (fold take_turn ts (s0, h0)))" if "hub_ok h0" for s0 h0
    using that turn_ok by (induction ts arbitrary: s0 h0) (simp, metis fold_simps(2) prod.collapse)
  then have "hub_ok h'" using assms(9) ok by (metis snd_conv)
  from way_finishes [OF this, of j s] show ?thesis
    using moved by (simp add: start) (simp add: all_for_def on_the_way_def)
qed


section \<open>From a frame to the subscribers\<close>

text \<open>
  C1. A chat frame that is stored reaches the members: the message is that of the user of the connection, who is
  an active member and has subscribed, with the cleaned content; it is published once and acknowledged, and on
  every server with an idle hub, when its room loop has taken what Redis delivers and its hub has finished the
  delivery (two turns for each connection of the room at most, and one to end), in whatever order the range over
  the room meets them, exactly the open subscribers of the room that have space have got the frame with the message,
  once and behind what they had, and nobody else has got anything.
\<close>

theorem chat_reaches_subscribers:
  assumes "handleChatMessage (Some api) e i msg (w, h) = (w', h')" "unmarshal message_data_of msg = Some data"
    and "no_faults e" "t_messages (w_db w') \<noteq> t_messages (w_db w)" "CHR '':'' \<notin> set (md_room data)"
  shows "\<exists>m. m_user_id m = c_user (h_client h i) \<and> m_content m = clean_content (md_content data) \<and>
    active_member (w_db w) (md_room data) (m_user_id m) \<and> isSubscribed i (md_room data) h \<and>
    t_messages (w_db w') = t_messages (w_db w) @ [message_row m] \<and>
    published (w_bus w') = published (w_bus w) @ [(''ws:room:'' @ md_room data, new_message_event m)] \<and>
    h' = sendAck e i (cm_id msg) (m_id m) ''delivered'' h \<and>
    (\<forall>g g' e' xs ids n. \<not> h_panicked g \<and> h_pc g = Waiting \<and> h_broadcast g = [] \<and>
        distinct ids \<and> set ids = ids_of (h_rooms g) (md_room data) \<and> 2 * length ids < n \<and>
        g' = Run (Broadcasts ids # replicate n Delivers)
          (snd (subscribeToRoomMessages [Subscribed, Message e' (''ws:room:'' @ md_room data) (Some (new_message_event m)) xs] g)) \<longrightarrow>
      h_pc g' = Waiting \<and> h_broadcast g' = [] \<and> \<not> h_panicked g' \<and>
      (\<forall>j. c_send (h_client g' j) = c_send (h_client g j) @
        (if j \<in> ids_of (h_rooms g) (md_room data) \<and> receives j g
         then [frame e' ServerMsgNewMessage (new_message_event m)] else [])))"
proof -
  obtain m where m: "m_user_id m = c_user (h_client h i)" "m_room_id m = md_room data" "m_content m = clean_content (md_content data)"
    "active_member (w_db w) (md_room data) (m_user_id m)" "isSubscribed i (md_room data) h" "md_room data \<noteq> []"
    "t_messages (w_db w') = t_messages (w_db w) @ [message_row m]"
    "published (w_bus w') = published (w_bus w) @ [(''ws:room:'' @ md_room data, new_message_event m)]"
    "h' = sendAck e i (cm_id msg) (m_id m) ''delivered'' h"
    using chat_is_stored [OF assms(1-4)] by blast
  have "h_pc g' = Waiting \<and> h_broadcast g' = [] \<and> \<not> h_panicked g' \<and>
      (\<forall>j. c_send (h_client g' j) = c_send (h_client g j) @
        (if j \<in> ids_of (h_rooms g) (md_room data) \<and> receives j g then [frame e' ServerMsgNewMessage (new_message_event m)] else []))"
    if g: "\<not> h_panicked g" "h_pc g = Waiting" "h_broadcast g = []" "distinct ids" "set ids = ids_of (h_rooms g) (md_room data)"
        "2 * length ids < n"
      and g': "g' = Run (Broadcasts ids # replicate n Delivers)
          (snd (subscribeToRoomMessages [Subscribed, Message e' (''ws:room:'' @ md_room data) (Some (new_message_event m)) xs] g))"
    for g g' e' xs ids n
  proof -
    let ?d = "frame e' ServerMsgNewMessage (new_message_event m)"
    note out = broadcast_outcome [where d = ?d and h = g, OF g(4)]
    have taken: "snd (subscribeToRoomMessages [Subscribed, Message e' (''ws:room:'' @ md_room data) (Some (new_message_event m)) xs] g) =
        g\<lparr>h_broadcast := [(md_room data, ?d)]\<rparr>"
      using new_message_frame [OF assms(5) m(6,2)] g(3)
      by (simp add: subscribeToRoomMessages_def subscription_loop_def enqueue_def queueCap_def)
    have idle: "g\<lparr>h_broadcast := [(md_room data, ?d)]\<rparr>\<lparr>h_broadcast := []\<rparr> = g" using g(3) by simp
    have "g' = (broadcastMessage ids ?d g)\<lparr>h_pc := Waiting\<rparr>"
      unfolding g' taken using Run_delivers_queued [of "g\<lparr>h_broadcast := [(md_room data, ?d)]\<rparr>" "md_room data" ?d "[]" ids n, unfolded idle] out g(1,2,4,5,6)
      by (simp del: Run.simps)
    then show ?thesis using out g by (simp add: broadcast_queue)
  qed
  then show ?thesis using m by (intro exI [of _ m] conjI allI impI) (assumption | blast)+
qed

section \<open>Examples\<close>

lemma chat_reaches_subscribers_witness:
  "\<exists>w' m. handleChatMessage (Some ref_api) (quiet_env 0) ''b'' chat_msg (sample_world, other_hub) =
      (w', sendAck (quiet_env 0) ''b'' ''m2'' (m_id m) ''delivered'' other_hub) \<and> m_content m = ''hi'' \<and>
    published (w_bus w') = [(''ws:room:r1'', new_message_event m)] \<and>
    c_send (h_client (Run (Broadcasts [''b''] # replicate 3 Delivers)
        (snd (subscribeToRoomMessages [Subscribed, Message (quiet_env 9) ''ws:room:r1'' (Some (new_message_event m)) []] other_hub))) ''b'') =
      [frame (quiet_env 9) ServerMsgNewMessage (new_message_event m)]"
proof -
  have "chat_input \<lparr>md_room = ''r1'', md_content = ''hi'', md_client = [], md_parent = None\<rparr> ''bob'' = hello []"
    by (simp add: chat_input_def hello_def)
  then obtain w' h' where run: "handleChatMessage (Some ref_api) (quiet_env 0) ''b'' chat_msg (sample_world, other_hub) = (w', h')"
      and stored: "t_messages (w_db w') \<noteq> t_messages (w_db sample_world)"
    by (simp add: handleChatMessage_def chat_msg_data RoomService_IsMember_def SendMessage_def hello_sent)
      (simp add: sample_defs)
  let ?data = "\<lparr>md_room = ''r1'', md_content = ''hi'', md_client = [], md_parent = None\<rparr>"
  let ?take = "\<lambda>m. snd (subscribeToRoomMessages [Subscribed, Message (quiet_env 9) (''ws:room:'' @ md_room ?data) (Some (new_message_event m)) []] other_hub)"
  obtain m where m: "m_content m = clean_content (md_content ?data)" "h' = sendAck (quiet_env 0) ''b'' (cm_id chat_msg) (m_id m) ''delivered'' other_hub"
    "published (w_bus w') = published (w_bus sample_world) @ [(''ws:room:'' @ md_room ?data, new_message_event m)]"
    "c_send (h_client (Run (Broadcasts [''b''] # replicate 3 Delivers) (?take m)) ''b'') =
      c_send (h_client other_hub ''b'') @ (if ''b'' \<in> ids_of (h_rooms other_hub) (md_room ?data) \<and> receives ''b'' other_hub
         then [frame (quiet_env 9) ServerMsgNewMessage (new_message_event m)] else [])"
    using chat_reaches_subscribers [OF run chat_msg_data _ stored] by (force simp del: Run.simps replicate.simps simp: numeral_3_eq_3)
  then show ?thesis using run by (intro exI [of _ w'] exI [of _ m]) (simp add: chat_msg_def clean_hi del: Run.simps replicate.simps)
qed

lemma deliveries_reach_the_wire_witness:
  "\<exists>h' ts'. fold take_turn [RoomLoop (Message (quiet_env 9) ''ws:room:r1'' (Some (new_message_event (hello_message 0))) []), HubLoop (Broadcasts [''b''])]
        (Listening, other_hub) = (Listening, h') \<and>
     in_hand ''b'' (h_pc h') = [frame (quiet_env 9) ServerMsgNewMessage (new_message_event (hello_message 0))] \<and>
     c_wire (h_client (snd (fold take_turn ts' (Listening, h'))) ''b'') = [frame (quiet_env 9) ServerMsgNewMessage (new_message_event (hello_message 0))]"
proof -
  let ?ts = "[RoomLoop (Message (quiet_env 9) ''ws:room:r1'' (Some (new_message_event (hello_message 0))) []), HubLoop (Broadcasts [''b''])]"
  let ?d = "frame (quiet_env 9) ServerMsgNewMessage (new_message_event (hello_message 0))"
  obtain s h' where run: "fold take_turn ?ts (Listening, other_hub) = (s, h')" by (rule prod.exhaust)
  have b: "has_room_for (length (concat (map turn_frames ?ts))) ''b'' other_hub" "c_writing (h_client other_hub ''b'')"
      "c_wire (h_client other_hub ''b'') = []"
    using other_hub_simps(3,8)
    by (simp_all add: has_room_for_def receives_def hello_routed sendCap_def)
      (simp_all add: other_hub_def Hub_SubscribeToRoom_def bob_defs)
  have m: "list_all delivers ?ts" "length (concat (map turn_frames ?ts)) \<le> queueCap"
    by (simp_all add: is_message_def hello_routed queueCap_def)
  have "in_hand ''b'' (h_pc h') = [?d]" using run by (auto simp: fanout_routed hello_routed enqueue_def queueCap_def)
  with deliveries_reach_the_wire [OF other_hub_reachable other_hub_simps(7,5,6) m b(1,2) run] run show ?thesis
    by (auto simp: b(3) frames_for_def hello_routed simp del: fold_simps)
qed

end
