(* ===== verification/Handshake.thy ===== *)
theory Handshake
  imports Server_Properties
begin

text \<open>
  \<open>handleWebSocket\<close> of \<open>internal/server/server.go\<close> cut at the points where other goroutines see what it does: the
  addition to the counter of the address with its comparison, the check of the token, the rate limit, the upgrade
  with the registration, and the subtraction that gives a slot back. Any number of handshakes interleave with one
  another and with the rest of the server, and the limit of connections of an address holds for all of them.
\<close>

section \<open>Stages\<close>

text \<open>What a handshake is about to do; \<open>Leaving\<close> has its refusal and still owns its slot.\<close>

datatype stage = Arrived | Counted | Identified string | Admitted string | Leaving ws_response | Answered ws_response

definition counted_ip :: "'r server_deps \<Rightarrow> ws_request \<Rightarrow> string option" where
  "counted_ip s r = (if 0 < MaxPerIP s then Some (getClientIP (RemoteAddr r)) else None)"

fun handshake_turn :: "'r server_deps \<Rightarrow> env \<Rightarrow> ws_request \<Rightarrow> stage \<Rightarrow> 'r node \<Rightarrow> stage \<times> 'r node" where
  "handshake_turn s e r Arrived n =
     ((case counted_ip s r of
         None \<Rightarrow> Counted
       | Some a \<Rightarrow> (if over_limit s a n then Leaving (Refused 429 ''Too many connections from this IP'') else Counted)),
      bump (counted_ip s r) 1 n)"
| "handshake_turn s e r Counted n =
     ((if request_token r = [] then Leaving (Refused 401 ''Unauthorized'')
       else case ValidateToken (sd_auth s) e (request_token r) (n_world n) of
         Inl _ \<Rightarrow> Leaving (Refused 401 ''Invalid token'')
       | Inr u \<Rightarrow> Identified (u_id u)), n)"
| "handshake_turn s e r (Identified u) n =
     (let (allowed, w) = rate_check s e u (n_world n) in
      (if allowed then Admitted u else Leaving (Refused 429 ''Too many connections''), n\<lparr>n_world := w\<rparr>))"
| "handshake_turn s e r (Admitted u) n =
     (if upgradable r \<and> CheckOrigin (getAllowedOrigins (sd_cfg s)) (Origin r)
      then (Answered Upgraded, n\<lparr>n_hub := add_client (conn_id r) u (counted_ip s r) (n_hub n)\<rparr>)
      else (Leaving UpgradeFailed, n))"
| "handshake_turn s e r (Leaving resp) n = (Answered resp, bump (counted_ip s r) (- 1) n)"
| "handshake_turn s e r (Answered resp) n = (Answered resp, n)"

definition handshake_turns :: "nat \<Rightarrow> 'r server_deps \<Rightarrow> env \<Rightarrow> ws_request \<Rightarrow> stage \<times> 'r node \<Rightarrow> stage \<times> 'r node" where
  "handshake_turns k s e r = (\<lambda>(st, n). handshake_turn s e r st n) ^^ k"

text \<open>With nobody else in between, the turns are the handshake of \<^const>\<open>server_step\<close>.\<close>

lemma turns_are_handleWebSocket:
  "handshake_turns 5 s e r (Arrived, n) = (case handleWebSocket s e r n of (resp, n') \<Rightarrow> (Answered resp, n'))"
proof -
  have 5: "(5::nat) = Suc (Suc (Suc (Suc (Suc 0))))" by simp
  show ?thesis
    unfolding handshake_turns_def 5
    by (auto simp: handleWebSocket_def counted_ip_def Let_def split_beta split: sum.split)
qed

section \<open>Many handshakes\<close>

text \<open>The node with the handshakes that are under way, by the connection they are to make.\<close>

record 'r busy =
  b_node :: "'r node"
  b_flights :: "string \<rightharpoonup> ws_request \<times> stage"

text \<open>
  A request comes while fewer than \<open>N\<close> are being handled, a handshake takes its next turn (and waits for space in
  the channel of new connections), its response is sent, or something else happens on the server that makes no
  connection.
\<close>

inductive busy_step :: "nat \<Rightarrow> 'r server_deps \<Rightarrow> 'r busy \<Rightarrow> 'r busy \<Rightarrow> bool" for N s where
  arrives: "conn_id r \<notin> h_made (n_hub (b_node b)) \<Longrightarrow> conn_id r \<notin> dom (b_flights b) \<Longrightarrow> card (dom (b_flights b)) < N \<Longrightarrow>
    busy_step N s b (b\<lparr>b_flights := (b_flights b)(conn_id r \<mapsto> (r, Arrived))\<rparr>)"
| proceeds: "b_flights b i = Some (r, st) \<Longrightarrow> (\<And>u. st = Admitted u \<Longrightarrow> length (h_register (n_hub (b_node b))) < queueCap) \<Longrightarrow>
    handshake_turn s e r st (b_node b) = (st', n') \<Longrightarrow>
    busy_step N s b (b\<lparr>b_node := n', b_flights := (b_flights b)(i \<mapsto> (r, st'))\<rparr>)"
| responds: "b_flights b i = Some (r, Answered resp) \<Longrightarrow>
    busy_step N s b (b\<lparr>b_flights := (b_flights b)(i := None)\<rparr>)"
| elsewhere: "server_step s (b_node b) n' \<Longrightarrow> h_made (n_hub n') = h_made (n_hub (b_node b)) \<Longrightarrow>
    busy_step N s b (b\<lparr>b_node := n'\<rparr>)"

definition busy_start :: "'r world \<Rightarrow> 'r busy" where
  "busy_start w = \<lparr>b_node = start_node w, b_flights = Map.empty\<rparr>"

definition busy_reachable :: "nat \<Rightarrow> 'r server_deps \<Rightarrow> 'r world \<Rightarrow> 'r busy \<Rightarrow> bool" where
  "busy_reachable N s w b \<longleftrightarrow> (busy_step N s)\<^sup>*\<^sup>* (busy_start w) b"

text \<open>The handshakes that have a slot of the address, and those of them that were not refused.\<close>

fun owns_slot :: "stage \<Rightarrow> bool" where
  "owns_slot Arrived = False"
| "owns_slot (Answered resp) = False"
| "owns_slot st = True"

fun passed :: "stage \<Rightarrow> bool" where
  "passed (Leaving resp) = False"
| "passed st = owns_slot st"

definition flights :: "(stage \<Rightarrow> bool) \<Rightarrow> string \<Rightarrow> (string \<rightharpoonup> ws_request \<times> stage) \<Rightarrow> string set" where
  "flights P a f = {i. \<exists>r st. f i = Some (r, st) \<and> getClientIP (RemoteAddr r) = a \<and> P st}"

section \<open>The limit\<close>

lemma flights_dom: "flights P a f \<subseteq> dom f"
  by (auto simp: flights_def)

lemma card_insert_cond: "finite F \<Longrightarrow> i \<notin> F \<Longrightarrow> card (if c then insert i F else F) = card F + (if c then 1 else 0)"
  by simp

lemma flights_update:
  assumes "finite (dom f)" "f i = None \<or> f i = Some (r, st)" "f i = None \<Longrightarrow> \<not> P st"
  shows "card (flights P a (f(i \<mapsto> (r, st')))) + (if getClientIP (RemoteAddr r) = a \<and> P st then 1 else 0) =
    card (flights P a f) + (if getClientIP (RemoteAddr r) = a \<and> P st' then 1 else 0)"
proof -
  let ?F = "flights P a f - {i}"
  have fin: "finite ?F" using finite_subset [OF flights_dom assms(1)] by simp
  have 1: "flights P a (f(i \<mapsto> (r, st'))) = (if getClientIP (RemoteAddr r) = a \<and> P st' then insert i ?F else ?F)"
    by (auto simp: flights_def split: if_splits)
  have 2: "flights P a f = (if getClientIP (RemoteAddr r) = a \<and> P st then insert i ?F else ?F)"
  proof (cases "f i")
    case None
    then have "\<not> P st" "i \<notin> flights P a f" using assms(3) by (auto simp: flights_def)
    then show ?thesis by simp
  next
    case (Some x)
    then have "i \<in> flights P a f \<longleftrightarrow> getClientIP (RemoteAddr r) = a \<and> P st" using assms(2) by (simp add: flights_def)
    then show ?thesis by (simp add: insert_absorb)
  qed
  have "card (flights P a (f(i \<mapsto> (r, st')))) = card ?F + (if getClientIP (RemoteAddr r) = a \<and> P st' then 1 else 0)"
    by (rule trans [OF arg_cong [OF 1, of card]]) (rule card_insert_cond [OF fin], simp)
  moreover have "card (flights P a f) = card ?F + (if getClientIP (RemoteAddr r) = a \<and> P st then 1 else 0)"
    by (rule trans [OF arg_cong [OF 2, of card]]) (rule card_insert_cond [OF fin], simp)
  ultimately show ?thesis by linarith
qed

text \<open>Everything else gives back the slots of the connections that it ends.\<close>

lemma elsewhere_slots:
  assumes "server_step s n n'" "h_made (n_hub n') = h_made (n_hub n)" "finite (h_made (n_hub n))"
  shows "\<exists>k. card (connections_of a (n_hub n)) = card (connections_of a (n_hub n')) + k \<and>
    ipConnections n' a = ipConnections n a - of_nat k"
proof -
  have quiet: ?thesis if "slots (n_hub n') = slots (n_hub n)" "ipConnections n' = ipConnections n"
    using slots_connections [OF that(1)] that(2) by (intro exI [of _ 0]) simp
  show ?thesis
    using assms(1)
  proof (cases rule: server_step.cases)
    case (handshake r e resp)
    from handshake_outcome [OF handshake(4) refl] show ?thesis
    proof (elim disjE exE conjE)
      assume "n_hub n' = n_hub n" "ipConnections n' = ipConnections n"
      then show ?thesis by (intro exI [of _ 0]) simp
    next
      fix u w
      assume "n' = (bump (if 0 < MaxPerIP s then Some (getClientIP (RemoteAddr r)) else None) 1 n)
        \<lparr>n_world := w, n_hub := add_client (conn_id r) u (if 0 < MaxPerIP s then Some (getClientIP (RemoteAddr r)) else None) (n_hub n)\<rparr>"
      then have "h_made (n_hub n') = insert (conn_id r) (h_made (n_hub n))" by (simp add: add_client_def)
      then show ?thesis using handshake(2) assms(2) by auto
    qed
  next
    case (client_frame i e data w' h')
    then show ?thesis using quiet slots_handleMessage [of "sd_ps s" e i data "n_world n" "n_hub n"] by simp
  next
    case (connection_over i)
    let ?k = "if c_ip (h_client (n_hub n) i) = Some a then 1 else 0 :: nat"
    have "ipConnections n' a = ipConnections n a - of_nat ?k"
      unfolding connection_over(1) by (auto simp: connection_ends_def bump_def split: option.split)
    moreover have "card (connections_of a (n_hub n)) = card (connections_of a (n_hub n')) + ?k"
      using connections_leave [OF connection_over(3,4), of a] assms(3) connection_over(1) by (simp add: connection_ends_def)
    ultimately show ?thesis by blast
  next
    case (room_delivery e channel payload)
    have "slots (fanout_room e channel payload (n_hub n)) = slots (n_hub n)"
      by (auto simp: fanout_room_def split: prod.splits option.splits)
    then show ?thesis using quiet room_delivery by simp
  next
    case (presence_delivery i e payload d)
    then show ?thesis using quiet by simp
  next
    case (hub_moves h')
    then have "slots h' = slots (n_hub n)" using hub_step_ip by (auto simp: slots_def fun_eq_iff)
    then show ?thesis using quiet hub_moves by simp
  qed
qed

text \<open>The counter of an address is the number of its connections and of the handshakes that own a slot.\<close>

definition tally :: "int \<Rightarrow> 'r node \<Rightarrow> (string \<rightharpoonup> ws_request \<times> stage) \<Rightarrow> string \<Rightarrow> bool" where
  "tally m n f a \<longleftrightarrow> ipConnections n a = of_nat (card (connections_of a (n_hub n)) + card (flights owns_slot a f)) \<and>
     int (card (connections_of a (n_hub n)) + card (flights passed a f)) \<le> m"

definition limit_ok :: "nat \<Rightarrow> int \<Rightarrow> 'r busy \<Rightarrow> bool" where
  "limit_ok N m b \<longleftrightarrow> finite (h_made (n_hub (b_node b))) \<and> finite (dom (b_flights b)) \<and> card (dom (b_flights b)) \<le> N \<and>
     (\<forall>i r st. b_flights b i = Some (r, st) \<longrightarrow> i = conn_id r \<and> (i \<in> h_made (n_hub (b_node b)) \<longrightarrow> (\<exists>resp. st = Answered resp))) \<and>
     (\<forall>a. tally m (b_node b) (b_flights b) a)"

lemma word_not_over:
  assumes "\<not> over_limit s a n" "ipConnections n a = of_nat k" "int k + 1 < 2 ^ 31" "0 < MaxPerIP s" "MaxPerIP s < 2 ^ 31"
  shows "int k + 1 \<le> MaxPerIP s"
proof -
  have "(of_nat k + 1 :: 32 word) = word_of_int (int k + 1)" by simp
  then have "sint (of_nat k + 1 :: 32 word) = int k + 1"
    using assms(3) by (simp only: signed_of_int) (simp add: signed_take_bit_int_eq_self)
  moreover have "sint (word_of_int (MaxPerIP s) :: 32 word) = MaxPerIP s"
    using assms(4,5) by (simp add: signed_of_int signed_take_bit_int_eq_self)
  ultimately show ?thesis using assms(1,2) by (simp add: over_limit_def)
qed


lemma flights_mono: "finite (dom f) \<Longrightarrow> card (flights P a f) \<le> card (dom f)"
  by (rule card_mono [OF _ flights_dom])

lemma flights_gone: "f i = Some (r, Answered resp) \<Longrightarrow> \<not> P (Answered resp) \<Longrightarrow> flights P a (f(i := None)) = flights P a f"
  by (auto simp: flights_def)

lemma turn_kinds:
  assumes "handshake_turn s e r st n = (st', n')" "0 < MaxPerIP s"
  obtains (count) "st = Arrived" "n' = bump (Some (getClientIP (RemoteAddr r))) 1 n" "owns_slot st'"
      "passed st' \<Longrightarrow> \<not> over_limit s (getClientIP (RemoteAddr r)) n"
  | (inside) "owns_slot st'" "owns_slot st" "passed st' \<Longrightarrow> passed st" "n_hub n' = n_hub n" "ipConnections n' = ipConnections n"
  | (made) u where "st = Admitted u" "st' = Answered Upgraded"
      "n' = n\<lparr>n_hub := add_client (conn_id r) u (Some (getClientIP (RemoteAddr r))) (n_hub n)\<rparr>"
  | (left) resp where "st = Leaving resp" "st' = Answered resp" "n' = bump (Some (getClientIP (RemoteAddr r))) (- 1) n"
  | (over) resp where "st = Answered resp" "st' = st" "n' = n"
proof (cases st)
  case Arrived
  show ?thesis
  proof (cases "over_limit s (getClientIP (RemoteAddr r)) n")
    case True
    then show ?thesis using assms Arrived by (intro that(1)) (auto simp: counted_ip_def)
  next
    case False
    then show ?thesis using assms Arrived by (intro that(1)) (auto simp: counted_ip_def)
  qed
next
  case Counted
  then have st': "n' = n" "st' = fst (handshake_turn s e r Counted n)" using assms(1) by auto
  have "owns_slot st'" unfolding st'(2) by (auto split: sum.split)
  then show ?thesis using Counted st'(1) by (intro that(2)) simp_all
next
  case (Identified u)
  let ?c = "rate_check s e u (n_world n)"
  have st': "n' = n\<lparr>n_world := snd ?c\<rparr>" "st' = (if fst ?c then Admitted u else Leaving (Refused 429 ''Too many connections''))"
    using assms(1) Identified by (auto simp: split_beta Let_def)
  have "owns_slot st'" by (simp add: st'(2))
  then show ?thesis using Identified st'(1) by (intro that(2)) simp_all
next
  case (Admitted u)
  show ?thesis
  proof (cases "upgradable r \<and> CheckOrigin (getAllowedOrigins (sd_cfg s)) (Origin r)")
    case True
    then show ?thesis using assms Admitted by (intro that(3) [of u]) (auto simp: counted_ip_def)
  next
    case False
    then have "st' = Leaving UpgradeFailed" "n' = n" using assms(1) Admitted by auto
    then show ?thesis using Admitted by (intro that(2)) simp_all
  qed
next
  case (Leaving resp)
  then show ?thesis using assms by (intro that(4) [of resp]) (auto simp: counted_ip_def)
next
  case (Answered resp)
  then show ?thesis using assms by (intro that(5) [of resp]) auto
qed

lemma tally_count:
  assumes "tally (MaxPerIP s) n f ip" "0 < MaxPerIP s" "MaxPerIP s + int N < 2 ^ 31" "finite (dom f)" "card (dom f) \<le> N"
    and "f i = Some (r, Arrived)" "getClientIP (RemoteAddr r) = ip" "owns_slot st'" "passed st' \<Longrightarrow> \<not> over_limit s ip n"
  shows "tally (MaxPerIP s) (bump (Some ip) 1 n) (f(i \<mapsto> (r, st'))) ip"
proof -
  let ?c = "card (connections_of ip (n_hub n))" and ?O = "flights owns_slot ip f" and ?P = "flights passed ip f" and ?g = "f(i \<mapsto> (r, st'))"
  have old: "ipConnections n ip = of_nat (?c + card ?O)" "int (?c + card ?P) \<le> MaxPerIP s" using assms(1) by (simp_all add: tally_def)
  have fin: "finite ?O" "finite ?P" using finite_subset [OF flights_dom assms(4)] by blast+
  have sub: "?P \<subseteq> ?O" by (auto simp: flights_def elim: passed.elims)
  have o: "card (flights owns_slot ip ?g) = card ?O + 1"
    using flights_update [of f i r Arrived owns_slot ip st'] assms(4,6,7,8) by simp
  have p: "card (flights passed ip ?g) = card ?P + (if passed st' then 1 else 0)"
    using flights_update [of f i r Arrived passed ip st'] assms(4,6,7) by simp
  have "int (?c + card (flights passed ip ?g)) \<le> MaxPerIP s"
  proof (cases "passed st'")
    case True
    have i: "insert i (?O - ?P) \<subseteq> dom f" "i \<notin> ?O - ?P"
      using assms(6) flights_dom [of owns_slot ip f] by (auto simp: flights_def)
    then have "card (?O - ?P) + 1 \<le> N"
      using card_mono [OF assms(4) i(1)] card_insert_disjoint [of "?O - ?P" i] fin(1) assms(5) by simp
    moreover have "card ?O = card ?P + card (?O - ?P)"
      using card_Diff_subset [OF fin(2) sub] card_mono [OF fin(1) sub] by simp
    ultimately have small: "int (?c + card ?O) + 1 < 2 ^ 31" using old(2) assms(3) by linarith
    have "MaxPerIP s < 2 ^ 31" using assms(3) by linarith
    then have "int (?c + card ?O) + 1 \<le> MaxPerIP s"
      using word_not_over [OF assms(9) [OF True] old(1) small assms(2)] by simp
    then show ?thesis using p card_mono [OF fin(1) sub] True by simp
  next
    case False
    then show ?thesis using p old(2) by simp
  qed
  then show ?thesis using o old(1) by (simp add: tally_def bump_def)
qed

lemma tally_other:
  assumes "tally m n f a" "finite (dom f)" "f i = Some (r, st)" "getClientIP (RemoteAddr r) \<noteq> a"
    and "connections_of a (n_hub n') = connections_of a (n_hub n)" "ipConnections n' a = ipConnections n a"
  shows "tally m n' (f(i \<mapsto> (r, st'))) a"
  using assms flights_update [of f i r st owns_slot a st'] flights_update [of f i r st passed a st'] by (simp add: tally_def)

lemma tally_inside:
  assumes "tally m n f a" "finite (dom f)" "f i = Some (r, st)" "owns_slot st" "owns_slot st'" "passed st' \<Longrightarrow> passed st"
    and "n_hub n' = n_hub n" "ipConnections n' = ipConnections n"
  shows "tally m n' (f(i \<mapsto> (r, st'))) a"
proof -
  have "card (flights owns_slot a (f(i \<mapsto> (r, st')))) = card (flights owns_slot a f)"
    using flights_update [of f i r st owns_slot a st'] assms(2-5) by simp
  moreover have "card (flights passed a (f(i \<mapsto> (r, st')))) \<le> card (flights passed a f)"
    using flights_update [of f i r st passed a st'] assms(2,3,6) by (auto split: if_splits)
  ultimately show ?thesis using assms(1,7,8) by (simp add: tally_def)
qed

lemma tally_made:
  assumes "tally m n f a" "finite (dom f)" "f i = Some (r, Admitted u)" "i \<notin> h_made (n_hub n)" "finite (h_made (n_hub n))"
  shows "tally m (n\<lparr>n_hub := add_client i u (Some (getClientIP (RemoteAddr r))) (n_hub n)\<rparr>) (f(i \<mapsto> (r, Answered Upgraded))) a"
proof -
  have c: "card (connections_of a (add_client i u (Some (getClientIP (RemoteAddr r))) (n_hub n))) =
      card (connections_of a (n_hub n)) + (if getClientIP (RemoteAddr r) = a then 1 else 0)"
    using connections_add [OF assms(4,5), of a u "Some (getClientIP (RemoteAddr r))"] by simp
  have f: "card (flights P a (f(i \<mapsto> (r, Answered Upgraded)))) + (if getClientIP (RemoteAddr r) = a then 1 else 0) = card (flights P a f)"
    if "P (Admitted u)" "\<not> P (Answered Upgraded)" for P
    using flights_update [of f i r "Admitted u" P a "Answered Upgraded"] assms(2,3) that by simp
  have sum: "card (connections_of a (add_client i u (Some (getClientIP (RemoteAddr r))) (n_hub n))) + card (flights P a (f(i \<mapsto> (r, Answered Upgraded)))) =
      card (connections_of a (n_hub n)) + card (flights P a f)" if "P (Admitted u)" "\<not> P (Answered Upgraded)" for P
    using c f [of P] that by simp
  show ?thesis
    using sum [of owns_slot] sum [of passed] assms(1) by (simp del: of_nat_add add: tally_def)
qed

lemma tally_left:
  assumes "tally m n f a" "finite (dom f)" "f i = Some (r, Leaving resp)"
  shows "tally m (bump (Some (getClientIP (RemoteAddr r))) (- 1) n) (f(i \<mapsto> (r, Answered resp))) a"
proof -
  have "card (flights owns_slot a f) = card (flights owns_slot a (f(i \<mapsto> (r, Answered resp)))) + (if getClientIP (RemoteAddr r) = a then 1 else 0)"
      "card (flights passed a (f(i \<mapsto> (r, Answered resp)))) = card (flights passed a f)"
    using flights_update [of f i r "Leaving resp" owns_slot a "Answered resp"] flights_update [of f i r "Leaving resp" passed a "Answered resp"] assms(2,3) by simp_all
  then show ?thesis using assms(1) by (cases "getClientIP (RemoteAddr r) = a") (simp_all add: tally_def bump_def)
qed

lemma limit_ok_turn:
  assumes "limit_ok N m b" "b_flights b i = Some (r, st)" "\<And>a. tally m n' ((b_flights b)(i \<mapsto> (r, st'))) a"
    and "h_made (n_hub n') = h_made (n_hub (b_node b)) \<and> (\<forall>resp. st \<noteq> Answered resp) \<or>
      h_made (n_hub n') = insert i (h_made (n_hub (b_node b))) \<and> (\<exists>resp. st' = Answered resp)"
  shows "limit_ok N m (b\<lparr>b_node := n', b_flights := (b_flights b)(i \<mapsto> (r, st'))\<rparr>)"
proof -
  have "dom ((b_flights b)(i \<mapsto> (r, st'))) = dom (b_flights b)" using assms(2) by auto
  moreover have "j = conn_id r' \<and> (j \<in> h_made (n_hub n') \<longrightarrow> (\<exists>resp. x = Answered resp))"
    if "((b_flights b)(i \<mapsto> (r, st'))) j = Some (r', x)" for j r' x
    using that assms(1,2,4) by (fastforce simp: limit_ok_def split: if_splits)
  moreover have "finite (h_made (n_hub n'))" using assms(1,4) by (auto simp: limit_ok_def)
  ultimately show ?thesis using assms(1,3) by (simp add: limit_ok_def)
qed

lemma proceeds_ok:
  assumes "0 < MaxPerIP s" "MaxPerIP s + int N < 2 ^ 31" "limit_ok N (MaxPerIP s) b" "b_flights b i = Some (r, st)"
    and "handshake_turn s e r st (b_node b) = (st', n')"
  shows "limit_ok N (MaxPerIP s) (b\<lparr>b_node := n', b_flights := (b_flights b)(i \<mapsto> (r, st'))\<rparr>)"
proof -
  have fin: "finite (dom (b_flights b))" "finite (h_made (n_hub (b_node b)))" "card (dom (b_flights b)) \<le> N"
    using assms(3) by (simp_all add: limit_ok_def)
  have old: "tally (MaxPerIP s) (b_node b) (b_flights b) a" for a using assms(3) by (simp add: limit_ok_def)
  have i: "i = conn_id r" "i \<in> h_made (n_hub (b_node b)) \<Longrightarrow> \<exists>resp. st = Answered resp"
    using assms(3,4) by (auto simp: limit_ok_def)
  from assms(5,1) show ?thesis
  proof (cases rule: turn_kinds)
    case count
    have "tally (MaxPerIP s) n' ((b_flights b)(i \<mapsto> (r, st'))) a" for a
    proof (cases "getClientIP (RemoteAddr r) = a")
      case True
      then show ?thesis
        using tally_count [OF old assms(1,2) fin(1,3), of i r a st'] assms(4) count by simp
    next
      case False
      then show ?thesis
        using tally_other [OF old fin(1) assms(4), of a n' st'] count(2) by (simp add: bump_def)
    qed
    then show ?thesis using count by (intro limit_ok_turn [OF assms(3,4)]) simp_all
  next
    case inside
    have "tally (MaxPerIP s) n' ((b_flights b)(i \<mapsto> (r, st'))) a" for a
      by (rule tally_inside [OF old fin(1) assms(4)]) (use inside in simp_all)
    then show ?thesis using inside by (intro limit_ok_turn [OF assms(3,4)]) auto
  next
    case (made u)
    have "i \<notin> h_made (n_hub (b_node b))" using i(2) made(1) by auto
    then have "tally (MaxPerIP s) n' ((b_flights b)(i \<mapsto> (r, st'))) a" for a
      using tally_made [OF old fin(1), of i r u] assms(4) fin(2) made i(1) by simp
    then show ?thesis using made i(1) by (intro limit_ok_turn [OF assms(3,4)]) (simp_all add: add_client_def)
  next
    case (left resp)
    have "tally (MaxPerIP s) n' ((b_flights b)(i \<mapsto> (r, st'))) a" for a
      using tally_left [OF old fin(1), of i r resp] assms(4) left by simp
    then show ?thesis using left by (intro limit_ok_turn [OF assms(3,4)]) simp_all
  next
    case (over resp)
    then have "b\<lparr>b_node := n', b_flights := (b_flights b)(i \<mapsto> (r, st'))\<rparr> = b" using assms(4) by (simp add: fun_upd_idem)
    then show ?thesis using assms(3) by simp
  qed
qed

lemma busy_step_ok:
  assumes "0 < MaxPerIP s" "MaxPerIP s + int N < 2 ^ 31"
  shows "busy_step N s b b' \<Longrightarrow> limit_ok N (MaxPerIP s) b \<Longrightarrow> limit_ok N (MaxPerIP s) b'"
proof (induction rule: busy_step.induct)
  case (arrives r b)
  let ?f = "b_flights b" and ?g = "(b_flights b)(conn_id r \<mapsto> (r, Arrived))"
  have fin: "finite (dom ?f)" and fresh: "?f (conn_id r) = None" using arrives(2,4) by (auto simp: limit_ok_def)
  have "card (flights P a ?g) = card (flights P a ?f)" if "\<not> P Arrived" for P a
    using flights_update [of ?f "conn_id r" r Arrived P a Arrived] fin fresh that by simp
  moreover have "card (dom ?g) \<le> N" using arrives(2,3) fin by simp
  ultimately show ?case using arrives(1,4) by (simp add: limit_ok_def tally_def)
next
  case (proceeds b i r st e st' n')
  then show ?case using proceeds_ok [OF assms] by blast
next
  case (responds b i r resp)
  have "dom ((b_flights b)(i := None)) \<subseteq> dom (b_flights b)" by auto
  then have "card (dom ((b_flights b)(i := None))) \<le> card (dom (b_flights b))"
    using responds(2) by (intro card_mono) (simp_all add: limit_ok_def)
  then show ?case
    using responds(2) flights_gone [of "b_flights b" i r resp owns_slot] flights_gone [of "b_flights b" i r resp passed] responds(1)
    by (simp add: limit_ok_def tally_def)
next
  case (elsewhere b n')
  have fin: "finite (h_made (n_hub (b_node b)))" using elsewhere(3) by (simp add: limit_ok_def)
  have "tally (MaxPerIP s) n' (b_flights b) a" for a
  proof -
    obtain k where k: "card (connections_of a (n_hub (b_node b))) = card (connections_of a (n_hub n')) + k"
        "ipConnections n' a = ipConnections (b_node b) a - of_nat k"
      using elsewhere_slots [OF elsewhere(1,2) fin] by blast
    have "tally (MaxPerIP s) (b_node b) (b_flights b) a" using elsewhere(3) by (simp add: limit_ok_def)
    then show ?thesis using k by (simp add: tally_def)
  qed
  then show ?case using elsewhere(2,3) by (simp add: limit_ok_def)
qed


text \<open>
  C15. The limit of connections of an address holds while any number of handshakes interleave with one another
  and with the rest of the server: the connections that read from the address and the handshakes that have passed
  the check and are on their way are together never more than the configured limit. The counter of the address
  is the number of its connections and of the handshakes that own a slot, refused ones until they have given it
  back included, so when no handshake is under way it is the number of the connections: every refusal, failed
  upgrade and end of a connection gives its slot back once. The counter is compared on 32 bits: the limit and the
  number \<open>N\<close> of handshakes at once must stay below $2^{31}$ together.
\<close>

theorem ip_limit_holds:
  assumes "busy_reachable N s w b" "0 < MaxPerIP s" "MaxPerIP s + int N < 2 ^ 31"
  shows "int (card (connections_of a (n_hub (b_node b))) + card (flights passed a (b_flights b))) \<le> MaxPerIP s \<and>
    ipConnections (b_node b) a = of_nat (card (connections_of a (n_hub (b_node b))) + card (flights owns_slot a (b_flights b))) \<and>
    (b_flights b = Map.empty \<longrightarrow> ipConnections (b_node b) a = of_nat (card (connections_of a (n_hub (b_node b)))))"
proof -
  have "limit_ok N (MaxPerIP s) b"
    using assms(1) unfolding busy_reachable_def
  proof (induction rule: rtranclp_induct)
    case base
    show ?case using assms(2)
      by (simp add: limit_ok_def busy_start_def start_node_def NewHub_def tally_def connections_of_def flights_def)
  qed (rule busy_step_ok [OF assms(2,3)])
  moreover have "b_flights b = Map.empty \<Longrightarrow> flights owns_slot a (b_flights b) = {}" by (simp add: flights_def)
  ultimately show ?thesis by (auto simp: limit_ok_def tally_def)
qed

section \<open>Examples\<close>

text \<open>The handshake of \<open>bob\<close>, turn by turn.\<close>

lemma sample_turns:
  "handshake_turn sample_server sample_env sample_request Arrived (start_node sample_world) =
    (Counted, bump (Some ''10.0.0.1'') 1 (start_node sample_world))"
  "handshake_turn sample_server sample_env sample_request Counted (bump (Some ''10.0.0.1'') 1 (start_node sample_world)) =
    (Identified ''bob'', bump (Some ''10.0.0.1'') 1 (start_node sample_world))"
  "handshake_turn sample_server sample_env sample_request (Identified ''bob'') (bump (Some ''10.0.0.1'') 1 (start_node sample_world)) =
    (Admitted ''bob'', bump (Some ''10.0.0.1'') 1 (start_node sample_world))"
  "handshake_turn sample_server sample_env sample_request (Admitted ''bob'') (bump (Some ''10.0.0.1'') 1 (start_node sample_world)) =
    (Answered Upgraded, sample_node)"
proof -
  have tok: "request_token sample_request = sample_token ''access'' (15 * minute)" "request_token sample_request \<noteq> []"
    by (simp_all add: request_token_def sample_request_def sample_token_def)
  have free: "\<not> over_limit sample_server ''10.0.0.1'' (start_node sample_world)" by (simp add: over_limit_def start_node_def)
  have ip: "counted_ip sample_server sample_request = Some ''10.0.0.1''" by (simp add: counted_ip_def sample_request_def sample_ip)
  have n: "n_world (start_node sample_world) = sample_world" by (simp add: start_node_def)
  show "handshake_turn sample_server sample_env sample_request Arrived (start_node sample_world) =
      (Counted, bump (Some ''10.0.0.1'') 1 (start_node sample_world))"
    "handshake_turn sample_server sample_env sample_request Counted (bump (Some ''10.0.0.1'') 1 (start_node sample_world)) =
      (Identified ''bob'', bump (Some ''10.0.0.1'') 1 (start_node sample_world))"
    "handshake_turn sample_server sample_env sample_request (Identified ''bob'') (bump (Some ''10.0.0.1'') 1 (start_node sample_world)) =
      (Admitted ''bob'', bump (Some ''10.0.0.1'') 1 (start_node sample_world))"
    using free tok(2) by (simp_all add: ip n tok(1) sample_valid sample_user_def rate_check_def)
  have "upgradable sample_request" "Origin sample_request = ''http://localhost:3000''" "conn_id sample_request = ''b''"
    by (simp_all add: sample_request_def)
  then show "handshake_turn sample_server sample_env sample_request (Admitted ''bob'') (bump (Some ''10.0.0.1'') 1 (start_node sample_world)) =
      (Answered Upgraded, sample_node)"
    by (simp add: ip sample_node_def sample_handshake) (simp add: bump_def start_node_def)
qed

lemma busy_sample: "busy_reachable 5 sample_server sample_world \<lparr>b_node = sample_node, b_flights = Map.empty\<rparr>"
proof -
  let ?n = "start_node sample_world" and ?n1 = "bump (Some ''10.0.0.1'') 1 (start_node sample_world)"
  let ?b = "\<lambda>n st. \<lparr>b_node = n, b_flights = [''b'' \<mapsto> (sample_request, st)]\<rparr>"
  have id: "conn_id sample_request = ''b''" by (simp add: sample_request_def)
  have free: "length (h_register (n_hub ?n1)) < queueCap" by (simp add: start_node_def NewHub_def queueCap_def)
  have 0: "busy_step 5 sample_server (busy_start sample_world) (?b ?n Arrived)"
    using busy_step.arrives [of sample_request "busy_start sample_world" 5 sample_server]
    by (simp add: busy_start_def start_node_def NewHub_def id)
  have step: "busy_step 5 sample_server (?b n st) (?b n' st')"
    if "handshake_turn sample_server sample_env sample_request st n = (st', n')" "length (h_register (n_hub n)) < queueCap" for n n' st st'
    using busy_step.proceeds [of "?b n st" "''b''" sample_request st sample_server sample_env st' n' 5] that by simp
  have 5: "busy_step 5 sample_server (?b sample_node (Answered Upgraded)) \<lparr>b_node = sample_node, b_flights = Map.empty\<rparr>"
    using busy_step.responds [of "?b sample_node (Answered Upgraded)" "''b''" sample_request Upgraded 5 sample_server] by simp
  have "length (h_register (n_hub ?n)) < queueCap" using free by simp
  note steps = 0 step [OF sample_turns(1) this] step [OF sample_turns(2) free] step [OF sample_turns(3) free] step [OF sample_turns(4) free] 5
  show ?thesis unfolding busy_reachable_def using steps by (meson converse_rtranclp_into_rtranclp rtranclp.rtrancl_refl)
qed

lemma ip_limit_holds_witness:
  "busy_reachable 5 sample_server sample_world \<lparr>b_node = sample_node, b_flights = Map.empty\<rparr> \<and>
   card (connections_of ''10.0.0.1'' (n_hub sample_node)) = 1 \<and> ipConnections sample_node ''10.0.0.1'' = of_nat 1 \<and>
   int (card (connections_of ''10.0.0.1'' (n_hub sample_node))) \<le> MaxPerIP sample_server"
proof -
  have "connections_of ''10.0.0.1'' (n_hub sample_node) = {''b''}"
    by (auto simp: connections_of_def sample_node_simps add_client_def NewHub_def NewClient_def)
  then show ?thesis using ip_limit_holds [OF busy_sample, of "''10.0.0.1''"] busy_sample by (simp add: flights_def)
qed

end
