(* ===== verification/Spec2Isabelle.thy ===== *)
theory Spec2Isabelle
  imports Snowflake_Concurrent Rate_Limiter Room_Cache Startup Roles Confinement Delivery Handshake
begin

text \<open>
  A verification development for the chat server in this repository: a Go program that serves a REST interface
  and WebSocket connections, keeps users, rooms and messages in PostgreSQL, and uses Redis to tell the other
  instances of the server what happened, to cache rooms and users, to limit rates and to remember tokens that
  are over.

  \<^bold>\<open>How the parts interact.\<close> A client logs in over REST (\<open>handlers\<close>, \<open>auth_service\<close>), joins rooms
  (\<open>room_service\<close>) and opens a socket (\<open>server.handleWebSocket\<close>), for which the server makes a \<open>Client\<close> with two
  goroutines and registers it with the \<open>Hub\<close>. Frames go to the handlers of \<open>Client\<close>, which call the services.
  \<open>message_service.SendMessage\<close> sanitizes and validates the text, gives it an id of \<open>snowflake\<close>, stores it through
  a repository and publishes it on a Redis channel. Every instance subscribes to the channels, makes a server
  frame of what it gets and puts it into the queue of its hub, which appends it to the buffers of the subscribers
  of the room.

  \<^bold>\<open>Theories.\<close>

  \<^item> \<open>Prelude\<close>: errors and results (\<open>err + 'a\<close>), instants in nanoseconds, decimal numbers, tables as lists
    of rows. \<open>Go_Strings\<close>: the functions of \<open>strings\<close> and \<open>html\<close> that the program uses.
  \<^item> \<open>Snowflake\<close>, \<open>Snowflake_Concurrent\<close> (\<open>pkg/snowflake\<close>): ids as 64-bit words; \<open>Generate\<close> as a function of the
    clock readings it takes, and cut at the points where it lets go of the mutex, for any interleaving.
  \<^item> \<open>Sanitization\<close>, \<open>Validator\<close> (\<open>pkg/sanitization\<close>, \<open>pkg/validator\<close>): the regular expressions as
    matchers, and languages that they are shown to accept.
  \<^item> \<open>Model\<close> (\<open>internal/model\<close>): the data as records, with the JSON they marshal to and unmarshal from.
  \<^item> \<open>Database\<close>, \<open>Repositories\<close>, \<open>Queries\<close>, \<open>Integrity\<close> (\<open>internal/repository\<close>): tables, single statements,
    queries and transactions, every one of which may fail before or after it is applied; the queries and writes of
    the three repositories; what a page of history and a search return; the keys and references that every
    write keeps.
  \<^item> \<open>Redis\<close>, \<open>Redis_PubSub\<close>, \<open>Rate_Limiter\<close> (\<open>internal/pubsub\<close>, \<open>internal/cache\<close>): the commands of Redis are a
    record of functions; the locale \<open>redis_server\<close> states what the documentation of Redis promises of them and a
    reference implementation shows that this can hold. The rate limiter's script is translated from Lua, with
    its numbers rounded to doubles.
  \<^item> \<open>World\<close>: database, Redis and published messages together.
  \<^item> \<open>Message_Service\<close>, \<open>Room_Service\<close>, \<open>User_Service\<close>, \<open>Auth_Service\<close> (\<open>internal/service\<close>) with
    \<open>Message_Properties\<close>, \<open>Room_Properties\<close>, \<open>Room_Cache\<close>, \<open>Auth_Properties\<close>: every operation of the five services.
    JWT and bcrypt are parameters with the laws of the locales \<open>jwt_library\<close> and \<open>password_hashes\<close>; the blacklist of
    tokens is the locale \<open>token_blacklist\<close>, which \<open>redis_server\<close> implements; \<open>message_dedup\<close> is what sending
    twice needs of the dedup store, implemented over Redis and in memory.
  \<^item> \<open>Config\<close> (\<open>internal/config\<close>): defaults, loading and validation; viper and the file system are parameters.
  \<^item> \<open>Protocol\<close> (\<open>internal/protocol\<close>): the frames and the decoding of their data.
  \<^item> \<open>Hub\<close>, \<open>Hub_Steps\<close> (\<open>internal/server\<close>): the registries, the channels and the connections; the goroutines
    as the step relation \<open>hub_step\<close>, one step for each access under the lock and each channel operation; a send on
    a closed channel ends the program.
  \<^item> \<open>Client_Handlers\<close>, \<open>Server\<close>, \<open>Server_Properties\<close>, \<open>Room_Delivery\<close> (\<open>internal/server\<close>): the handlers of
    frames, the fan-out of what Redis delivers, the handshake with its limits, the server as the step relation
    \<open>server_step\<close>; from a frame of one client to the buffers of the others.
  \<^item> \<open>Http\<close>, \<open>Http_Properties\<close> (\<open>internal/handlers\<close>, \<open>internal/middleware\<close>, \<open>internal/health\<close>,
    \<open>cmd/server\<close>): middleware, handlers, routes, and the choice of the node id. \<open>Error_Paths\<close>: what requests and
    frames that are refused leave behind, with every statement that can fail.
  \<^item> \<open>Pumps\<close>, \<open>Run_Loop\<close>, \<open>Subscriptions\<close> (\<open>internal/server\<close>): the goroutines as the loops they are, \<open>ReadPump\<close>,
    \<open>WritePump\<close>, \<open>Run\<close>, \<open>subscribeToRoomMessages\<close> and \<open>subscribeToPresence\<close>, as functions of the events they meet, with their runs in
    the step relations. \<open>Delivery\<close>: the room loop, the loop of the hub and the writers in any order of their turns, from
    a message on a channel of Redis to the wire of a subscriber. \<open>Handshake\<close>: \<open>handleWebSocket\<close> cut into its turns, and
    any number of handshakes at once. \<open>Confinement\<close>: what a frame can do to other connections.
  \<^item> \<open>Operations\<close>: the locale \<open>kept\<close>, a relation that every operation of the services satisfies, and that then all
    frames, requests and handshakes satisfy; interpreted on what is published (\<open>Published\<close>), on deleted messages
    (\<open>Deletion\<close>) and on the roles of members (\<open>Roles\<close>).
  \<^item> \<open>Published\<close>, \<open>Cluster\<close>, \<open>Deletion\<close>, \<open>Roles\<close>: what every operation appends to the log of the channels; several
    instances of the server on one database and one Redis, as the step relation \<open>cluster_step\<close> over their requests,
    frames, loops and losses; what stays deleted, and who has which role, along every run of them.
  \<^item> \<open>Lifecycle\<close>, \<open>Server_Life\<close> (\<open>internal/server\<close>): what happens to connections after \<open>CloseAll\<close>, in infinite runs
    that are fair; \<open>NewServer\<close>, \<open>Start\<close>, the routes of the WebSocket port and \<open>Shutdown\<close> as the step relation
    \<open>life_step\<close> around \<open>server_step\<close>.
  \<^item> \<open>Observability\<close>, \<open>Startup\<close> (\<open>internal/logging\<close>, \<open>internal/tracing\<close>, \<open>internal/metrics\<close>,
    \<open>internal/repository/db.go\<close>, \<open>cmd/server\<close>): what \<open>main\<close> builds from the configuration and when it gives up, and
    the shutdown of its servers with their common deadline. zerolog, Prometheus, pgx, go-redis and PEM are
    parameters.

  \<^bold>\<open>Conventions.\<close> An operation takes an environment \<open>env\<close> that fixes what one call sees of the outside: clock
  readings, generated ids, failures of the database and of Redis, each under the label of the call. It returns
  its result and the new state. An error is \<^const>\<open>Inl\<close>. Identifiers and texts are byte strings. Records have the
  fields of the Go structs, with a prefix where two structs share a name. A repeated read of the clock is a new
  label.

  \<^bold>\<open>What the lemmas show.\<close> Messages: who can send, edit and delete what, that a stored text is free of markup,
  that a deleted message stays deleted on every instance, that a repeated send is answered with the first
  message, what a page of history holds, that a stored chat frame is published once and reaches exactly the open
  subscribers that have space. Rooms: joining, leaving,
  bans, counts, coherence of the cache, that only its creator owns a room, and over REST that nobody acts for
  another user. Accounts: registration,
  login, single use of refresh tokens, that logged-out tokens stay out. Server: the invariant of the hub under all
  interleavings, the limit of connections of an address for handshakes that overlap, that a frame acts on its own
  connection only. Ids are unique and
  increasing as long as no sequence is exhausted. Errors: a request or a frame that is refused has changed no table
  and published nothing. Connections: frames go out in the order in which they were queued, once; what the room
  loop takes is queued up to the capacity of the hub, and at every moment what is on the wire of a connection
  with space and what is on its way to it are exactly the frames of its rooms. Instances: all connections everywhere see the events of rooms in the one order of Redis, and every message
  that they are shown was stored by its author in its room and is free of markup. Life: a started program is put
  together consistently, a logout over REST also closes the WebSocket door, \<open>CloseAll\<close> ends every registered
  connection. Some theorems show behaviour that the code does not mean to
  have: a duplicate id, a lost reaction, a wrong member count, a stale user, a client that is never removed, a
  panic of the whole server, a subscriber who has left the room, a connection that the shutdown misses, frames that
  it drops.

  \<^bold>\<open>Bounds.\<close> There is no fuel. \<open>Generate\<close> waits for the clock and therefore consumes a list of readings; that it
  returns is shown for readings that pass the last timestamp. Integers are words where the width matters: ids, the
  counter of connections of an address, the hash of the pod name.

  \<^bold>\<open>Coarser than the code.\<close> In \<open>server_step\<close> and \<open>cluster_step\<close> a handshake is one step; \<open>Handshake\<close> has the same
  handshake in its turns, shows that they make up \<open>handleWebSocket\<close> when nothing comes in between, and proves the limit
  for all interleavings of them; there the rules for the rate of connections are one turn, and the recovery from a
  panic is left out. \<open>drainAndClose\<close> sets its flag and closes the channel in one step, and a handler runs as one
  step of the server (its calls of the hub are single steps of \<open>hub_step\<close>). \<open>hub_step\<close> lets anybody reply and put
  messages into the channel of the hub, which serves its invariants; what is delivered is stated over the loops
  themselves, in \<open>Delivery\<close>. A frame that is sent is the JSON it marshals, and its id, which the generator of ids
  makes, is a value of the environment. \<open>generate_many\<close> has calls one after another; \<open>Snowflake_Concurrent\<close> has them
  overlap. Names of JSON fields are matched exactly and their first occurrence counts. Claims of tokens have no
  \<open>nbf\<close>, which the program never sets. In \<open>life_step\<close> the flags of a shutdown change with its phases. A wait with a
  timer may end by its timer at any time in \<open>life_step\<close>; how long it takes is the subject of \<open>main_shutdown\<close>. \<open>Start\<close>
  is taken to have run before \<open>Shutdown\<close>. That a goroutine goes on is weak fairness, a hypothesis where it is used.

  \<^bold>\<open>Not modelled.\<close> Log lines, the counters and histograms that the code feeds (but for the two gauges of the hub),
  \<open>RequestLoggingMiddleware\<close>, the page \<open>Handlers.Health\<close>, which no route uses, and signals. Sockets, TLS and the
  deadlines of connections are left to the network: a read or write may fail at any time. gin, its validator and
  the upgrade of a connection are parameters. The comparison with a dummy hash at a login without a user only takes
  time. The interfaces of \<open>repository/interfaces.go\<close> have one implementation each, which is what is modelled.
\<close>

end
